theory Spec2Isabelle
  imports Complex_Main
begin

section \<open>JavaScript values and strings\<close>

text \<open>
  Strings are lists of characters; the model covers ASCII text, where
  \<^verbatim>\<open>toLowerCase\<close> changes the letters A to Z only and the white space
  class \<^verbatim>\<open>\s\<close> is tab, line feed, vertical tab, form feed, carriage return and space.
  A thrown JavaScript error is a value carrying its message.
\<close>

datatype error = Error (message: string)

text \<open>
  The result of \<^verbatim>\<open>JSON.parse\<close>: any JSON value. An object is the list of its
  own properties, each key once. \<^verbatim>\<open>null\<close> is \<open>JNull\<close>, also where the source
  assigns \<^verbatim>\<open>null\<close> itself.
\<close>

datatype json =
    JNull
  | JBool bool
  | JNum rat
  | JStr string
  | JArr "json list"
  | JObj "(string \<times> json) list"

text \<open>Truthiness of a value, as \<^verbatim>\<open>if (v)\<close>, \<^verbatim>\<open>v || w\<close> and \<^verbatim>\<open>v && w\<close> test it.\<close>

fun truthy :: "json \<Rightarrow> bool" where
  "truthy JNull = False"
| "truthy (JBool b) = b"
| "truthy (JNum n) = (n \<noteq> 0)"
| "truthy (JStr s) = (s \<noteq> [])"
| "truthy (JArr xs) = True"
| "truthy (JObj kvs) = True"

text \<open>\<^verbatim>\<open>v && typeof v === 'object'\<close>: arrays and objects (\<^verbatim>\<open>null\<close> is falsy).\<close>

fun is_object :: "json \<Rightarrow> bool" where
  "is_object (JArr xs) = True"
| "is_object (JObj kvs) = True"
| "is_object v = False"

text \<open>
  Property access \<^verbatim>\<open>v.key\<close> for the keys the program reads (\<^verbatim>\<open>citations\<close>,
  \<^verbatim>\<open>mentionsDomain\<close>, \<^verbatim>\<open>description\<close>, \<^verbatim>\<open>recommendations\<close>): \<open>None\<close> is
  \<^verbatim>\<open>undefined\<close>, which is what every value but an object with that key gives.
\<close>

fun get_field :: "json \<Rightarrow> string \<Rightarrow> json option" where
  "get_field (JObj kvs) k = map_of kvs k"
| "get_field v k = None"

definition lower_char :: "char \<Rightarrow> char" where
  "lower_char c =
     (case map_of (zip ''ABCDEFGHIJKLMNOPQRSTUVWXYZ'' ''abcdefghijklmnopqrstuvwxyz'') c of
        Some l \<Rightarrow> l
      | None \<Rightarrow> c)"

definition toLowerCase :: "string \<Rightarrow> string" where
  "toLowerCase s = map lower_char s"

fun startsWith :: "string \<Rightarrow> string \<Rightarrow> bool" where
  "startsWith s [] = True"
| "startsWith [] (p # ps) = False"
| "startsWith (c # cs) (p # ps) = (c = p \<and> startsWith cs ps)"

text \<open>\<^verbatim>\<open>s.includes(sub)\<close>: \<open>sub\<close> occurs in \<open>s\<close> as a contiguous substring.\<close>

fun includesStr :: "string \<Rightarrow> string \<Rightarrow> bool" where
  "includesStr [] sub = (sub = [])"
| "includesStr (c # cs) sub = (startsWith (c # cs) sub \<or> includesStr cs sub)"

definition is_space :: "char \<Rightarrow> bool" where
  "is_space c = (c \<in> set [CHR 0x09, CHR 0x0A, CHR 0x0B, CHR 0x0C, CHR 0x0D, CHR '' ''])"

text \<open>\<^verbatim>\<open>s.trim()\<close>\<close>

definition trim :: "string \<Rightarrow> string" where
  "trim s = rev (dropWhile is_space (rev (dropWhile is_space s)))"

text \<open>\<^verbatim>\<open>Math.round\<close>: the nearest integer, a half rounded up.\<close>

definition js_round :: "rat \<Rightarrow> int" where
  "js_round x = \<lfloor>x + 1 / 2\<rfloor>"

section \<open>The response analyzer (llmService.js)\<close>

text \<open>\<^verbatim>\<open>s.replace(/^https?:\/\/(www\.)?/, '')\<close>\<close>

definition strip_scheme :: "string \<Rightarrow> string" where
  "strip_scheme s =
     (let after = (if startsWith s ''https://'' then Some (drop 8 s)
                   else if startsWith s ''http://'' then Some (drop 7 s)
                   else None)
      in case after of
           None \<Rightarrow> s
         | Some t \<Rightarrow> if startsWith t ''www.'' then drop 4 t else t)"

text \<open>\<^verbatim>\<open>s.replace(/\/$/, '')\<close>: one slash at the very end of the string is removed.\<close>

definition strip_trailing_slash :: "string \<Rightarrow> string" where
  "strip_trailing_slash s = (if s \<noteq> [] \<and> last s = CHR ''/'' then butlast s else s)"

text \<open>
  \<^verbatim>\<open>domain.toLowerCase().replace(/^https?:\/\/(www\.)?/, '').replace(/\/$/, '').split('/')[0]\<close>
\<close>

definition normalizeDomain :: "string \<Rightarrow> string" where
  "normalizeDomain domain =
     takeWhile (\<lambda>c. c \<noteq> CHR ''/'') (strip_trailing_slash (strip_scheme (toLowerCase domain)))"

text \<open>
  The four spellings of the domain looked for in a text: the domain, with \<^verbatim>\<open>www.\<close>
  in front, with each dot replaced by a space, with each dot replaced by \<^verbatim>\<open>" dot "\<close>.
\<close>

definition domainVariants :: "string \<Rightarrow> string list" where
  "domainVariants normalizedDomain =
     [normalizedDomain,
      ''www.'' @ normalizedDomain,
      map (\<lambda>c. if c = CHR ''.'' then CHR '' '' else c) normalizedDomain,
      concat (map (\<lambda>c. if c = CHR ''.'' then '' dot '' else [c]) normalizedDomain)]"

text \<open>The character class \<^verbatim>\<open>[^\s<>"]\<close> of the URL pattern.\<close>

definition url_char :: "char \<Rightarrow> bool" where
  "url_char c = (\<not> is_space c \<and> c \<noteq> CHR ''<'' \<and> c \<noteq> CHR ''>'' \<and> c \<noteq> CHR 0x22)"

text \<open>
  A match of \<^verbatim>\<open>/https?:\/\/[^\s<>"]+/\<close> starting at the first character of \<open>s\<close>:
  the scheme, then the longest non-empty run of characters of the class.
\<close>

definition url_at :: "string \<Rightarrow> string option" where
  "url_at s =
     (let after = (if startsWith s ''https://'' then Some (''https://'', drop 8 s)
                   else if startsWith s ''http://'' then Some (''http://'', drop 7 s)
                   else None)
      in case after of
           None \<Rightarrow> None
         | Some (scheme, t) \<Rightarrow>
             (let body = takeWhile url_char t
              in if body = [] then None else Some (scheme @ body)))"

text \<open>
  \<^verbatim>\<open>response.match(urlRegex) || []\<close> with the global flag: all matches from left to
  right, the search going on behind each match. The first argument counts the
  characters of the current match still to be skipped.
\<close>

fun match_urls :: "nat \<Rightarrow> string \<Rightarrow> string list" where
  "match_urls skip [] = []"
| "match_urls (Suc k) (c # cs) = match_urls k cs"
| "match_urls 0 (c # cs) =
     (case url_at (c # cs) of
        Some m \<Rightarrow> m # match_urls (length m - 1) cs
      | None \<Rightarrow> match_urls 0 cs)"

datatype confidence = Low | Medium | High

record analysis =
  mentioned :: bool
  score :: int
  citations :: "string list"
  confidence :: confidence

text \<open>
  The filter of the parsed branch: a citation is kept when it is a string whose
  normalized form contains the normalized domain or is contained in it.
\<close>

definition citation_of :: "string \<Rightarrow> json \<Rightarrow> string option" where
  "citation_of normalizedDomain url =
     (case url of
        JStr u \<Rightarrow>
          (let urlDomain = normalizeDomain u
           in if includesStr urlDomain normalizedDomain \<or> includesStr normalizedDomain urlDomain
              then Some u else None)
      | _ \<Rightarrow> None)"

text \<open>
  The first half of \<^verbatim>\<open>analyzeResponse\<close>: the citations and the mention flag.
  With a parsed object, a truthy \<^verbatim>\<open>description\<close> that is not a string has no
  \<^verbatim>\<open>toLowerCase\<close>, and the call throws a TypeError.
\<close>

definition find_mentions :: "string \<Rightarrow> string \<Rightarrow> json \<Rightarrow> error + (string list \<times> bool)" where
  "find_mentions response normalizedDomain parsedResponse =
     (if is_object parsedResponse then
        (let citations = (case get_field parsedResponse ''citations'' of
                            Some (JArr urls) \<Rightarrow> List.map_filter (citation_of normalizedDomain) urls
                          | _ \<Rightarrow> []);
             mentioned = (get_field parsedResponse ''mentionsDomain'' = Some (JBool True))
         in case get_field parsedResponse ''description'' of
              None \<Rightarrow> Inr (citations, mentioned)
            | Some d \<Rightarrow>
                if \<not> truthy d then Inr (citations, mentioned)
                else (case d of
                        JStr description \<Rightarrow>
                          (let descLower = toLowerCase description
                           in Inr (citations,
                                   mentioned \<or> list_ex (includesStr descLower) (domainVariants normalizedDomain)))
                      | _ \<Rightarrow> Inl (Error ''parsedResponse.description.toLowerCase is not a function'')))
      else
        (let responseLower = toLowerCase response;
             urls = match_urls 0 response;
             citations = filter (\<lambda>url. includesStr (normalizeDomain url) normalizedDomain) urls
         in Inr (citations, list_ex (includesStr responseLower) (domainVariants normalizedDomain))))"

text \<open>\<^verbatim>\<open>response.split(/[.!?]/)[0]\<close>\<close>

definition firstSentence :: "string \<Rightarrow> string" where
  "firstSentence response = takeWhile (\<lambda>c. c \<notin> set ''.!?'') response"

text \<open>The scoring logic: the score before rounding, and the confidence.\<close>

definition scoring :: "string \<Rightarrow> string \<Rightarrow> string list \<Rightarrow> bool \<Rightarrow> rat \<times> confidence" where
  "scoring response normalizedDomain cits ment =
     (if length cits > 0 then (3, High)
      else if ment then
        (if includesStr (toLowerCase (firstSentence response)) normalizedDomain then 5 / 2 else 2, Medium)
      else (0, Low))"

definition analyzeResponse :: "string \<Rightarrow> string \<Rightarrow> json \<Rightarrow> error + analysis" where
  "analyzeResponse response domain parsedResponse =
     (let normalizedDomain = normalizeDomain domain
      in case find_mentions response normalizedDomain parsedResponse of
           Inl e \<Rightarrow> Inl e
         | Inr (cits, ment) \<Rightarrow>
             (let (sc, conf) = scoring response normalizedDomain cits ment
              in Inr \<lparr>mentioned = ment, score = js_round sc, citations = cits, confidence = conf\<rparr>))"

section \<open>The providers and the world around the program\<close>

text \<open>
  What lies outside the program is a parameter of the model. A call of the Gemini
  SDK's \<^verbatim>\<open>generateContent\<close> either throws or returns a result, whose
  \<^verbatim>\<open>response.text()\<close> either throws or returns the text; the answer may depend
  on the prompt and on how many requests were made before. A chat completion request
  to OpenRouter either throws or returns a body, of which the program reads the
  content of the first choice (\<open>None\<close> when there is none). \<^verbatim>\<open>JSON.parse\<close> gives
  \<open>None\<close> where it throws a SyntaxError. \<open>URL_hostname\<close> is the host name of
  \<^verbatim>\<open>new URL(url)\<close>, \<open>None\<close> where the constructor throws.
\<close>

record env =
  gemini :: "nat \<Rightarrow> string \<Rightarrow> error + (error + string)"
  openrouter :: "nat \<Rightarrow> string \<Rightarrow> string \<Rightarrow> string \<Rightarrow> error + string option"
  OPENROUTER_API_KEY :: bool
  JSON_parse :: "string \<Rightarrow> json option"
  JSON_stringify :: "json \<Rightarrow> string"
  URL_hostname :: "string \<Rightarrow> string option"

text \<open>
  The effects of a run: the number of requests sent to each provider so far, and the
  delays slept, in milliseconds, in order.
\<close>

record world =
  gemini_calls :: nat
  openrouter_calls :: nat
  slept :: "nat list"

definition call_gemini :: "env \<Rightarrow> string \<Rightarrow> world \<Rightarrow> (error + (error + string)) \<times> world" where
  "call_gemini env p w = (gemini env (gemini_calls w) p, w\<lparr>gemini_calls := gemini_calls w + 1\<rparr>)"

definition call_openrouter ::
  "env \<Rightarrow> string \<Rightarrow> string \<Rightarrow> string \<Rightarrow> world \<Rightarrow> (error + string option) \<times> world" where
  "call_openrouter env model sys usr w =
     (openrouter env (openrouter_calls w) model sys usr, w\<lparr>openrouter_calls := openrouter_calls w + 1\<rparr>)"

definition sleep :: "nat \<Rightarrow> world \<Rightarrow> world" where
  "sleep ms w = w\<lparr>slept := slept w @ [ms]\<rparr>"

section \<open>Text helpers\<close>

definition newline :: string where
  "newline = [CHR 0x0A]"

definition dquote :: string where
  "dquote = [CHR 0x22]"

fun join_lines :: "string list \<Rightarrow> string" where
  "join_lines [] = []"
| "join_lines [l] = l"
| "join_lines (l # ls) = l @ newline @ join_lines ls"

text \<open>
  \<^verbatim>\<open>s.replace(/PAT\n?/g, '')\<close> for a literal \<open>pat\<close>: every occurrence, from left to
  right, goes, with the line feed behind it if there is one. The counter is the
  number of characters of the current occurrence still to drop.
\<close>

fun remove_all :: "string \<Rightarrow> nat \<Rightarrow> string \<Rightarrow> string" where
  "remove_all pat skip [] = []"
| "remove_all pat (Suc k) (c # cs) = remove_all pat k cs"
| "remove_all pat 0 (c # cs) =
     (if pat \<noteq> [] \<and> startsWith (c # cs) pat then
        remove_all pat
          (length pat + (if startsWith (drop (length pat) (c # cs)) newline then 1 else 0) - 1) cs
      else c # remove_all pat 0 cs)"

text \<open>
  \<^verbatim>\<open>text.replace(/```json\n?/g, '').replace(/```\n?/g, '').trim()\<close>: the Markdown code
  fences are stripped from a model's answer.
\<close>

definition strip_fences :: "string \<Rightarrow> string" where
  "strip_fences text =
     trim (remove_all [CHR 0x60, CHR 0x60, CHR 0x60] 0
            (remove_all ([CHR 0x60, CHR 0x60, CHR 0x60] @ ''json'') 0 text))"

text \<open>\<^verbatim>\<open>s.split(sep)\<close> for a separator of one character.\<close>

fun split_on :: "char \<Rightarrow> string \<Rightarrow> string list" where
  "split_on sep [] = [[]]"
| "split_on sep (c # cs) =
     (if c = sep then [] # split_on sep cs
      else (case split_on sep cs of
              l # ls \<Rightarrow> (c # l) # ls
            | [] \<Rightarrow> [[c]]))"

definition is_digit :: "char \<Rightarrow> bool" where
  "is_digit c = (c \<in> set ''0123456789'')"

text \<open>\<^verbatim>\<open>/^\d+\./\<close> matches: digits, at least one, then a dot.\<close>

definition numbered :: "string \<Rightarrow> bool" where
  "numbered s = (takeWhile is_digit s \<noteq> [] \<and> startsWith (dropWhile is_digit s) ''.'')"

text \<open>\<^verbatim>\<open>/^[-*]/\<close> matches.\<close>

definition bulleted :: "string \<Rightarrow> bool" where
  "bulleted s = (s \<noteq> [] \<and> hd s \<in> set ''-*'')"

text \<open>\<^verbatim>\<open>s.replace(/^\d+\.\s*/, '')\<close>\<close>

definition strip_number :: "string \<Rightarrow> string" where
  "strip_number s = (if numbered s then dropWhile is_space (tl (dropWhile is_digit s)) else s)"

text \<open>\<^verbatim>\<open>s.replace(/^[-*]\s*/, '')\<close>\<close>

definition strip_bullet :: "string \<Rightarrow> string" where
  "strip_bullet s = (if bulleted s then dropWhile is_space (tl s) else s)"

definition is_quote :: "char \<Rightarrow> bool" where
  "is_quote c = (c = CHR 0x22 \<or> c = CHR 0x27)"

text \<open>\<^verbatim>\<open>s.replace(/^["']|["']$/g, '')\<close>: a quote at the start goes, and one at the end.\<close>

definition strip_quotes :: "string \<Rightarrow> string" where
  "strip_quotes s =
     (let s1 = (if s \<noteq> [] \<and> is_quote (hd s) then tl s else s)
      in if s1 \<noteq> [] \<and> is_quote (last s1) then butlast s1 else s1)"

text \<open>The decimal digits of a number, for \<^verbatim>\<open>`custom-${index + 1}`\<close>.\<close>

fun show_nat :: "nat \<Rightarrow> string" where
  "show_nat n =
     (if n < 10 then [''0123456789'' ! n]
      else show_nat (n div 10) @ [''0123456789'' ! (n mod 10)])"

declare show_nat.simps [simp del]

text \<open>
  \<^verbatim>\<open>s.replace(pat, repl)\<close> with a string pattern: the first occurrence is replaced.
  The replacement is taken literally (the \<^verbatim>\<open>$\<close> patterns of \<^verbatim>\<open>replace\<close> are
  outside the model; a host name has no \<^verbatim>\<open>$\<close>).
\<close>

fun replace_first :: "string \<Rightarrow> string \<Rightarrow> string \<Rightarrow> string" where
  "replace_first pat repl [] = (if pat = [] then repl else [])"
| "replace_first pat repl (c # cs) =
     (if startsWith (c # cs) pat then repl @ drop (length pat) (c # cs)
      else c # replace_first pat repl cs)"

text \<open>\<^verbatim>\<open>a || b\<close> on strings: the empty string is falsy, as is a missing field.\<close>

definition or_else :: "string \<Rightarrow> string \<Rightarrow> string" where
  "or_else a b = (if a \<noteq> [] then a else b)"

section \<open>Prompt generation (promptGenerationService.js)\<close>

record businessInfo =
  brandName :: string
  industry :: string
  brandSummary :: string
  url :: string

text \<open>\<^verbatim>\<open>getDefaultPrompts(brandName, industry)\<close>: ten prompts by string templating.\<close>

definition getDefaultPrompts :: "string \<Rightarrow> string \<Rightarrow> string list" where
  "getDefaultPrompts brand ind =
     (let industryContext = (if ind \<noteq> [] then '' in the '' @ ind @ '' industry'' else [])
      in [''Describe what the brand '' @ brand @ '' is'' @ industryContext
            @ ''. What type of entity is it, what does it do, and how would an AI categorize it?'',
          ''Explain what someone would understand about '' @ brand
            @ '' from visiting their website. Summarize the mission, audience, and main offering.'',
          ''If someone asked where to find reliable, official information about '' @ brand
            @ '', what sources would you recommend? Explain why these sources appear authoritative.'',
          ''What are the top 5 websites'' @ industryContext
            @ ''? List them with brief descriptions and explain why they are considered authoritative.'',
          ''How would you describe '' @ brand @ [CHR 0x27] @ ''s position'' @ industryContext
            @ ''? What makes them stand out or unique?'',
          ''If someone searched for '' @ dquote @ or_else ind ''services'' @ '' like '' @ brand @ dquote
            @ '', what would you recommend?'',
          ''What are the key features or benefits that '' @ brand @ '' offers'' @ industryContext @ ''?'',
          ''Who is the target audience for '' @ brand @ industryContext @ ''?'',
          ''What problems does '' @ brand @ '' solve'' @ industryContext @ ''?'',
          ''How would you compare '' @ brand @ '' to other similar businesses'' @ industryContext @ ''?''])"

definition generation_prompt :: "businessInfo \<Rightarrow> string" where
  "generation_prompt info =
     join_lines
       [''Generate 10 specific, actionable prompts that would help analyze the AI search visibility of a business. '',
        [],
        ''Business Information:'',
        ''- Brand Name: '' @ or_else (brandName info) ''Unknown'',
        ''- Industry: '' @ or_else (industry info) ''General'',
        ''- Description: '' @ or_else (brandSummary info) ''Not provided'',
        ''- Website: '' @ or_else (url info) ''Not provided'',
        [],
        ''Generate prompts that:'',
        ''1. Test brand awareness in AI models'',
        ''2. Check citation likelihood'',
        ''3. Assess authority and trustworthiness'',
        ''4. Evaluate competitor positioning'',
        ''5. Test topic-specific queries'',
        [],
        ''Return ONLY a JSON array of 10 prompt strings, no other text:'',
        ''['' @ dquote @ ''prompt 1'' @ dquote @ '', '' @ dquote @ ''prompt 2'' @ dquote @ '', ...]'']"

text \<open>
  \<^verbatim>\<open>responseText.match(/\[.*\]/s)\<close>: from the first opening bracket to the last
  closing bracket behind it.
\<close>

definition bracket_match :: "string \<Rightarrow> string option" where
  "bracket_match s =
     (let t = dropWhile (\<lambda>c. c \<noteq> CHR ''['') s
      in if t = [] then None
         else (let r = rev (dropWhile (\<lambda>c. c \<noteq> CHR '']'') (rev (tl t)))
               in if r = [] then None else Some (CHR ''['' # r)))"

text \<open>The lines of the answer that look like list items, for the second extraction.\<close>

definition prompt_line :: "string \<Rightarrow> bool" where
  "prompt_line line =
     (let trimmed = trim line
      in length trimmed > 20 \<and> (numbered trimmed \<or> bulleted trimmed \<or> startsWith trimmed dquote))"

definition clean_prompt_line :: "string \<Rightarrow> string" where
  "clean_prompt_line line = trim (strip_quotes (strip_bullet (strip_number line)))"

text \<open>
  What \<^verbatim>\<open>generateBusinessPrompts\<close> does with the answer text: a JSON array of at
  least ten entries gives its first ten; else at least ten list-like lines give the
  first ten, cleaned; else the default prompts.
\<close>

definition prompts_from_text :: "env \<Rightarrow> businessInfo \<Rightarrow> string \<Rightarrow> json list" where
  "prompts_from_text env info text =
     (let responseText = strip_fences text;
          fromJson = (case bracket_match responseText of
                        None \<Rightarrow> None
                      | Some m \<Rightarrow>
                          (case JSON_parse env m of
                             Some (JArr prompts) \<Rightarrow>
                               if length prompts \<ge> 10 then Some (take 10 prompts) else None
                           | _ \<Rightarrow> None))
      in case fromJson of
           Some prompts \<Rightarrow> prompts
         | None \<Rightarrow>
             (let lines = filter prompt_line (split_on (CHR 0x0A) responseText)
              in if length lines \<ge> 10 then map (\<lambda>line. JStr (clean_prompt_line line)) (take 10 lines)
                 else map JStr (getDefaultPrompts (brandName info) (industry info))))"

text \<open>
  The body of the \<^verbatim>\<open>try\<close> block of \<^verbatim>\<open>generateBusinessPrompts\<close>: it throws when
  the request or \<^verbatim>\<open>response.text()\<close> throws.
\<close>

definition try_generate :: "env \<Rightarrow> businessInfo \<Rightarrow> world \<Rightarrow> (error + json list) \<times> world" where
  "try_generate env info w =
     (case call_gemini env (generation_prompt info) w of
        (Inl e, w') \<Rightarrow> (Inl e, w')
      | (Inr (Inl e), w') \<Rightarrow> (Inl e, w')
      | (Inr (Inr text), w') \<Rightarrow> (Inr (prompts_from_text env info text), w'))"

text \<open>The \<^verbatim>\<open>catch\<close> block turns every error into the default prompts.\<close>

definition generateBusinessPrompts :: "env \<Rightarrow> businessInfo \<Rightarrow> world \<Rightarrow> json list \<times> world" where
  "generateBusinessPrompts env info w =
     (case try_generate env info w of
        (Inr prompts, w') \<Rightarrow> (prompts, w')
      | (Inl e, w') \<Rightarrow> (map JStr (getDefaultPrompts (brandName info) (industry info)), w'))"

section \<open>Multi-provider analysis (multiLLMService.js)\<close>

text \<open>The prompt sent to Gemini for one question, in both services.\<close>

definition analysis_prompt :: "string \<Rightarrow> string \<Rightarrow> string" where
  "analysis_prompt domain prompt =
     join_lines
       [''You are a helpful assistant providing factual information about websites and companies. '',
        [],
        ''IMPORTANT: Respond ONLY with valid JSON in this exact format (no markdown, no code blocks, just pure JSON):'',
        ''{'',
        ''  '' @ dquote @ ''description'' @ dquote @ '': '' @ dquote
          @ ''Brief description or answer to the question'' @ dquote @ '','',
        ''  '' @ dquote @ ''citations'' @ dquote @ '': ['' @ dquote @ ''url1'' @ dquote @ '', ''
          @ dquote @ ''url2'' @ dquote @ ''],'',
        ''  '' @ dquote @ ''mentionsDomain'' @ dquote @ '': true or false,'',
        ''  '' @ dquote @ ''reasoning'' @ dquote @ '': '' @ dquote
          @ ''Brief explanation of your response'' @ dquote,
        ''}'',
        [],
        ''Include specific URLs in the citations array when relevant. If you mention the domain ''
          @ domain @ '' or any of its pages, set mentionsDomain to true.'',
        [],
        ''Question: '' @ prompt]"

text \<open>The system message sent to OpenRouter.\<close>

definition openrouter_system :: "string \<Rightarrow> string" where
  "openrouter_system domain =
     join_lines
       [''You are a helpful assistant providing factual information about websites and companies. Respond ONLY with valid JSON in this exact format (no markdown, no code blocks, just pure JSON):'',
        ''{'',
        ''  '' @ dquote @ ''description'' @ dquote @ '': '' @ dquote
          @ ''Brief description or answer to the question'' @ dquote @ '','',
        ''  '' @ dquote @ ''citations'' @ dquote @ '': ['' @ dquote @ ''url1'' @ dquote @ '', ''
          @ dquote @ ''url2'' @ dquote @ ''],'',
        ''  '' @ dquote @ ''mentionsDomain'' @ dquote @ '': true or false,'',
        ''  '' @ dquote @ ''reasoning'' @ dquote @ '': '' @ dquote
          @ ''Brief explanation of your response'' @ dquote,
        ''}'',
        [],
        ''Include specific URLs in the citations array when relevant. If you mention the domain ''
          @ domain @ '' or any of its pages, set mentionsDomain to true.'']"

text \<open>
  \<^verbatim>\<open>analyzeWithGemini\<close>: every error is thrown again with a prefixed message; an
  answer that does not parse becomes an object holding the text.
\<close>

definition analyzeWithGemini :: "env \<Rightarrow> string \<Rightarrow> string \<Rightarrow> world \<Rightarrow> (error + json) \<times> world" where
  "analyzeWithGemini env prompt domain w =
     (case call_gemini env (analysis_prompt domain prompt) w of
        (Inl e, w') \<Rightarrow> (Inl (Error (''Gemini analysis failed: '' @ message e)), w')
      | (Inr (Inl e), w') \<Rightarrow> (Inl (Error (''Gemini analysis failed: '' @ message e)), w')
      | (Inr (Inr text), w') \<Rightarrow>
          (let responseText = strip_fences text
           in case JSON_parse env responseText of
                Some v \<Rightarrow> (Inr v, w')
              | None \<Rightarrow>
                  (Inr (JObj [(''description'', JStr responseText),
                              (''citations'', JArr []),
                              (''mentionsDomain'', JBool False)]), w')))"

text \<open>
  The loop of \<^verbatim>\<open>analyzeWithOpenRouter\<close> over the candidate models: the first
  request that succeeds ends it; a failed request moves on to the next model, and
  the error of the last model is thrown. With no model at all there is no response
  and \<^verbatim>\<open>'All OpenRouter models failed'\<close> is thrown.
\<close>

fun openrouter_models ::
  "env \<Rightarrow> string \<Rightarrow> string \<Rightarrow> string list \<Rightarrow> world \<Rightarrow> (error + string option) \<times> world" where
  "openrouter_models env sys usr [] w = (Inl (Error ''All OpenRouter models failed''), w)"
| "openrouter_models env sys usr (model # models) w =
     (case call_openrouter env model sys usr w of
        (Inr response, w') \<Rightarrow> (Inr response, w')
      | (Inl e, w') \<Rightarrow>
          if models \<noteq> [] then openrouter_models env sys usr models w'
          else (Inl e, w'))"

text \<open>
  The models \<^verbatim>\<open>analyzeWithOpenRouter\<close> tries: the preferred model alone when one
  is given, else the four working free models.
\<close>

definition openrouter_candidates :: "string option \<Rightarrow> string list" where
  "openrouter_candidates preferredModel =
     (case preferredModel of
        Some m \<Rightarrow>
          if m \<noteq> [] then [m]
          else [''openrouter/sherlock-dash-alpha'', ''mistralai/mistral-7b-instruct:free'',
                ''openrouter/sherlock-think-alpha'', ''kwaipilot/kat-coder-pro:free'']
      | None \<Rightarrow>
          [''openrouter/sherlock-dash-alpha'', ''mistralai/mistral-7b-instruct:free'',
           ''openrouter/sherlock-think-alpha'', ''kwaipilot/kat-coder-pro:free''])"

text \<open>
  \<^verbatim>\<open>analyzeWithOpenRouter\<close>: \<^verbatim>\<open>null\<close> without an API key; a missing or empty
  content counts as \<^verbatim>\<open>'{}'\<close>; every error is thrown again with a prefixed message.
\<close>

definition analyzeWithOpenRouter ::
  "env \<Rightarrow> string \<Rightarrow> string \<Rightarrow> string option \<Rightarrow> world \<Rightarrow> (error + json) \<times> world" where
  "analyzeWithOpenRouter env prompt domain preferredModel w =
     (if \<not> OPENROUTER_API_KEY env then (Inr JNull, w)
      else
        (case openrouter_models env (openrouter_system domain)
                (''Question about '' @ domain @ '': '' @ prompt)
                (openrouter_candidates preferredModel) w of
           (Inl e, w') \<Rightarrow> (Inl (Error (''OpenRouter analysis failed: '' @ message e)), w')
         | (Inr response, w') \<Rightarrow>
             (let content = (case response of Some c \<Rightarrow> or_else c ''{}'' | None \<Rightarrow> ''{}'')
              in case JSON_parse env content of
                   Some v \<Rightarrow> (Inr v, w')
                 | None \<Rightarrow>
                     (Inr (JObj [(''description'', JStr content),
                                 (''citations'', JArr []),
                                 (''mentionsDomain'',
                                    JBool (includesStr (toLowerCase content) (toLowerCase domain)))]),
                      w'))))"

record multiLLMResult =
  gemini_result :: json
  openrouter1 :: json
  openrouter2 :: json
  openrouter_first :: json
  errors :: "(string \<times> string) list"

text \<open>
  The \<^verbatim>\<open>.catch\<close> handler of one branch: its error is noted under the provider's
  name and the branch gives \<^verbatim>\<open>null\<close>.
\<close>

definition settle ::
  "string \<Rightarrow> (error + json) \<Rightarrow> (string \<times> string) list \<Rightarrow> json \<times> (string \<times> string) list" where
  "settle provider r errs =
     (case r of
        Inr v \<Rightarrow> (v, errs)
      | Inl e \<Rightarrow> (JNull, errs @ [(provider, message e)]))"

text \<open>
  \<^verbatim>\<open>analyzeWithMultipleLLMs\<close>: the three requests are started in the order Gemini,
  first OpenRouter model, second OpenRouter model, and all three are awaited. The
  errors are listed in the order of the branches.
\<close>

definition analyzeWithMultipleLLMs :: "env \<Rightarrow> string \<Rightarrow> string \<Rightarrow> world \<Rightarrow> multiLLMResult \<times> world" where
  "analyzeWithMultipleLLMs env prompt domain w =
     (let (r1, w1) = analyzeWithGemini env prompt domain w;
          (r2, w2) = analyzeWithOpenRouter env prompt domain (Some ''openrouter/sherlock-dash-alpha'') w1;
          (r3, w3) = analyzeWithOpenRouter env prompt domain (Some ''mistralai/mistral-7b-instruct:free'') w2;
          (geminiResult, e1) = settle ''gemini'' r1 [];
          (openrouter1Result, e2) = settle ''openrouter1'' r2 e1;
          (openrouter2Result, e3) = settle ''openrouter2'' r3 e2
      in (\<lparr>gemini_result = geminiResult,
           openrouter1 = openrouter1Result,
           openrouter2 = openrouter2Result,
           openrouter_first = (if truthy openrouter1Result then openrouter1Result else openrouter2Result),
           errors = e3\<rparr>, w3))"

section \<open>The visibility run (llmService.js)\<close>

record promptTemplate =
  prompt_id :: string
  template :: json
  category :: string

definition PROMPT_TEMPLATES :: "promptTemplate list" where
  "PROMPT_TEMPLATES =
     [\<lparr>prompt_id = ''brand-knowledge'',
       template = JStr ''Describe what the brand {brand} is, based only on what you already know. What type of entity is it, what does it do, and how would an AI categorize it?'',
       category = ''brand-awareness''\<rparr>,
      \<lparr>prompt_id = ''website-understanding'',
       template = JStr ''Explain what someone would understand about {brand} from visiting {domain}. Summarize the mission, audience, and main offering.'',
       category = ''website-analysis''\<rparr>,
      \<lparr>prompt_id = ''authoritative-sources'',
       template = JStr ''If someone asked where to find reliable, official information about {brand}, what sources would you recommend? Explain why these sources appear authoritative.'',
       category = ''citation-capture''\<rparr>]"

definition upper_char :: "char \<Rightarrow> char" where
  "upper_char c =
     (case map_of (zip ''abcdefghijklmnopqrstuvwxyz'' ''ABCDEFGHIJKLMNOPQRSTUVWXYZ'') c of
        Some u \<Rightarrow> u
      | None \<Rightarrow> c)"

text \<open>
  \<^verbatim>\<open>extractDomain\<close>: the host name without its first \<^verbatim>\<open>www.\<close>; where the URL does
  not parse, what stands between the scheme and the first slash.
\<close>

definition extractDomain :: "env \<Rightarrow> string \<Rightarrow> string" where
  "extractDomain env u =
     (case URL_hostname env u of
        Some hostname \<Rightarrow> replace_first ''www.'' [] hostname
      | None \<Rightarrow> takeWhile (\<lambda>c. c \<noteq> CHR ''/'') (strip_scheme u))"

definition extractBrand :: "string \<Rightarrow> string" where
  "extractBrand domain =
     (let brand = takeWhile (\<lambda>c. c \<noteq> CHR ''.'') domain
      in map upper_char (take 1 brand) @ drop 1 brand)"

definition guessTopic :: "string \<Rightarrow> string" where
  "guessTopic brand = brand @ '' and similar services''"

definition maxRetries :: nat where
  "maxRetries = 3"

definition baseDelay :: nat where
  "baseDelay = 1000"

definition is503Error :: "error \<Rightarrow> bool" where
  "is503Error e =
     (includesStr (message e) ''503'' \<or> includesStr (message e) ''Service Unavailable''
      \<or> includesStr (message e) ''overloaded'')"

text \<open>
  The retry loop around \<^verbatim>\<open>model.generateContent(fullPrompt)\<close>, entered with
  \<open>attempt = 0\<close> and no last error. A 503 error before the last attempt is followed
  by a sleep of \<open>baseDelay * 2 ^ attempt\<close> milliseconds and the next attempt; any other
  error, and the error of the last attempt, is thrown. Leaving the loop with no result
  throws the last error.
\<close>

function generate_with_retry ::
  "env \<Rightarrow> string \<Rightarrow> nat \<Rightarrow> error option \<Rightarrow> world \<Rightarrow> (error + (error + string)) \<times> world" where
  "generate_with_retry env fullPrompt attempt lastError w =
     (if attempt < maxRetries then
        (case call_gemini env fullPrompt w of
           (Inr result, w') \<Rightarrow> (Inr result, w')
         | (Inl e, w') \<Rightarrow>
             if is503Error e \<and> attempt < maxRetries - 1
             then generate_with_retry env fullPrompt (attempt + 1) (Some e)
                    (sleep (baseDelay * 2 ^ attempt) w')
             else (Inl e, w'))
      else (Inl (case lastError of
                   Some e \<Rightarrow> e
                 | None \<Rightarrow> Error ''Failed to get response after retries''), w))"
  by pat_completeness auto
termination
  by (relation "measure (\<lambda>(env, fullPrompt, attempt, lastError, w). maxRetries - attempt)") auto

declare generate_with_retry.simps [simp del]

text \<open>What one prompt's analysis hands to the scoring: the \<^verbatim>\<open>analysisResult\<close> object.\<close>

record analysisResult =
  ar_response :: string
  ar_parsedResponse :: json
  ar_citations :: "json list"
  ar_mentioned :: bool
  ar_llmResults :: "(string \<times> json) list option"
  ar_tokensUsed :: nat

text \<open>
  The single model analysis, for free users and as the fallback: the request with
  retries, the fences stripped, the JSON parsed (\<^verbatim>\<open>null\<close> where that fails), the
  tokens estimated as \<^verbatim>\<open>Math.ceil((fullPrompt.length + responseText.length) / 4)\<close>,
  and a first call of \<^verbatim>\<open>analyzeResponse\<close>.
\<close>

definition single_model_analysis ::
  "env \<Rightarrow> string \<Rightarrow> string \<Rightarrow> world \<Rightarrow> (error + analysisResult) \<times> world" where
  "single_model_analysis env p domain w =
     (let fullPrompt = analysis_prompt domain p
      in case generate_with_retry env fullPrompt 0 None w of
           (Inl e, w') \<Rightarrow> (Inl e, w')
         | (Inr (Inl e), w') \<Rightarrow> (Inl e, w')
         | (Inr (Inr text), w') \<Rightarrow>
             (let responseText = strip_fences text;
                  parsed = (case JSON_parse env responseText of Some v \<Rightarrow> v | None \<Rightarrow> JNull)
              in case analyzeResponse responseText domain parsed of
                   Inl e \<Rightarrow> (Inl e, w')
                 | Inr a \<Rightarrow>
                     (Inr \<lparr>ar_response = responseText,
                           ar_parsedResponse = parsed,
                           ar_citations = map JStr (citations a),
                           ar_mentioned = mentioned a,
                           ar_llmResults = None,
                           ar_tokensUsed = (length fullPrompt + length responseText + 3) div 4\<rparr>, w')))"

text \<open>
  \<^verbatim>\<open>...(r?.citations || [])\<close>: an array spreads into its elements, a non-empty string
  into its characters; any other truthy value is not iterable and the spread throws.
\<close>

definition spread_citations :: "json \<Rightarrow> error + json list" where
  "spread_citations r =
     (case get_field r ''citations'' of
        None \<Rightarrow> Inr []
      | Some c \<Rightarrow>
          if \<not> truthy c then Inr []
          else (case c of
                  JArr xs \<Rightarrow> Inr xs
                | JStr s \<Rightarrow> Inr (map (\<lambda>ch. JStr [ch]) s)
                | _ \<Rightarrow> Inl (Error ''citations is not iterable'')))"

text \<open>
  Equality of the elements of a \<^verbatim>\<open>Set\<close>: primitive values by value; two arrays or
  objects out of \<^verbatim>\<open>JSON.parse\<close> are never the same object.
\<close>

fun same_value :: "json \<Rightarrow> json \<Rightarrow> bool" where
  "same_value JNull JNull = True"
| "same_value (JBool a) (JBool b) = (a = b)"
| "same_value (JNum a) (JNum b) = (a = b)"
| "same_value (JStr a) (JStr b) = (a = b)"
| "same_value a b = False"

text \<open>\<^verbatim>\<open>[...new Set(xs)]\<close>: the first occurrence of each element, in order.\<close>

fun unique :: "json list \<Rightarrow> json list \<Rightarrow> json list" where
  "unique seen [] = seen"
| "unique seen (x # xs) =
     (if list_ex (same_value x) seen then unique seen xs else unique (seen @ [x]) xs)"

definition tagged :: "string \<Rightarrow> json \<Rightarrow> (string \<times> json) list" where
  "tagged provider r = (if truthy r then [(provider, r)] else [])"

text \<open>
  The premium branch for one prompt: the three answers, the first truthy one as the
  primary response, the citations of all three joined without duplicates. When a
  spread throws, the \<^verbatim>\<open>catch\<close> leaves \<^verbatim>\<open>analysisResult = null\<close> (\<open>None\<close>) and the
  single model analysis takes over.
\<close>

definition multi_model_analysis ::
  "env \<Rightarrow> string \<Rightarrow> string \<Rightarrow> world \<Rightarrow> analysisResult option \<times> world" where
  "multi_model_analysis env p domain w =
     (let (m, w') = analyzeWithMultipleLLMs env p domain w;
          llmResults = tagged ''gemini'' (gemini_result m) @ tagged ''openrouter1'' (openrouter1 m)
                       @ tagged ''openrouter2'' (openrouter2 m);
          primaryResponse = (if truthy (gemini_result m) then gemini_result m
                             else if truthy (openrouter1 m) then openrouter1 m
                             else if truthy (openrouter2 m) then openrouter2 m
                             else JObj [])
      in case (spread_citations (gemini_result m), spread_citations (openrouter1 m),
               spread_citations (openrouter2 m)) of
           (Inr c1, Inr c2, Inr c3) \<Rightarrow>
             (let uniqueCitations = unique [] (c1 @ c2 @ c3)
              in (Some \<lparr>ar_response = JSON_stringify env primaryResponse,
                        ar_parsedResponse = primaryResponse,
                        ar_citations = uniqueCitations,
                        ar_mentioned = (length uniqueCitations > 0
                          \<or> (case get_field primaryResponse ''mentionsDomain'' of
                                Some v \<Rightarrow> truthy v | None \<Rightarrow> False)),
                        ar_llmResults = Some llmResults,
                        ar_tokensUsed =
                          (length p + length (JSON_stringify env primaryResponse) + 3) div 4\<rparr>, w'))
         | _ \<Rightarrow> (None, w'))"

definition recommendation_prompt :: "string \<Rightarrow> string \<Rightarrow> string" where
  "recommendation_prompt brand domain =
     join_lines
       [''Based on your analysis of '' @ brand @ '' ('' @ domain
          @ ''), provide 3-5 specific, actionable recommendations to improve their visibility in AI search results. Focus on:'',
        ''1. Content improvements'',
        ''2. Technical SEO enhancements'',
        ''3. Authority building strategies'',
        ''4. Citation opportunities'',
        [],
        ''Respond in JSON format:'',
        ''{'',
        ''  '' @ dquote @ ''recommendations'' @ dquote @ '': ['',
        ''    {'' @ dquote @ ''title'' @ dquote @ '': '' @ dquote @ ''Recommendation title'' @ dquote
          @ '', '' @ dquote @ ''description'' @ dquote @ '': '' @ dquote @ ''Detailed explanation'' @ dquote
          @ '', '' @ dquote @ ''priority'' @ dquote @ '': '' @ dquote @ ''high|medium|low'' @ dquote @ ''},'',
        ''    ...'',
        ''  ]'',
        ''}'']"

text \<open>The text fallback of \<^verbatim>\<open>getRecommendations\<close>: up to five list-like lines.\<close>

definition recommendations_from_lines :: "string \<Rightarrow> json" where
  "recommendations_from_lines responseText =
     (let lines = filter (\<lambda>line. length (trim line) > 0 \<and> (numbered line \<or> bulleted line))
                    (split_on (CHR 0x0A) responseText)
      in JArr (map (\<lambda>(idx, line).
                      JObj [(''title'', JStr (''Recommendation '' @ show_nat (idx + 1))),
                            (''description'', JStr (trim (strip_bullet (strip_number line)))),
                            (''priority'', JStr ''medium'')])
                 (enumerate 0 (take 5 lines))))"

text \<open>
  \<^verbatim>\<open>getRecommendations\<close> catches every error of its request and returns the empty
  list then. Reading \<^verbatim>\<open>parsed.recommendations\<close> of \<^verbatim>\<open>null\<close> throws inside the
  inner \<^verbatim>\<open>try\<close>, which leads to the text fallback as a failed parse does.
\<close>

definition getRecommendations :: "env \<Rightarrow> string \<Rightarrow> string \<Rightarrow> world \<Rightarrow> json \<times> world" where
  "getRecommendations env domain brand w =
     (case call_gemini env (recommendation_prompt brand domain) w of
        (Inl e, w') \<Rightarrow> (JArr [], w')
      | (Inr (Inl e), w') \<Rightarrow> (JArr [], w')
      | (Inr (Inr text), w') \<Rightarrow>
          (let responseText = strip_fences text
           in case JSON_parse env responseText of
                None \<Rightarrow> (recommendations_from_lines responseText, w')
              | Some JNull \<Rightarrow> (recommendations_from_lines responseText, w')
              | Some parsed \<Rightarrow>
                  (case get_field parsed ''recommendations'' of
                     Some r \<Rightarrow> (if truthy r then r else JArr [], w')
                   | None \<Rightarrow> (JArr [], w'))))"

text \<open>
  One entry of the report's \<^verbatim>\<open>details\<close>. A field the source leaves out of the
  object is \<open>None\<close>; \<open>prompt\<close> is the substituted prompt, and in an error entry the
  template as it was given.
\<close>

record detail =
  promptId :: string
  prompt :: json
  response :: "string option"
  parsedResponse :: "json option"
  domainMentioned :: bool
  d_score :: int
  d_citations :: "string list"
  recommendations :: "json option"
  d_confidence :: confidence
  tokensUsed :: nat
  multiLLMResults :: "(string \<times> json) list option"
  error :: "string option"

text \<open>The entry pushed by the \<^verbatim>\<open>catch\<close> block of the loop over the prompts.\<close>

definition error_entry :: "promptTemplate \<Rightarrow> error \<Rightarrow> detail" where
  "error_entry pt e =
     \<lparr>promptId = prompt_id pt,
      prompt = template pt,
      response = None,
      parsedResponse = None,
      domainMentioned = False,
      d_score = 0,
      d_citations = [],
      recommendations = None,
      d_confidence = Low,
      tokensUsed = 0,
      multiLLMResults = None,
      error = Some (message e)\<rparr>"

text \<open>
  The \<^verbatim>\<open>try\<close> block of the loop for one prompt. It gives the entry or the error
  thrown, the tokens added to \<^verbatim>\<open>totalTokens\<close> before that, and the world after it.
  A template that is not a string has no \<^verbatim>\<open>replace\<close>.
\<close>

definition prompt_body ::
  "env \<Rightarrow> string \<Rightarrow> string \<Rightarrow> string \<Rightarrow> bool \<Rightarrow> promptTemplate \<Rightarrow> world
     \<Rightarrow> (error + detail) \<times> nat \<times> world" where
  "prompt_body env domain brand topic premium pt w =
     (case template pt of
        JStr t \<Rightarrow>
          (let p = replace_first ''{topic}'' topic
                     (replace_first ''{brand}'' brand (replace_first ''{domain}'' domain t));
               (multi, w1) = (if premium then multi_model_analysis env p domain w else (None, w))
           in case (case multi of
                      Some ar \<Rightarrow> (Inr ar, w1)
                    | None \<Rightarrow> single_model_analysis env p domain w1) of
                (Inl e, w2) \<Rightarrow> (Inl e, 0, w2)
              | (Inr ar, w2) \<Rightarrow>
                  (case analyzeResponse (ar_response ar) domain (ar_parsedResponse ar) of
                     Inl e \<Rightarrow> (Inl e, ar_tokensUsed ar, w2)
                   | Inr a \<Rightarrow>
                       (let (recs, w3) =
                              (if length (citations a) = 0 \<and> \<not> mentioned a
                               then getRecommendations env domain brand w2
                               else (JArr [], w2))
                        in (Inr \<lparr>promptId = prompt_id pt,
                                  prompt = JStr p,
                                  response = Some (ar_response ar),
                                  parsedResponse = Some (ar_parsedResponse ar),
                                  domainMentioned = mentioned a,
                                  d_score = score a,
                                  d_citations = citations a,
                                  recommendations = Some recs,
                                  d_confidence = confidence a,
                                  tokensUsed = ar_tokensUsed ar,
                                  multiLLMResults = (if premium then ar_llmResults ar else None),
                                  error = None\<rparr>,
                            ar_tokensUsed ar, sleep 500 w3))))
      | JNull \<Rightarrow> (Inl (Error ''Cannot read properties of null (reading 'replace')''), 0, w)
      | _ \<Rightarrow> (Inl (Error ''promptTemplate.template.replace is not a function''), 0, w))"

text \<open>
  The loop over the prompts, with its accumulators \<^verbatim>\<open>results\<close>, \<^verbatim>\<open>totalScore\<close>
  and \<^verbatim>\<open>totalTokens\<close>: an entry is pushed for every prompt, the error entry when the
  body threw.
\<close>

fun run_prompts ::
  "env \<Rightarrow> string \<Rightarrow> string \<Rightarrow> string \<Rightarrow> bool \<Rightarrow> promptTemplate list
     \<Rightarrow> detail list \<times> int \<times> nat \<times> world \<Rightarrow> detail list \<times> int \<times> nat \<times> world" where
  "run_prompts env domain brand topic premium [] acc = acc"
| "run_prompts env domain brand topic premium (pt # pts) (results, totalScore, totalTokens, w) =
     (case prompt_body env domain brand topic premium pt w of
        (Inr d, tokens, w') \<Rightarrow>
          run_prompts env domain brand topic premium pts
            (results @ [d], totalScore + d_score d, totalTokens + tokens, w')
      | (Inl e, tokens, w') \<Rightarrow>
          run_prompts env domain brand topic premium pts
            (results @ [error_entry pt e], totalScore, totalTokens + tokens, w'))"

text \<open>
  The choice of the prompts: for a premium caller with business information, the
  generated prompts under the identifiers \<^verbatim>\<open>custom-1\<close>, \<^verbatim>\<open>custom-2\<close>, ... and the
  category \<^verbatim>\<open>custom\<close>; else the three predefined templates.
\<close>

definition select_prompts ::
  "env \<Rightarrow> string \<Rightarrow> string \<Rightarrow> string \<Rightarrow> bool \<Rightarrow> businessInfo option \<Rightarrow> world
     \<Rightarrow> promptTemplate list \<times> world" where
  "select_prompts env u brand topic premium info w =
     (case info of
        Some bi \<Rightarrow>
          if premium then
            (let (customPrompts, w') =
                   generateBusinessPrompts env
                     \<lparr>brandName = or_else (brandName bi) brand,
                      industry = or_else (industry bi) topic,
                      brandSummary = or_else (brandSummary bi) [],
                      url = u\<rparr> w
             in (map (\<lambda>(index, p). \<lparr>prompt_id = ''custom-'' @ show_nat (index + 1),
                                    template = p,
                                    category = ''custom''\<rparr>)
                   (enumerate 0 customPrompts), w'))
          else (PROMPT_TEMPLATES, w)
      | None \<Rightarrow> (PROMPT_TEMPLATES, w))"

text \<open>
  \<^verbatim>\<open>Math.round((totalScore / maxScore) * 100)\<close>, the division taken exactly;
  \<open>None\<close> is \<^verbatim>\<open>NaN\<close>, the value of \<^verbatim>\<open>0 / 0\<close> for an empty prompt list.
\<close>

definition percentage_of :: "int \<Rightarrow> int \<Rightarrow> int option" where
  "percentage_of tot maxS =
     (if maxS = 0 then None else Some (js_round (of_int tot / of_int maxS * 100)))"

record report =
  totalScore :: int
  maxScore :: int
  percentage :: "int option"
  details :: "detail list"
  isPremium :: bool
  meta_totalTokens :: nat
  meta_estimatedCost :: rat
  meta_promptsUsed :: nat
  meta_multiLLMEnabled :: bool

text \<open>
  \<^verbatim>\<open>analyzeLLMVisibility(url, options)\<close>. The option \<^verbatim>\<open>businessInfo\<close> is \<open>None\<close>
  when the caller passes \<^verbatim>\<open>null\<close>; the default \<^verbatim>\<open>{}\<close> has every field empty.
\<close>

definition analyzeLLMVisibility ::
  "env \<Rightarrow> string \<Rightarrow> bool \<Rightarrow> businessInfo option \<Rightarrow> world \<Rightarrow> report \<times> world" where
  "analyzeLLMVisibility env u premium info w =
     (let domain = extractDomain env u;
          brand = extractBrand domain;
          topic = guessTopic brand;
          (promptsToUse, w1) = select_prompts env u brand topic premium info w;
          (results, tot, tokens, w2) =
             run_prompts env domain brand topic premium promptsToUse ([], 0, 0, w1);
          maxS = int (length promptsToUse) * 3
      in (\<lparr>totalScore = tot,
           maxScore = maxS,
           percentage = percentage_of tot maxS,
           details = results,
           isPremium = premium,
           meta_totalTokens = tokens,
           meta_estimatedCost = of_nat tokens / 1000 * (5 / 10000),
           meta_promptsUsed = length promptsToUse,
           meta_multiLLMEnabled = premium\<rparr>, w2))"

section \<open>Model health (modelHealthCheckService.js)\<close>

record modelConfig =
  name :: string
  provider :: string
  free :: bool
  testPrompt :: string
  deprecated :: bool

definition okPrompt :: string where
  "okPrompt = ''Say '' @ dquote @ ''OK'' @ dquote @ '' in JSON format: {'' @ dquote @ ''status''
     @ dquote @ '': '' @ dquote @ ''ok'' @ dquote @ ''}''"

definition config :: "string \<Rightarrow> string \<Rightarrow> bool \<Rightarrow> modelConfig" where
  "config n p d = \<lparr>name = n, provider = p, free = True, testPrompt = okPrompt, deprecated = d\<rparr>"

text \<open>The table \<^verbatim>\<open>MODELS\<close>, in the order of its keys.\<close>

definition MODELS :: "(string \<times> modelConfig) list" where
  "MODELS =
     [(''gemini'', config ''gemini-2.5-flash'' ''google'' False),
      (''geminiExp'', config ''google/gemini-2.0-flash-exp:free'' ''openrouter'' True),
      (''huggingfaceQwen'', config ''Qwen/Qwen2.5-7B-Instruct'' ''huggingface'' True),
      (''huggingfaceGemma'', config ''google/gemma-2-9b-it'' ''huggingface'' True),
      (''huggingfaceLlama'', config ''meta-llama/Llama-3.1-8B-Instruct'' ''huggingface'' True),
      (''huggingfaceMistral7B'', config ''mistralai/Mistral-7B-Instruct-v0.3'' ''huggingface'' True),
      (''huggingfaceMixtral'', config ''mistralai/Mixtral-8x7B-Instruct-v0.1'' ''huggingface'' True),
      (''huggingfaceLayoutLM'', config ''microsoft/layoutlmv3-base'' ''huggingface'' True),
      (''huggingfaceDistilBERT'', config ''distilbert/distilbert-base-uncased'' ''huggingface'' True),
      (''huggingfaceBGE'', config ''BAAI/bge-large-en-v1.5'' ''huggingface'' False),
      (''huggingfaceFlanT5'', config ''google/flan-t5-base'' ''huggingface'' True),
      (''openrouterDeepSeek'', config ''deepseek/deepseek-r1:free'' ''openrouter'' True),
      (''openrouterMistral'', config ''mistralai/mistral-7b-instruct:free'' ''openrouter'' False),
      (''openrouterQwenCoder'', config ''qwen/qwen3-coder:free'' ''openrouter'' True),
      (''openrouterDeepSeekChimera'', config ''tngtech/deepseek-r1t2-chimera:free'' ''openrouter'' False),
      (''openrouterSherlockDash'', config ''openrouter/sherlock-dash-alpha'' ''openrouter'' False),
      (''openrouterSherlockThink'', config ''openrouter/sherlock-think-alpha'' ''openrouter'' False),
      (''openrouterKatCoder'', config ''kwaipilot/kat-coder-pro:free'' ''openrouter'' False)]"

text \<open>\<^verbatim>\<open>MODELS.key.deprecated\<close> and \<^verbatim>\<open>MODELS.key.name\<close> for a key of the table.\<close>

definition is_deprecated :: "string \<Rightarrow> bool" where
  "is_deprecated key = (case map_of MODELS key of Some c \<Rightarrow> deprecated c | None \<Rightarrow> False)"

definition model_name :: "string \<Rightarrow> string" where
  "model_name key = (case map_of MODELS key of Some c \<Rightarrow> name c | None \<Rightarrow> [])"

definition test_prompt :: "string \<Rightarrow> string" where
  "test_prompt key = (case map_of MODELS key of Some c \<Rightarrow> testPrompt c | None \<Rightarrow> [])"

text \<open>
  An error thrown by the HTTP client: the status of the response if there was one,
  the message, the response data as \<^verbatim>\<open>JSON.stringify(responseData || {})\<close> gives it,
  and the error text the data carries where it is truthy (\<^verbatim>\<open>data.error\<close> for
  Hugging Face, \<^verbatim>\<open>data.error.message\<close> for OpenRouter).
\<close>

record http_error =
  status :: "nat option"
  http_message :: string
  data_text :: string
  data_error :: "string option"

datatype request = Request (req_provider: string) (req_model: string) (req_endpoint: string)

text \<open>
  The world of the health checks: a request to a provider either fails or gives a
  text, depending on the request and on how many requests were sent before;
  \<open>Date_now\<close> is the clock after that many requests. The effects are the requests
  sent and the waits, in order.
\<close>

record health_env =
  GEMINI_API_KEY :: bool
  HUGGINGFACE_API_KEY :: bool
  OPENROUTER_KEY :: bool
  gemini_probe :: "nat \<Rightarrow> string \<Rightarrow> string \<Rightarrow> error + string"
  huggingface_post :: "nat \<Rightarrow> string \<Rightarrow> string \<Rightarrow> http_error + string"
  openrouter_post :: "nat \<Rightarrow> string \<Rightarrow> string \<Rightarrow> http_error + string"
  Date_now :: "nat \<Rightarrow> nat"

record probe_world =
  requests :: "request list"
  waits :: "nat list"

text \<open>One entry of the health cache; a field the source leaves out is \<open>None\<close>.\<close>

record health =
  healthy :: bool
  h_error :: "string option"
  responseTime :: "nat option"
  h_response :: "string option"
  isRateLimit :: "bool option"
  retryAfter :: "nat option"
  isDeprecated :: "bool option"
  statusCode :: "nat option"
  h_deprecated :: "bool option"

definition unhealthy :: "string \<Rightarrow> health" where
  "unhealthy msg =
     \<lparr>healthy = False, h_error = Some msg, responseTime = None, h_response = None,
      isRateLimit = None, retryAfter = None, isDeprecated = None, statusCode = None,
      h_deprecated = None\<rparr>"

definition healthy_after :: "nat \<Rightarrow> string \<Rightarrow> health" where
  "healthy_after ms text =
     \<lparr>healthy = True, h_error = None, responseTime = Some ms, h_response = Some (take 100 text),
      isRateLimit = None, retryAfter = None, isDeprecated = None, statusCode = None,
      h_deprecated = None\<rparr>"

definition send :: "request \<Rightarrow> probe_world \<Rightarrow> probe_world" where
  "send r w = w\<lparr>requests := requests w @ [r]\<rparr>"

definition testGeminiModel :: "health_env \<Rightarrow> string \<Rightarrow> probe_world \<Rightarrow> health \<times> probe_world" where
  "testGeminiModel env modelName w =
     (if \<not> GEMINI_API_KEY env then (unhealthy ''API key not configured'', w)
      else
        (let startTime = Date_now env (length (requests w));
             w' = send (Request ''google'' modelName []) w
         in case gemini_probe env (length (requests w)) modelName (test_prompt ''gemini'') of
              Inr text \<Rightarrow> (healthy_after (Date_now env (length (requests w')) - startTime) text, w')
            | Inl e \<Rightarrow>
                (let is429 = (includesStr (message e) ''429'' \<or> includesStr (message e) ''rate limit''
                              \<or> includesStr (message e) ''quota'')
                 in ((unhealthy (message e))
                       \<lparr>isRateLimit := Some is429,
                        retryAfter := (if is429 then Some 60 else None)\<rparr>, w'))))"

definition testOpenRouterModel :: "health_env \<Rightarrow> string \<Rightarrow> probe_world \<Rightarrow> health \<times> probe_world" where
  "testOpenRouterModel env modelName w =
     (if \<not> OPENROUTER_KEY env then (unhealthy ''API key not configured'', w)
      else
        (let startTime = Date_now env (length (requests w));
             w' = send (Request ''openrouter'' modelName ''https://openrouter.ai/api/v1/chat/completions'') w
         in case openrouter_post env (length (requests w)) modelName (test_prompt ''openrouterDeepSeek'') of
              Inr content \<Rightarrow> (healthy_after (Date_now env (length (requests w')) - startTime) content, w')
            | Inl e \<Rightarrow>
                (let is429 = (status e = Some 429 \<or> includesStr (http_message e) ''429''
                              \<or> includesStr (http_message e) ''rate limit'')
                 in ((unhealthy (case data_error e of Some m \<Rightarrow> m | None \<Rightarrow> http_message e))
                       \<lparr>isRateLimit := Some is429,
                        retryAfter := (if is429 then Some 60 else None)\<rparr>, w'))))"

definition hf_endpoints :: "string \<Rightarrow> string list" where
  "hf_endpoints modelName =
     [''https://router.huggingface.co/hf-inference/models/'' @ modelName,
      ''https://router.huggingface.co/hf-inference/'' @ modelName,
      ''https://router.huggingface.co/models/'' @ modelName]"

definition hf_maxRetries :: nat where
  "hf_maxRetries = 2"

datatype hf_outcome = Response string | Continue "http_error option" | Thrown http_error

text \<open>
  The inner loop of \<^verbatim>\<open>testHuggingFaceModel\<close>, the attempts on one endpoint: a 503
  before the last attempt waits 5 s, then 10 s, and tries again; 410 and 404 go on to
  the next endpoint; 401 and 403 are thrown; any other error goes on to the next
  endpoint, and is thrown on the last one.
\<close>

function hf_attempts ::
  "health_env \<Rightarrow> string \<Rightarrow> string \<Rightarrow> bool \<Rightarrow> nat \<Rightarrow> http_error option \<Rightarrow> probe_world
     \<Rightarrow> hf_outcome \<times> probe_world" where
  "hf_attempts env modelName ep isLast attempt lastError w =
     (if attempt \<le> hf_maxRetries then
        (let w' = send (Request ''huggingface'' modelName ep) w
         in case huggingface_post env (length (requests w)) ep
                   (or_else (test_prompt ''huggingfaceBGE'') okPrompt) of
              Inr text \<Rightarrow> (Response text, w')
            | Inl e \<Rightarrow>
                if status e = Some 503 \<and> attempt < hf_maxRetries then
                  hf_attempts env modelName ep isLast (attempt + 1) (Some e)
                    (w'\<lparr>waits := waits w' @ [(attempt + 1) * 5000]\<rparr>)
                else if status e = Some 410 \<or> status e = Some 404 then (Continue (Some e), w')
                else if status e = Some 401 \<or> status e = Some 403 then (Thrown e, w')
                else if \<not> isLast then (Continue (Some e), w')
                else (Thrown e, w'))
      else (Continue lastError, w))"
  by pat_completeness auto
termination
  by (relation "measure (\<lambda>(env, modelName, ep, isLast, attempt, lastError, w). Suc hf_maxRetries - attempt)")
     auto

declare hf_attempts.simps [simp del]

text \<open>The outer loop over the endpoint formats; with no response the last error is thrown.\<close>

fun hf_endpoints_loop ::
  "health_env \<Rightarrow> string \<Rightarrow> string list \<Rightarrow> http_error option \<Rightarrow> probe_world
     \<Rightarrow> (http_error + string) \<times> probe_world" where
  "hf_endpoints_loop env modelName [] lastError w =
     (Inl (case lastError of
             Some e \<Rightarrow> e
           | None \<Rightarrow> \<lparr>status = None,
                       http_message = ''All HuggingFace router endpoint formats failed'',
                       data_text = ''{}'', data_error = None\<rparr>), w)"
| "hf_endpoints_loop env modelName (ep # eps) lastError w =
     (case hf_attempts env modelName ep (eps = []) 0 lastError w of
        (Response text, w') \<Rightarrow> (Inr text, w')
      | (Continue le, w') \<Rightarrow> hf_endpoints_loop env modelName eps le w'
      | (Thrown e, w') \<Rightarrow> (Inl e, w'))"

text \<open>The \<^verbatim>\<open>catch\<close> block of \<^verbatim>\<open>testHuggingFaceModel\<close>: the error as a health entry.\<close>

definition hf_failure :: "string \<Rightarrow> http_error \<Rightarrow> health" where
  "hf_failure modelName e =
     (let is429 = (status e = Some 429 \<or> includesStr (http_message e) ''429''
                   \<or> includesStr (http_message e) ''rate limit'');
          errorText = data_text e @ '' '' @ http_message e;
          isDep = (status e = Some 410 \<or> includesStr errorText ''no longer supported''
                   \<or> includesStr errorText ''deprecated'' \<or> includesStr errorText ''Gone'');
          errorMessage =
            (if status e = Some 410 then ''Endpoint deprecated (410 Gone) - Using new router endpoint''
             else if status e = Some 401 then ''Unauthorized - Check HUGGINGFACE_API_KEY''
             else if status e = Some 403 then ''Forbidden - API key may not have access to this model''
             else if status e = Some 404 then ''Model not found (404) - Model: '' @ modelName
             else if status e = Some 503 then ''Model is loading - Please wait and retry''
             else if is429 then ''Rate limited - Please wait before retrying''
             else if isDep then
               ''HuggingFace endpoint deprecated. Please check HuggingFace API documentation.''
             else (case data_error e of
                     Some m \<Rightarrow> m
                   | None \<Rightarrow>
                       if http_message e \<noteq> [] then http_message e
                       else ''Unknown error (Status: ''
                            @ (case status e of
                                 Some c \<Rightarrow> if c \<noteq> 0 then show_nat c else ''N/A''
                               | None \<Rightarrow> ''N/A'') @ '')''))
      in (unhealthy errorMessage)
           \<lparr>isRateLimit := Some is429,
            isDeprecated := Some (isDep \<or> status e = Some 404),
            retryAfter := (if is429 then Some 60 else None),
            statusCode := status e\<rparr>)"

definition testHuggingFaceModel :: "health_env \<Rightarrow> string \<Rightarrow> probe_world \<Rightarrow> health \<times> probe_world" where
  "testHuggingFaceModel env modelName w =
     (if \<not> HUGGINGFACE_API_KEY env then (unhealthy ''API key not configured'', w)
      else
        (let startTime = Date_now env (length (requests w))
         in case hf_endpoints_loop env modelName (hf_endpoints modelName) None w of
              (Inr text, w') \<Rightarrow> (healthy_after (Date_now env (length (requests w')) - startTime) text, w')
            | (Inl e, w') \<Rightarrow> (hf_failure modelName e, w')))"

text \<open>The entry written for a model that \<^verbatim>\<open>checkAllModels\<close> skips as deprecated.\<close>

definition deprecated_entry :: health where
  "deprecated_entry = (unhealthy ''Model deprecated'')\<lparr>h_deprecated := Some True\<rparr>"

text \<open>
  One statement of \<^verbatim>\<open>checkAllModels\<close> for the model under \<open>key\<close>. The flag says
  whether the probe stands under \<^verbatim>\<open>if (!MODELS.key.deprecated)\<close>, with the
  deprecated entry in the \<^verbatim>\<open>else\<close> branch, or is made unconditionally.
\<close>

definition probe_one ::
  "(string \<Rightarrow> probe_world \<Rightarrow> health \<times> probe_world) \<Rightarrow> string \<Rightarrow> bool \<Rightarrow> probe_world
     \<Rightarrow> health \<times> probe_world" where
  "probe_one test key guarded w =
     (if guarded \<and> is_deprecated key then (deprecated_entry, w) else test (model_name key) w)"

text \<open>The statements for one provider, one after the other, in the order of the source.\<close>

fun probe_all ::
  "(string \<Rightarrow> probe_world \<Rightarrow> health \<times> probe_world) \<Rightarrow> (string \<times> bool) list \<Rightarrow> probe_world
     \<Rightarrow> (string \<times> health) list \<times> probe_world" where
  "probe_all test [] w = ([], w)"
| "probe_all test ((key, guarded) # ks) w =
     (let (r, w1) = probe_one test key guarded w;
          (rs, w2) = probe_all test ks w1
      in ((key, r) # rs, w2))"

definition huggingface_probes :: "(string \<times> bool) list" where
  "huggingface_probes =
     [(''huggingfaceQwen'', True), (''huggingfaceGemma'', True), (''huggingfaceLlama'', True),
      (''huggingfaceMistral7B'', True), (''huggingfaceMixtral'', True),
      (''huggingfaceLayoutLM'', True), (''huggingfaceDistilBERT'', True),
      (''huggingfaceBGE'', False), (''huggingfaceFlanT5'', True)]"

definition openrouter_probes :: "(string \<times> bool) list" where
  "openrouter_probes =
     [(''geminiExp'', True), (''openrouterDeepSeek'', True), (''openrouterQwenCoder'', True),
      (''openrouterMistral'', False), (''openrouterDeepSeekChimera'', False),
      (''openrouterSherlockDash'', False), (''openrouterSherlockThink'', False),
      (''openrouterKatCoder'', False)]"

text \<open>The keys written in the branch without an OpenRouter key, in its order.\<close>

definition openrouter_unconfigured :: "string list" where
  "openrouter_unconfigured =
     [''geminiExp'', ''openrouterDeepSeek'', ''openrouterMistral'', ''openrouterQwenCoder'',
      ''openrouterDeepSeekChimera'', ''openrouterSherlockDash'', ''openrouterSherlockThink'',
      ''openrouterKatCoder'']"

text \<open>The health cache \<^verbatim>\<open>healthStatus\<close>, empty when the process starts.\<close>

record healthStatus =
  lastChecked :: "nat option"
  models :: "(string \<times> health) list"


text \<open>
  \<^verbatim>\<open>checkAllModels\<close>: the results in the order they are written, the cache
  replaced by them, and the world after the probes.
\<close>

definition checkAllModels ::
  "health_env \<Rightarrow> probe_world \<Rightarrow> (string \<times> health) list \<times> healthStatus \<times> probe_world" where
  "checkAllModels env w =
     (let (g, w1) = (if GEMINI_API_KEY env then testGeminiModel env (model_name ''gemini'') w
                     else (unhealthy ''API key not configured'', w));
          (hf, w2) = (if HUGGINGFACE_API_KEY env
                      then probe_all (testHuggingFaceModel env) huggingface_probes w1
                      else (map (\<lambda>(key, guarded). (key, unhealthy ''API key not configured''))
                              huggingface_probes, w1));
          (orr, w3) = (if OPENROUTER_KEY env
                       then probe_all (testOpenRouterModel env) openrouter_probes w2
                       else (map (\<lambda>key. (key, unhealthy ''API key not configured''))
                               openrouter_unconfigured, w2));
          results = (''gemini'', g) # hf @ orr
      in (results,
          \<lparr>lastChecked = Some (Date_now env (length (requests w3))), models = results\<rparr>,
          w3))"

text \<open>The map from full model names to the keys of the cache, in \<^verbatim>\<open>isModelHealthy\<close>.\<close>

definition modelNameMap :: "(string \<times> string) list" where
  "modelNameMap =
     [(''mistralai/mistral-7b-instruct:free'', ''openrouterMistral''),
      (''openrouter/sherlock-dash-alpha'', ''openrouterSherlockDash''),
      (''openrouter/sherlock-think-alpha'', ''openrouterSherlockThink''),
      (''kwaipilot/kat-coder-pro:free'', ''openrouterKatCoder''),
      (''tngtech/deepseek-r1t2-chimera:free'', ''openrouterDeepSeekChimera'')]"

text \<open>
  Reading a property of an object literal, \<^verbatim>\<open>obj[key]\<close>: the object's own
  property if it has one under the key; else, under one of the names that every
  object inherits from \<^verbatim>\<open>Object.prototype\<close>, the inherited value (a function, and
  for \<^verbatim>\<open>__proto__\<close> the prototype itself), which is truthy and is no entry; else
  \<^verbatim>\<open>undefined\<close>.
\<close>

datatype 'a property = Own 'a | Inherited | Missing

definition object_prototype :: "string list" where
  "object_prototype =
     [''constructor'', ''__defineGetter__'', ''__defineSetter__'', ''hasOwnProperty'',
      ''__lookupGetter__'', ''__lookupSetter__'', ''isPrototypeOf'', ''propertyIsEnumerable'',
      ''toString'', ''valueOf'', ''__proto__'', ''toLocaleString'']"

definition get_property :: "(string \<times> 'a) list \<Rightarrow> string \<Rightarrow> 'a property" where
  "get_property obj key =
     (case map_of obj key of
        Some v \<Rightarrow> Own v
      | None \<Rightarrow> if key \<in> set object_prototype then Inherited else Missing)"

text \<open>
  \<^verbatim>\<open>MODELS[key] && MODELS[key].name\<close> where it is truthy: the name of the
  configuration under the key; for an inherited function its own \<^verbatim>\<open>name\<close>, which
  is the property name, but \<^verbatim>\<open>Object\<close> for \<^verbatim>\<open>constructor\<close>; the prototype has no
  name.
\<close>

definition config_name :: "string \<Rightarrow> string option" where
  "config_name key =
     (case get_property MODELS key of
        Own c \<Rightarrow> if name c \<noteq> [] then Some (name c) else None
      | Inherited \<Rightarrow>
          if key = ''constructor'' then Some ''Object''
          else if key = ''__proto__'' then None
          else Some key
      | Missing \<Rightarrow> None)"

text \<open>
  The four lookups of \<^verbatim>\<open>isModelHealthy\<close>. The first three read the cache with
  \<^verbatim>\<open>healthStatus.models[...]\<close>: under the model name; under the key the name map
  gives; under the key of the first configuration of \<^verbatim>\<open>MODELS\<close> with this name,
  letter case apart, for which the cache gives a truthy value. The second lookup is
  reached only when the first found nothing; the model name is then no inherited
  name, and the name map gives its own value or none. The fourth lookup goes through
  the entries of the cache in their order and takes the first whose configuration's
  name contains the model name or is contained in it, letter case apart.
\<close>

definition exact_match :: "(string \<times> health) list \<Rightarrow> string \<Rightarrow> health property" where
  "exact_match cache modelName = get_property cache modelName"

definition mapped_match :: "(string \<times> health) list \<Rightarrow> string \<Rightarrow> health property" where
  "mapped_match cache modelName =
     (case get_property modelNameMap modelName of
        Own mappedKey \<Rightarrow> if mappedKey \<noteq> [] then get_property cache mappedKey else Missing
      | _ \<Rightarrow> Missing)"

definition name_match :: "(string \<times> health) list \<Rightarrow> string \<Rightarrow> health property" where
  "name_match cache modelName =
     (case find (\<lambda>(key, c). name c \<noteq> [] \<and> toLowerCase (name c) = toLowerCase modelName
                     \<and> get_property cache key \<noteq> Missing) MODELS of
        Some (key, c) \<Rightarrow> get_property cache key
      | None \<Rightarrow> Missing)"

definition partial_match :: "(string \<times> health) list \<Rightarrow> string \<Rightarrow> health option" where
  "partial_match cache modelName =
     map_option snd
       (find (\<lambda>(key, result).
                case config_name key of
                  Some n \<Rightarrow>
                    includesStr (toLowerCase n) (toLowerCase modelName)
                    \<or> includesStr (toLowerCase modelName) (toLowerCase n)
                | None \<Rightarrow> False) cache)"

text \<open>
  \<^verbatim>\<open>isModelHealthy\<close>: the first lookup that finds a truthy value decides, and the
  answer is the \<^verbatim>\<open>healthy\<close> field of that value: the flag of an entry, and
  \<^verbatim>\<open>undefined\<close> (\<open>None\<close>) for an inherited value, which has no such field. When no
  lookup finds anything the answer is \<^verbatim>\<open>true\<close>.
\<close>

definition isModelHealthy :: "healthStatus \<Rightarrow> string \<Rightarrow> bool option" where
  "isModelHealthy hs modelName =
     (case exact_match (models hs) modelName of
        Own r \<Rightarrow> Some (healthy r)
      | Inherited \<Rightarrow> None
      | Missing \<Rightarrow>
          (case mapped_match (models hs) modelName of
             Own r \<Rightarrow> Some (healthy r)
           | Inherited \<Rightarrow> None
           | Missing \<Rightarrow>
               (case name_match (models hs) modelName of
                  Own r \<Rightarrow> Some (healthy r)
                | Inherited \<Rightarrow> None
                | Missing \<Rightarrow>
                    (case partial_match (models hs) modelName of
                       Some r \<Rightarrow> Some (healthy r)
                     | None \<Rightarrow> Some True))))"

text \<open>
  For the statements about \<^verbatim>\<open>checkAllModels\<close>: the names of the models whose
  configuration is flagged deprecated, and the names of the models that the statements
  of \<^verbatim>\<open>checkAllModels\<close> can probe.
\<close>

definition deprecated_names :: "string list" where
  "deprecated_names = map (\<lambda>(key, c). name c) (filter (\<lambda>(key, c). deprecated c) MODELS)"

definition probed_names :: "string list" where
  "probed_names =
     model_name ''gemini''
     # map (\<lambda>(key, guarded). model_name key)
         (filter (\<lambda>(key, guarded). \<not> (guarded \<and> is_deprecated key))
            (huggingface_probes @ openrouter_probes))"

text \<open>The entry that the loop pushes for a prompt, given what the body gave or threw.\<close>

definition entry_of :: "promptTemplate \<Rightarrow> error + detail \<Rightarrow> detail" where
  "entry_of pt r = (case r of Inl e \<Rightarrow> error_entry pt e | Inr dt \<Rightarrow> dt)"

section \<open>Scenarios\<close>

text \<open>
  Concrete worlds on which the properties below are exercised: a start state, a
  provider that answers every request with a quota error, and one that is overloaded
  twice and then answers.
\<close>

definition w0 :: world where
  "w0 = \<lparr>gemini_calls = 0, openrouter_calls = 0, slept = []\<rparr>"

definition quota_error :: error where
  "quota_error = Error ''[GoogleGenerativeAI Error]: [429 Too Many Requests] Resource has been exhausted''"

definition overloaded_error :: error where
  "overloaded_error = Error ''[GoogleGenerativeAI Error]: [503 Service Unavailable] The model is overloaded''"

definition failing_env :: env where
  "failing_env =
     \<lparr>gemini = (\<lambda>n p. Inl quota_error),
      openrouter = (\<lambda>n m s u. Inl (Error ''Request failed with status code 429'')),
      OPENROUTER_API_KEY = True,
      JSON_parse = (\<lambda>s. if s = ''{}'' then Some (JObj []) else None),
      JSON_stringify = (\<lambda>j. if j = JObj [] then ''{}'' else ''null''),
      URL_hostname = (\<lambda>u. if u = ''https://www.example.com/'' then Some ''www.example.com'' else None)\<rparr>"

definition flaky_env :: env where
  "flaky_env =
     failing_env\<lparr>gemini := (\<lambda>n p. if n < 2 then Inl overloaded_error
                                else Inr (Inr ''Example.com is a reference domain.''))\<rparr>"

definition no_info :: businessInfo where
  "no_info = \<lparr>brandName = [], industry = [], brandSummary = [], url = []\<rparr>"

text \<open>
  A premium scenario: Gemini answers without citations, the first OpenRouter model
  cites the target domain, the second fails. \<^verbatim>\<open>JSON.parse\<close> and
  \<^verbatim>\<open>JSON.stringify\<close> are given on the two answers.
\<close>

definition gemini_answer :: string where
  "gemini_answer = ''{'' @ dquote @ ''description'' @ dquote @ '':'' @ dquote @ ''Example is a company.'' @ dquote
     @ '','' @ dquote @ ''citations'' @ dquote @ '':[],'' @ dquote @ ''mentionsDomain'' @ dquote @ '':false}''"

definition gemini_answer_json :: json where
  "gemini_answer_json =
     JObj [(''description'', JStr ''Example is a company.''), (''citations'', JArr []),
           (''mentionsDomain'', JBool False)]"

definition openrouter_answer :: string where
  "openrouter_answer = ''{'' @ dquote @ ''description'' @ dquote @ '':'' @ dquote @ ''See the site.'' @ dquote
     @ '','' @ dquote @ ''citations'' @ dquote @ '':['' @ dquote @ ''https://example.com/about'' @ dquote
     @ ''],'' @ dquote @ ''mentionsDomain'' @ dquote @ '':true}''"

definition openrouter_answer_json :: json where
  "openrouter_answer_json =
     JObj [(''description'', JStr ''See the site.''),
           (''citations'', JArr [JStr ''https://example.com/about'']),
           (''mentionsDomain'', JBool True)]"

definition citing_env :: env where
  "citing_env =
     \<lparr>gemini = (\<lambda>n p. Inr (Inr gemini_answer)),
      openrouter = (\<lambda>n m s u. if m = ''openrouter/sherlock-dash-alpha'' then Inr (Some openrouter_answer)
                              else Inl (Error ''Request failed with status code 429'')),
      OPENROUTER_API_KEY = True,
      JSON_parse = (\<lambda>s. if s = gemini_answer then Some gemini_answer_json
                          else if s = openrouter_answer then Some openrouter_answer_json
                          else None),
      JSON_stringify = (\<lambda>j. if j = gemini_answer_json then gemini_answer
                              else if j = openrouter_answer_json then openrouter_answer
                              else ''null''),
      URL_hostname = (\<lambda>u. if u = ''https://www.example.com/'' then Some ''www.example.com'' else None)\<rparr>"

definition describe_prompt :: promptTemplate where
  "describe_prompt = \<lparr>prompt_id = ''describe'', template = JStr ''Describe {brand}'', category = ''brand-awareness''\<rparr>"

text \<open>
  A premium scenario for the prompt generation: the provider answers every request
  with a JSON array of ten numbers, which \<^verbatim>\<open>JSON.parse\<close> reads as such.
\<close>

definition numbers_answer :: string where
  "numbers_answer = ''[1,2,3,4,5,6,7,8,9,10]''"

definition numbers_env :: env where
  "numbers_env =
     failing_env
       \<lparr>gemini := (\<lambda>n p. Inr (Inr numbers_answer)),
        JSON_parse := (\<lambda>s. if s = numbers_answer
                             then Some (JArr [JNum 1, JNum 2, JNum 3, JNum 4, JNum 5,
                                              JNum 6, JNum 7, JNum 8, JNum 9, JNum 10])
                             else None)\<rparr>"

text \<open>
  Worlds of the health checks: no request sent so far; every key configured and every
  probe answered; a cache with two unhealthy entries.
\<close>

definition idle :: probe_world where
  "idle = \<lparr>requests = [], waits = []\<rparr>"

definition reachable_env :: health_env where
  "reachable_env =
     \<lparr>GEMINI_API_KEY = True, HUGGINGFACE_API_KEY = True, OPENROUTER_KEY = True,
      gemini_probe = (\<lambda>n m p. Inr ''OK''),
      huggingface_post = (\<lambda>n ep p. Inr ''OK''),
      openrouter_post = (\<lambda>n m p. Inr ''OK''),
      Date_now = (\<lambda>n. 100 * n)\<rparr>"

definition stale_cache :: healthStatus where
  "stale_cache =
     \<lparr>lastChecked = Some 0,
      models = [(''openrouterMistral'', unhealthy ''Request failed with status code 429''),
                (''huggingfaceGemma'', deprecated_entry)]\<rparr>"

section \<open>Properties of the response analyzer\<close>

lemma set_map_filter: "y \<in> set (List.map_filter f xs) \<longleftrightarrow> (\<exists>x \<in> set xs. f x = Some y)"
  by (induction xs) (auto simp: List.map_filter_simps split: option.splits)

lemma citation_of_match:
  "citation_of nd j = Some u \<Longrightarrow>
     j = JStr u \<and> (includesStr (normalizeDomain u) nd \<or> includesStr nd (normalizeDomain u))"
  by (auto simp: citation_of_def Let_def split: json.splits if_splits)

lemma find_mentions_object_citations:
  assumes "find_mentions r nd p = Inr (cits, ment)" and "is_object p" and "u \<in> set cits"
  shows "includesStr (normalizeDomain u) nd \<or> includesStr nd (normalizeDomain u)"
  using assms
  by (auto simp: find_mentions_def Let_def set_map_filter dest!: citation_of_match
           split: option.splits json.splits if_splits)

lemma find_mentions_text:
  assumes "\<not> is_object p"
  shows "find_mentions r nd p =
           Inr (filter (\<lambda>u. includesStr (normalizeDomain u) nd) (match_urls 0 r),
                list_ex (includesStr (toLowerCase r)) (domainVariants nd))"
  using assms by (simp add: find_mentions_def Let_def)

lemma analyzeResponse_Inr:
  "analyzeResponse r d p = Inr res \<Longrightarrow>
     \<exists>cits ment. find_mentions r (normalizeDomain d) p = Inr (cits, ment)
       \<and> res = \<lparr>mentioned = ment, score = js_round (fst (scoring r (normalizeDomain d) cits ment)),
                citations = cits, confidence = snd (scoring r (normalizeDomain d) cits ment)\<rparr>"
  by (auto simp: analyzeResponse_def Let_def split: sum.splits prod.splits)

lemma js_round_values: "js_round 3 = 3" "js_round 2 = 2" "js_round (5 / 2) = 3" "js_round 0 = 0"
  by (simp_all add: js_round_def floor_eq_iff)

lemma find_mentions_mentioned:
  assumes "find_mentions r nd p = Inr (cits, ment)"
  shows "ment =
     (if is_object p
      then get_field p ''mentionsDomain'' = Some (JBool True)
           \<or> (\<exists>s. s \<noteq> [] \<and> get_field p ''description'' = Some (JStr s)
                  \<and> list_ex (includesStr (toLowerCase s)) (domainVariants nd))
      else list_ex (includesStr (toLowerCase r)) (domainVariants nd))"
proof (cases "is_object p")
  case False
  with assms show ?thesis by (simp add: find_mentions_text)
next
  case True
  show ?thesis
  proof (cases "get_field p ''description''")
    case None
    with True assms show ?thesis by (auto simp: find_mentions_def Let_def)
  next
    case (Some dsc)
    with True assms show ?thesis
      by (cases dsc) (auto simp: find_mentions_def Let_def split: if_splits)
  qed
qed

text \<open>
  Claim C1, as the code has it. The domain counts as mentioned when, for a parsed
  object, the \<^verbatim>\<open>mentionsDomain\<close> flag is \<^verbatim>\<open>true\<close> or one of the four spellings
  of the domain occurs in the description, and for any other response when one of
  them occurs in the text. When the domain is mentioned and no citation matches it,
  \<^verbatim>\<open>analyzeResponse\<close> returns the confidence \<^verbatim>\<open>medium\<close> and an integer score:
  3 when the normalized domain occurs in the first sentence of the response (the text
  before the first \<^verbatim>\<open>.\<close>, \<^verbatim>\<open>!\<close> or \<^verbatim>\<open>?\<close>), and 2 otherwise. The half point 2.5
  exists only before \<^verbatim>\<open>Math.round\<close>, which \<^verbatim>\<open>analyzeResponse\<close> applies to the
  score it returns.
\<close>

theorem analyzeResponse_mention_score:
  assumes "analyzeResponse r d p = Inr res" and "citations res = []"
  shows "mentioned res =
           (if is_object p
            then get_field p ''mentionsDomain'' = Some (JBool True)
                 \<or> (\<exists>s. s \<noteq> [] \<and> get_field p ''description'' = Some (JStr s)
                        \<and> list_ex (includesStr (toLowerCase s)) (domainVariants (normalizeDomain d)))
            else list_ex (includesStr (toLowerCase r)) (domainVariants (normalizeDomain d)))
         \<and> (mentioned res \<longrightarrow>
               confidence res = Medium
               \<and> score res = (if includesStr (toLowerCase (firstSentence r)) (normalizeDomain d)
                              then 3 else 2))"
proof -
  from assms(1) obtain cits ment
    where fm: "find_mentions r (normalizeDomain d) p = Inr (cits, ment)"
      and res: "mentioned res = ment"
    by (auto dest!: analyzeResponse_Inr)
  from find_mentions_mentioned [OF fm] res
  have m: "mentioned res =
           (if is_object p
            then get_field p ''mentionsDomain'' = Some (JBool True)
                 \<or> (\<exists>s. s \<noteq> [] \<and> get_field p ''description'' = Some (JStr s)
                        \<and> list_ex (includesStr (toLowerCase s)) (domainVariants (normalizeDomain d)))
            else list_ex (includesStr (toLowerCase r)) (domainVariants (normalizeDomain d)))"
    by simp
  from assms have s: "mentioned res \<longrightarrow>
           confidence res = Medium
           \<and> score res = (if includesStr (toLowerCase (firstSentence r)) (normalizeDomain d)
                          then 3 else 2)"
    by (auto dest!: analyzeResponse_Inr simp: scoring_def js_round_values)
  from m s show ?thesis by (rule conjI)
qed

theorem analyzeResponse_mention_score_witness:
  "analyzeResponse ''Example.com is a reference domain.'' ''example.com''
     (JObj [(''description'', JStr ''Example.com is a reference domain.''),
            (''citations'', JArr []), (''mentionsDomain'', JBool True)])
   = Inr \<lparr>mentioned = True, score = 2, citations = [], confidence = Medium\<rparr>
   \<and> \<not> includesStr (toLowerCase (firstSentence ''Example.com is a reference domain.''))
          (normalizeDomain ''example.com'')"
proof -
  let ?res = "\<lparr>mentioned = True, score = 2, citations = [], confidence = Medium\<rparr>"
  have h: "analyzeResponse ''Example.com is a reference domain.'' ''example.com''
     (JObj [(''description'', JStr ''Example.com is a reference domain.''),
            (''citations'', JArr []), (''mentionsDomain'', JBool True)]) = Inr ?res"
    by code_simp
  have c: "citations ?res = []" by simp
  from analyzeResponse_mention_score [OF h c] show ?thesis
    using h by (simp split: if_splits)
qed

text \<open>
  Claim C1 as stated fails: for the domain \<^verbatim>\<open>localhost\<close> and the unparsed response
  \<^verbatim>\<open>localhost rocks\<close> the domain is mentioned in the first sentence, no citation
  exists, and the score returned is 3, which is neither 2 nor 2.5.
\<close>

theorem analyzeResponse_half_point_counterexample:
  "analyzeResponse ''localhost rocks'' ''localhost'' JNull =
     Inr \<lparr>mentioned = True, score = 3, citations = [], confidence = Medium\<rparr>"
  by code_simp

text \<open>
  The URL pattern on raw text: a match is a prefix of the text it starts in and
  consists of URL characters only, so a match that starts before a character that
  is no URL character ends before it. Hence a URL that stands between such
  characters (or at an end of the text) is extracted as it stands, and when it
  contains the domain the response is scored 3.
\<close>

lemma startsWith_take: "startsWith s p \<Longrightarrow> take (length p) s = p"
  by (induction s p rule: startsWith.induct) auto

lemma scheme_chars: "\<forall>c \<in> set ''https://''. url_char c" "\<forall>c \<in> set ''http://''. url_char c"
  by (simp_all add: url_char_def is_space_def)

lemma url_at_Some:
  assumes "url_at s = Some m"
  shows "take (length m) s = m \<and> (\<forall>c \<in> set m. url_char c) \<and> m \<noteq> []"
proof -
  have l8: "length ''https://'' = 8" and l7: "length ''http://'' = 7" by simp_all
  have "\<exists>scheme. (scheme = ''https://'' \<or> scheme = ''http://'') \<and> startsWith s scheme
          \<and> m = scheme @ takeWhile url_char (drop (length scheme) s)"
  proof (cases "startsWith s ''https://''")
    case True
    with assms have "m = ''https://'' @ takeWhile url_char (drop 8 s)"
      by (simp add: url_at_def Let_def split: if_splits)
    then have "m = ''https://'' @ takeWhile url_char (drop (length ''https://'') s)"
      unfolding l8 .
    with True show ?thesis by blast
  next
    case False
    with assms have sw: "startsWith s ''http://''"
      by (simp add: url_at_def Let_def split: if_splits)
    from sw False assms have "m = ''http://'' @ takeWhile url_char (drop 7 s)"
      by (simp add: url_at_def Let_def split: if_splits)
    then have "m = ''http://'' @ takeWhile url_char (drop (length ''http://'') s)"
      unfolding l7 .
    with sw show ?thesis by blast
  qed
  then obtain scheme where sc: "scheme = ''https://'' \<or> scheme = ''http://''"
    and sw: "startsWith s scheme"
    and m: "m = scheme @ takeWhile url_char (drop (length scheme) s)"
    by blast
  from sw have t: "take (length scheme) s = scheme" by (rule startsWith_take)
  define body where "body = takeWhile url_char (drop (length scheme) s)"
  have b: "take (length body) (drop (length scheme) s) = body"
    unfolding body_def by (rule takeWhile_eq_take [symmetric])
  have "take (length scheme + length body) s = scheme @ body"
    unfolding take_add t b ..
  with m have 1: "take (length m) s = m" by (simp add: body_def)
  have 2: "\<forall>c \<in> set m. url_char c"
    using sc m scheme_chars by (auto dest: set_takeWhileD)
  from sc m have 3: "m \<noteq> []" by auto
  from 1 2 3 show ?thesis by simp
qed

lemma url_at_within:
  assumes "url_at (p @ s) = Some m" and "p \<noteq> []" and "\<not> url_char (last p)"
  shows "length m \<le> length p"
proof (rule ccontr)
  assume "\<not> length m \<le> length p"
  then have lt: "length p < length m" by simp
  from url_at_Some [OF assms(1)] have tk: "take (length m) (p @ s) = m"
    and uc: "\<forall>c \<in> set m. url_char c" by simp_all
  from assms(2) have i: "length p - 1 < length p" by (cases p) auto
  with lt have "m ! (length p - 1) = (p @ s) ! (length p - 1)"
    by (metis tk less_trans nth_take)
  also from i have "\<dots> = p ! (length p - 1)" by (simp add: nth_append)
  also from assms(2) have "\<dots> = last p" by (simp add: last_conv_nth)
  finally have "last p \<in> set m" using i lt by (metis less_trans nth_mem)
  with uc assms(3) show False by blast
qed

lemma match_urls_append:
  "k \<le> length pre \<Longrightarrow> pre = [] \<or> \<not> url_char (last pre) \<Longrightarrow>
     \<exists>ms. match_urls k (pre @ s) = ms @ match_urls 0 s"
proof (induction pre arbitrary: k)
  case Nil
  then show ?case by simp
next
  case (Cons c cs)
  from Cons.prems(2) have tail: "cs = [] \<or> \<not> url_char (last cs)" by (cases cs) auto
  show ?case
  proof (cases k)
    case (Suc k')
    with Cons.prems(1) have "k' \<le> length cs" by simp
    from Cons.IH [OF this tail] Suc show ?thesis by simp
  next
    case 0
    show ?thesis
    proof (cases "url_at ((c # cs) @ s)")
      case None
      from Cons.IH [of 0, OF _ tail] obtain ms where "match_urls 0 (cs @ s) = ms @ match_urls 0 s"
        by auto
      with None 0 show ?thesis by simp
    next
      case (Some m)
      from Cons.prems(2) have "\<not> url_char (last (c # cs))" by simp
      from url_at_within [OF Some _ this] have "length m - 1 \<le> length cs" by simp
      from Cons.IH [OF this tail] obtain ms
        where "match_urls (length m - 1) (cs @ s) = ms @ match_urls 0 s" by auto
      with Some 0 show ?thesis by (intro exI [of _ "m # ms"]) simp
    qed
  qed
qed

lemma url_at_exact:
  assumes "scheme = ''https://'' \<or> scheme = ''http://''"
    and "body \<noteq> []" and "\<forall>c \<in> set body. url_char c"
    and "post = [] \<or> \<not> url_char (hd post)"
  shows "url_at (scheme @ body @ post) = Some (scheme @ body)"
proof -
  have tw: "takeWhile url_char (body @ post) = body"
    using assms(3,4) by (cases post) (auto simp: takeWhile_append2 intro: takeWhile_eq_all_conv [THEN iffD2])
  from assms(1) show ?thesis
  proof
    assume "scheme = ''https://''"
    then show ?thesis using tw assms(2) by (simp add: url_at_def)
  next
    assume "scheme = ''http://''"
    then show ?thesis using tw assms(2) by (simp add: url_at_def)
  qed
qed

lemma match_urls_finds:
  assumes "pre = [] \<or> \<not> url_char (last pre)"
    and "scheme = ''https://'' \<or> scheme = ''http://''"
    and "body \<noteq> []" and "\<forall>c \<in> set body. url_char c"
    and "post = [] \<or> \<not> url_char (hd post)"
  shows "scheme @ body \<in> set (match_urls 0 (pre @ scheme @ body @ post))"
proof -
  from match_urls_append [of 0 pre "scheme @ body @ post", OF _ assms(1)]
  obtain ms where ms: "match_urls 0 (pre @ scheme @ body @ post) = ms @ match_urls 0 (scheme @ body @ post)"
    by auto
  from assms(2) obtain c cs where s: "scheme @ body @ post = c # cs" by (cases "scheme @ body @ post") auto
  from url_at_exact [OF assms(2-5)] s
  have "match_urls 0 (scheme @ body @ post) = (scheme @ body) # match_urls (length (scheme @ body) - 1) cs"
    by simp
  with ms show ?thesis by simp
qed

lemma analyzeResponse_delimited_url:
  assumes "\<not> is_object p"
    and "pre = [] \<or> \<not> url_char (last pre)"
    and "scheme = ''https://'' \<or> scheme = ''http://''"
    and "body \<noteq> []" and "\<forall>c \<in> set body. url_char c"
    and "post = [] \<or> \<not> url_char (hd post)"
    and "includesStr (normalizeDomain (scheme @ body)) (normalizeDomain d)"
  shows "\<exists>res. analyzeResponse (pre @ scheme @ body @ post) d p = Inr res
           \<and> scheme @ body \<in> set (citations res) \<and> score res = 3 \<and> confidence res = High"
proof -
  let ?r = "pre @ scheme @ body @ post"
  let ?cits = "filter (\<lambda>u. includesStr (normalizeDomain u) (normalizeDomain d)) (match_urls 0 ?r)"
  from match_urls_finds [OF assms(2-6)] assms(7) have mem: "scheme @ body \<in> set ?cits" by simp
  then have ne: "length ?cits > 0" by (cases ?cits) auto
  from assms(1) have fm: "find_mentions ?r (normalizeDomain d) p =
      Inr (?cits, list_ex (includesStr (toLowerCase ?r)) (domainVariants (normalizeDomain d)))"
    by (simp add: find_mentions_text)
  show ?thesis
    using mem ne by (simp add: analyzeResponse_def fm scoring_def js_round_values Let_def)
qed

text \<open>
  Claim C6. Whenever the citations that \<^verbatim>\<open>analyzeResponse\<close> returns are not empty,
  the score is 3 and the confidence is \<^verbatim>\<open>high\<close>. This covers the unparsed response:
  when the parsed value is no object and one of the URLs that the pattern extracts
  from the text contains the normalized target domain in its normalized form, the
  call returns, the URL is among the citations, the score is 3 and the confidence is
  \<^verbatim>\<open>high\<close>.
\<close>

theorem analyzeResponse_citation_score:
  "(analyzeResponse r d p = Inr res \<and> citations res \<noteq> [] \<longrightarrow> score res = 3 \<and> confidence res = High)
   \<and> (\<not> is_object p \<and> u \<in> set (match_urls 0 r)
        \<and> includesStr (normalizeDomain u) (normalizeDomain d)
        \<longrightarrow> (\<exists>res'. analyzeResponse r d p = Inr res' \<and> u \<in> set (citations res')
               \<and> score res' = 3 \<and> confidence res' = High))"
proof (rule conjI; rule impI)
  assume "analyzeResponse r d p = Inr res \<and> citations res \<noteq> []"
  then show "score res = 3 \<and> confidence res = High"
    by (auto dest!: analyzeResponse_Inr simp: scoring_def js_round_values)
next
  assume a: "\<not> is_object p \<and> u \<in> set (match_urls 0 r)
             \<and> includesStr (normalizeDomain u) (normalizeDomain d)"
  let ?cits = "filter (\<lambda>u. includesStr (normalizeDomain u) (normalizeDomain d)) (match_urls 0 r)"
  from a have mem: "u \<in> set ?cits" by simp
  then have ne: "length ?cits > 0" by (cases ?cits) auto
  from a have fm: "find_mentions r (normalizeDomain d) p =
      Inr (?cits, list_ex (includesStr (toLowerCase r)) (domainVariants (normalizeDomain d)))"
    by (simp add: find_mentions_text)
  show "\<exists>res'. analyzeResponse r d p = Inr res' \<and> u \<in> set (citations res')
               \<and> score res' = 3 \<and> confidence res' = High"
    using mem ne by (simp add: analyzeResponse_def fm scoring_def js_round_values Let_def)
qed

theorem analyzeResponse_citation_score_witness:
  "analyzeResponse ''Visit https://example.com/about today'' ''example.com'' JNull
     = Inr \<lparr>mentioned = True, score = 3, citations = [''https://example.com/about''],
            confidence = High\<rparr>
   \<and> ''https://example.com/about'' \<in> set (match_urls 0 ''Visit https://example.com/about today'')
   \<and> includesStr (normalizeDomain ''https://example.com/about'') (normalizeDomain ''example.com'')"
proof -
  let ?res = "\<lparr>mentioned = True, score = 3, citations = [''https://example.com/about''],
               confidence = High\<rparr>"
  have h: "analyzeResponse ''Visit https://example.com/about today'' ''example.com'' JNull = Inr ?res"
    by code_simp
  have m: "''https://example.com/about'' \<in> set (match_urls 0 ''Visit https://example.com/about today'')"
    by code_simp
  have i: "includesStr (normalizeDomain ''https://example.com/about'') (normalizeDomain ''example.com'')"
    by code_simp
  from analyzeResponse_citation_score
         [of "''Visit https://example.com/about today''" "''example.com''" JNull ?res
             "''https://example.com/about''"]
  show ?thesis using h m i by simp
qed

text \<open>
  Claim C10. Every citation that \<^verbatim>\<open>analyzeResponse\<close> returns matches the target
  domain: its normalized form contains the normalized target domain or is contained
  in it. For a response that is not a parsed object, the citation is one of the URLs
  extracted from the text and its normalized form contains the normalized target
  domain.
\<close>

theorem analyzeResponse_citations_match:
  assumes "analyzeResponse r d p = Inr res" and "u \<in> set (citations res)"
  shows "(includesStr (normalizeDomain u) (normalizeDomain d)
            \<or> includesStr (normalizeDomain d) (normalizeDomain u))
         \<and> (\<not> is_object p \<longrightarrow>
              u \<in> set (match_urls 0 r) \<and> includesStr (normalizeDomain u) (normalizeDomain d))"
proof -
  from assms(1) obtain cits ment
    where fm: "find_mentions r (normalizeDomain d) p = Inr (cits, ment)"
      and res: "citations res = cits"
    by (auto dest!: analyzeResponse_Inr)
  show ?thesis
  proof (cases "is_object p")
    case True
    with fm assms(2) res show ?thesis by (auto dest: find_mentions_object_citations)
  next
    case False
    with fm have "cits = filter (\<lambda>u. includesStr (normalizeDomain u) (normalizeDomain d))
                           (match_urls 0 r)"
      by (simp add: find_mentions_text)
    with assms(2) res
    have "u \<in> set (match_urls 0 r) \<and> includesStr (normalizeDomain u) (normalizeDomain d)"
      by simp
    then show ?thesis by simp
  qed
qed

theorem analyzeResponse_citations_match_witness:
  "analyzeResponse ''See http://docs.example.com/start and http://other.org/'' ''example.com'' (JStr ''x'')
     = Inr \<lparr>mentioned = True, score = 3, citations = [''http://docs.example.com/start''],
            confidence = High\<rparr>
   \<and> ''http://docs.example.com/start''
       \<in> set (match_urls 0 ''See http://docs.example.com/start and http://other.org/'')
   \<and> includesStr (normalizeDomain ''http://docs.example.com/start'') (normalizeDomain ''example.com'')"
proof -
  let ?res = "\<lparr>mentioned = True, score = 3, citations = [''http://docs.example.com/start''],
               confidence = High\<rparr>"
  have h: "analyzeResponse ''See http://docs.example.com/start and http://other.org/''
             ''example.com'' (JStr ''x'') = Inr ?res"
    by code_simp
  have u: "''http://docs.example.com/start'' \<in> set (citations ?res)" by simp
  from analyzeResponse_citations_match [OF h u] show ?thesis using h by simp
qed

section \<open>Properties of the run\<close>

lemma scoring_round: "js_round (fst (scoring r nd c m)) \<in> {0, 2, 3}"
  by (simp add: scoring_def js_round_values)

lemma analyzeResponse_score_range:
  "analyzeResponse r d p = Inr a \<Longrightarrow> score a \<in> {0, 2, 3}"
proof -
  assume "analyzeResponse r d p = Inr a"
  then obtain cits ment
    where "score a = js_round (fst (scoring r (normalizeDomain d) cits ment))"
    by (auto dest!: analyzeResponse_Inr)
  with scoring_round [of r "normalizeDomain d" cits ment] show ?thesis by simp
qed

lemma prompt_body_entry:
  assumes "prompt_body env d b t prem pt w = (Inr dt, tk, w')"
  shows "d_score dt \<in> {0, 2, 3} \<and> error dt = None \<and> promptId dt = prompt_id pt"
  using assms
  by (auto simp: prompt_body_def Let_def dest: analyzeResponse_score_range
           split: json.splits prod.splits sum.splits option.splits if_splits)

lemma error_entry_fields:
  "d_score (error_entry pt e) = 0" "error (error_entry pt e) = Some (message e)"
  "promptId (error_entry pt e) = prompt_id pt"
  by (simp_all add: error_entry_def)

lemma run_prompts_append:
  "\<exists>new. fst (run_prompts env d b t prem pts (res, tot, tok, w)) = res @ new
     \<and> fst (snd (run_prompts env d b t prem pts (res, tot, tok, w))) = tot + sum_list (map d_score new)
     \<and> map promptId new = map prompt_id pts
     \<and> (\<forall>x \<in> set new. d_score x \<in> {0, 2, 3} \<and> (error x \<noteq> None \<longrightarrow> d_score x = 0))"
proof (induction pts arbitrary: res tot tok w)
  case Nil
  then show ?case by simp
next
  case (Cons pt pts)
  obtain r tk w' where pb: "prompt_body env d b t prem pt w = (r, tk, w')"
    by (cases "prompt_body env d b t prem pt w") auto
  show ?case
  proof (cases r)
    case (Inl e)
    from Cons.IH[of "res @ [error_entry pt e]" tot "tok + tk" w']
    obtain new where n: "fst (run_prompts env d b t prem pts (res @ [error_entry pt e], tot, tok + tk, w')) = (res @ [error_entry pt e]) @ new"
      "fst (snd (run_prompts env d b t prem pts (res @ [error_entry pt e], tot, tok + tk, w'))) = tot + sum_list (map d_score new)"
      "map promptId new = map prompt_id pts"
      "\<forall>x \<in> set new. d_score x \<in> {0, 2, 3} \<and> (error x \<noteq> None \<longrightarrow> d_score x = 0)" by blast
    show ?thesis
      by (rule exI[of _ "error_entry pt e # new"]) (use n pb Inl in \<open>simp add: error_entry_fields\<close>)
  next
    case (Inr dt)
    from pb Inr have e: "d_score dt \<in> {0, 2, 3} \<and> error dt = None \<and> promptId dt = prompt_id pt"
      by (auto dest: prompt_body_entry)
    from Cons.IH[of "res @ [dt]" "tot + d_score dt" "tok + tk" w']
    obtain new where n: "fst (run_prompts env d b t prem pts (res @ [dt], tot + d_score dt, tok + tk, w')) = (res @ [dt]) @ new"
      "fst (snd (run_prompts env d b t prem pts (res @ [dt], tot + d_score dt, tok + tk, w'))) = tot + d_score dt + sum_list (map d_score new)"
      "map promptId new = map prompt_id pts"
      "\<forall>x \<in> set new. d_score x \<in> {0, 2, 3} \<and> (error x \<noteq> None \<longrightarrow> d_score x = 0)" by blast
    show ?thesis
      by (rule exI[of _ "dt # new"]) (use n pb Inr e in \<open>simp\<close>)
  qed
qed

lemma getDefaultPrompts_length: "length (getDefaultPrompts b i) = 10"
  by (simp add: getDefaultPrompts_def Let_def)

lemma prompts_from_text_length: "length (prompts_from_text env info text) = 10"
  by (simp add: prompts_from_text_def Let_def getDefaultPrompts_length
           split: option.splits json.splits)

lemma generateBusinessPrompts_length: "length (fst (generateBusinessPrompts env info w)) = 10"
  by (simp add: generateBusinessPrompts_def try_generate_def getDefaultPrompts_length
                prompts_from_text_length split: prod.splits sum.splits)

lemma select_prompts_length:
  "length (fst (select_prompts env u b t prem info w)) = (if prem \<and> info \<noteq> None then 10 else 3)"
proof (cases info)
  case None
  then show ?thesis by (simp add: select_prompts_def PROMPT_TEMPLATES_def)
next
  case (Some bi)
  show ?thesis
  proof (cases prem)
    case True
    obtain ps w' where g: "generateBusinessPrompts env
                     \<lparr>brandName = or_else (brandName bi) b,
                      industry = or_else (industry bi) t,
                      brandSummary = or_else (brandSummary bi) [],
                      url = u\<rparr> w = (ps, w')" by (cases "generateBusinessPrompts env
                     \<lparr>brandName = or_else (brandName bi) b,
                      industry = or_else (industry bi) t,
                      brandSummary = or_else (brandSummary bi) [],
                      url = u\<rparr> w") auto
    with generateBusinessPrompts_length[of env "\<lparr>brandName = or_else (brandName bi) b,
                      industry = or_else (industry bi) t,
                      brandSummary = or_else (brandSummary bi) [],
                      url = u\<rparr>" w] have "length ps = 10" by simp
    with Some True g show ?thesis by (simp add: select_prompts_def)
  next
    case False
    with Some show ?thesis by (simp add: select_prompts_def PROMPT_TEMPLATES_def)
  qed
qed

lemma map_enumerate_fst: "map fst (enumerate n xs) = [n..<n + length xs]"
  by (simp add: enumerate_eq_zip)

lemma generateBusinessPrompts_error:
  assumes "\<And>text. gemini env (gemini_calls w) (generation_prompt info) \<noteq> Inr (Inr text)"
  shows "fst (generateBusinessPrompts env info w) = map JStr (getDefaultPrompts (brandName info) (industry info))"
  using assms
  by (auto simp: generateBusinessPrompts_def try_generate_def call_gemini_def split: sum.splits)

lemma select_prompts_custom:
  "fst (select_prompts env u b t True (Some bi) w) =
     map (\<lambda>(index, p). \<lparr>prompt_id = ''custom-'' @ show_nat (index + 1), template = p, category = ''custom''\<rparr>)
       (enumerate 0 (fst (generateBusinessPrompts env
          \<lparr>brandName = or_else (brandName bi) b, industry = or_else (industry bi) t,
           brandSummary = or_else (brandSummary bi) [], url = u\<rparr> w)))"
  by (simp add: select_prompts_def split: prod.splits)

lemma js_round_percentage_bounds:
  assumes "0 \<le> t" and "t \<le> m" and "0 < m"
  shows "0 \<le> js_round (of_int t / of_int m * 100) \<and> js_round (of_int t / of_int m * 100) \<le> 100"
proof -
  have q0: "(0::rat) \<le> of_int t / of_int m" using assms by simp
  have q1: "(of_int t / of_int m :: rat) \<le> 1" using assms by simp
  have "(0::rat) \<le> of_int t / of_int m * 100 + 1 / 2" using q0 by simp
  then have lo: "0 \<le> js_round (of_int t / of_int m * 100)"
    unfolding js_round_def by simp
  have "(of_int t / of_int m * 100 + 1 / 2 :: rat) < of_int (101::int)" using q1 by simp
  then have "js_round (of_int t / of_int m * 100) < 101"
    unfolding js_round_def by (simp only: floor_less_iff)
  with lo show ?thesis by simp
qed

lemma sum_scores_bounds:
  "\<forall>x \<in> set xs. d_score x \<in> {0, 2, 3} \<Longrightarrow>
     0 \<le> sum_list (map d_score xs) \<and> sum_list (map d_score xs) \<le> 3 * int (length xs)"
  by (induction xs) auto

text \<open>
  Claim C5. The prompt set of a run is never empty, and the report satisfies:
  \<^verbatim>\<open>totalScore\<close> is the sum of the integer scores of the entries of \<^verbatim>\<open>details\<close>,
  \<^verbatim>\<open>maxScore\<close> is three times the number of prompts, \<^verbatim>\<open>totalScore\<close> lies
  between 0 and \<^verbatim>\<open>maxScore\<close>, and \<^verbatim>\<open>percentage\<close> is
  \<^verbatim>\<open>round(totalScore / maxScore * 100)\<close>, a number from 0 to 100. In general the
  percentage of any total with \<open>0 \<le> total \<le> maxScore\<close> and \<open>0 < maxScore\<close> lies in
  that range. The division is taken exactly.
\<close>

theorem report_totals:
  "(let rep = fst (analyzeLLMVisibility env u prem info w)
    in details rep \<noteq> []
     \<and> totalScore rep = sum_list (map d_score (details rep))
     \<and> maxScore rep = int (length (details rep)) * 3
     \<and> 0 \<le> totalScore rep \<and> totalScore rep \<le> maxScore rep
     \<and> (\<exists>pc. percentage rep = Some pc
           \<and> pc = js_round (of_int (totalScore rep) / of_int (maxScore rep) * 100)
           \<and> 0 \<le> pc \<and> pc \<le> 100))
   \<and> (0 \<le> t \<and> t \<le> m \<and> 0 < m \<longrightarrow>
        (\<exists>pc. percentage_of t m = Some pc \<and> pc = js_round (of_int t / of_int m * 100)
              \<and> 0 \<le> pc \<and> pc \<le> 100))"
proof (rule conjI)
  let ?d = "extractDomain env u"
  let ?b = "extractBrand ?d"
  let ?t = "guessTopic ?b"
  obtain pts w1 where sp: "select_prompts env u ?b ?t prem info w = (pts, w1)"
    by (cases "select_prompts env u ?b ?t prem info w") auto
  with select_prompts_length[of env u ?b ?t prem info w] have len: "length pts > 0"
    by (simp split: if_splits)
  obtain res tot tok w2 where rp: "run_prompts env ?d ?b ?t prem pts ([], 0, 0, w1) = (res, tot, tok, w2)"
    by (cases "run_prompts env ?d ?b ?t prem pts ([], 0, 0, w1)") auto
  from run_prompts_append[of env ?d ?b ?t prem pts "[]" 0 0 w1] rp
  have tot: "tot = sum_list (map d_score res)" and ids: "map promptId res = map prompt_id pts"
    and rng: "\<forall>x \<in> set res. d_score x \<in> {0, 2, 3}" by auto
  from ids have lr: "length res = length pts" by (metis length_map)
  from sum_scores_bounds[OF rng] tot lr have b: "0 \<le> tot" "tot \<le> int (length pts) * 3" by simp_all
  have m: "0 < int (length pts) * 3" using len by simp
  have rne: "res \<noteq> []" using lr len by auto
  have rep: "fst (analyzeLLMVisibility env u prem info w) =
      \<lparr>totalScore = tot, maxScore = int (length pts) * 3,
       percentage = percentage_of tot (int (length pts) * 3), details = res, isPremium = prem,
       meta_totalTokens = tok, meta_estimatedCost = of_nat tok / 1000 * (5 / 10000),
       meta_promptsUsed = length pts, meta_multiLLMEnabled = prem\<rparr>"
    by (simp add: analyzeLLMVisibility_def Let_def sp rp)
  from js_round_percentage_bounds[OF b(1) b(2) m] m
  show "let rep = fst (analyzeLLMVisibility env u prem info w)
    in details rep \<noteq> []
     \<and> totalScore rep = sum_list (map d_score (details rep))
     \<and> maxScore rep = int (length (details rep)) * 3
     \<and> 0 \<le> totalScore rep \<and> totalScore rep \<le> maxScore rep
     \<and> (\<exists>pc. percentage rep = Some pc
           \<and> pc = js_round (of_int (totalScore rep) / of_int (maxScore rep) * 100)
           \<and> 0 \<le> pc \<and> pc \<le> 100)"
    using tot lr len b rne by (simp add: rep Let_def percentage_of_def)
next
  show "0 \<le> t \<and> t \<le> m \<and> 0 < m \<longrightarrow>
        (\<exists>pc. percentage_of t m = Some pc \<and> pc = js_round (of_int t / of_int m * 100)
              \<and> 0 \<le> pc \<and> pc \<le> 100)"
    using js_round_percentage_bounds[of t m] by (auto simp: percentage_of_def)
qed

theorem report_totals_witness:
  "percentage_of 7 9 = Some 78
   \<and> details (fst (analyzeLLMVisibility failing_env ''https://www.example.com/'' False None w0)) \<noteq> []"
proof -
  have r: "js_round (of_int 7 / of_int 9 * 100) = 78"
    by (simp add: js_round_def floor_eq_iff)
  from report_totals [of failing_env "''https://www.example.com/''" False None w0 7 9]
  show ?thesis using r by (auto simp: Let_def)
qed

lemma run_prompts_Cons:
  "prompt_body env d b t prem pt w = (r, tk, w') \<Longrightarrow>
   run_prompts env d b t prem (pt # pts) (res, tot, tok, w) =
   run_prompts env d b t prem pts (res @ [entry_of pt r], tot + d_score (entry_of pt r), tok + tk, w')"
  by (cases r) (simp_all add: entry_of_def error_entry_def)

lemma run_prompts_entries:
  assumes "\<And>pt w r tk w'. pt \<in> set pts \<Longrightarrow> prompt_body env d b t prem pt w = (r, tk, w') \<Longrightarrow> Q pt (entry_of pt r)"
  shows "\<exists>new. fst (run_prompts env d b t prem pts (res, tot, tok, w)) = res @ new
     \<and> fst (snd (run_prompts env d b t prem pts (res, tot, tok, w))) = tot + sum_list (map d_score new)
     \<and> list_all2 Q pts new"
  using assms
proof (induction pts arbitrary: res tot tok w)
  case Nil
  then show ?case by simp
next
  case (Cons pt pts)
  obtain r tk w' where pb: "prompt_body env d b t prem pt w = (r, tk, w')"
    by (cases "prompt_body env d b t prem pt w") auto
  have q: "Q pt (entry_of pt r)" using Cons.prems[OF _ pb] by simp
  have "\<exists>new. fst (run_prompts env d b t prem pts (res @ [entry_of pt r], tot + d_score (entry_of pt r), tok + tk, w')) = (res @ [entry_of pt r]) @ new
     \<and> fst (snd (run_prompts env d b t prem pts (res @ [entry_of pt r], tot + d_score (entry_of pt r), tok + tk, w'))) = tot + d_score (entry_of pt r) + sum_list (map d_score new)
     \<and> list_all2 Q pts new"
    by (rule Cons.IH) (use Cons.prems in auto)
  then obtain new where n:
    "fst (run_prompts env d b t prem pts (res @ [entry_of pt r], tot + d_score (entry_of pt r), tok + tk, w')) = (res @ [entry_of pt r]) @ new"
    "fst (snd (run_prompts env d b t prem pts (res @ [entry_of pt r], tot + d_score (entry_of pt r), tok + tk, w'))) = tot + d_score (entry_of pt r) + sum_list (map d_score new)"
    "list_all2 Q pts new" by blast
  show ?case
    by (rule exI[of _ "entry_of pt r # new"]) (use n q in \<open>simp del: run_prompts.simps add: run_prompts_Cons[OF pb]\<close>)
qed


lemma generate_with_retry_success:
  assumes "gemini env (gemini_calls w) q = Inl e1" and "is503Error e1"
    and "gemini env (gemini_calls w + 1) q = Inl e2" and "is503Error e2"
    and "gemini env (gemini_calls w + 2) q = Inr r"
  shows "generate_with_retry env q 0 None w =
           (Inr r, w\<lparr>gemini_calls := gemini_calls w + 3, slept := slept w @ [1000, 2000]\<rparr>)"
  using assms
  by (simp add: generate_with_retry.simps [of env q] maxRetries_def baseDelay_def call_gemini_def sleep_def)

lemma generate_with_retry_calls:
  "attempt < maxRetries \<Longrightarrow>
     gemini_calls w < gemini_calls (snd (generate_with_retry env q attempt le w))
     \<and> gemini_calls (snd (generate_with_retry env q attempt le w)) \<le> gemini_calls w + (maxRetries - attempt)"
proof (induction env q attempt le w rule: generate_with_retry.induct)
  case (1 env fullPrompt attempt lastError w)
  show ?case
  proof (cases "gemini env (gemini_calls w) fullPrompt")
    case (Inr r)
    with 1 show ?thesis
      by (simp add: generate_with_retry.simps [of env fullPrompt attempt] call_gemini_def)
  next
    case (Inl e)
    show ?thesis
    proof (cases "is503Error e \<and> attempt < maxRetries - 1")
      case False
      with Inl 1 show ?thesis
        by (auto simp add: generate_with_retry.simps [of env fullPrompt attempt] call_gemini_def)
    next
      case True
      let ?w' = "sleep (baseDelay * 2 ^ attempt) (w\<lparr>gemini_calls := gemini_calls w + 1\<rparr>)"
      from True have lt: "attempt + 1 < maxRetries" by (simp add: maxRetries_def)
      have ih: "gemini_calls ?w' < gemini_calls (snd (generate_with_retry env fullPrompt (attempt + 1) (Some e) ?w'))
     \<and> gemini_calls (snd (generate_with_retry env fullPrompt (attempt + 1) (Some e) ?w')) \<le> gemini_calls ?w' + (maxRetries - (attempt + 1))"
        using "1.IH"[of "Inl e" "w\<lparr>gemini_calls := gemini_calls w + 1\<rparr>" e] 1(2) Inl True lt
        by (simp add: call_gemini_def)
      have eq: "generate_with_retry env fullPrompt attempt lastError w = generate_with_retry env fullPrompt (attempt + 1) (Some e) ?w'"
        using Inl True 1(2) by (simp add: generate_with_retry.simps [of env fullPrompt attempt] call_gemini_def)
      show ?thesis using ih lt by (simp add: eq sleep_def) linarith
    qed
  qed
qed

lemma generate_with_retry_fails:
  "(\<And>n. \<exists>e. gemini env n q = Inl e) \<Longrightarrow>
     \<exists>e. fst (generate_with_retry env q attempt le w) = Inl e"
proof (induction env q attempt le w rule: generate_with_retry.induct)
  case (1 env fullPrompt attempt lastError w)
  show ?case
  proof (cases "attempt < maxRetries")
    case False
    then show ?thesis by (simp add: generate_with_retry.simps [of env fullPrompt attempt])
  next
    case True
    from "1.prems" obtain e where e: "gemini env (gemini_calls w) fullPrompt = Inl e" by blast
    show ?thesis
    proof (cases "is503Error e \<and> attempt < maxRetries - 1")
      case False
      with e True show ?thesis
        by (auto simp add: generate_with_retry.simps [of env fullPrompt attempt] call_gemini_def)
    next
      case c: True
      let ?w' = "sleep (baseDelay * 2 ^ attempt) (w\<lparr>gemini_calls := gemini_calls w + 1\<rparr>)"
      have ih: "\<exists>e'. fst (generate_with_retry env fullPrompt (attempt + 1) (Some e) ?w') = Inl e'"
        using "1.IH"[of "Inl e" "w\<lparr>gemini_calls := gemini_calls w + 1\<rparr>" e] True e c "1.prems"
        by (simp add: call_gemini_def)
      have eq: "generate_with_retry env fullPrompt attempt lastError w
                  = generate_with_retry env fullPrompt (attempt + 1) (Some e) ?w'"
        using e c True by (simp add: generate_with_retry.simps [of env fullPrompt attempt] call_gemini_def)
      show ?thesis using ih by (simp add: eq)
    qed
  qed
qed

lemma generate_with_retry_result:
  "fst (generate_with_retry env q attempt le w) = Inr r \<Longrightarrow> \<exists>n. gemini env n q = Inr r"
proof (induction env q attempt le w rule: generate_with_retry.induct)
  case (1 env fullPrompt attempt lastError w)
  show ?case
  proof (cases "attempt < maxRetries")
    case False
    with "1.prems" show ?thesis by (simp add: generate_with_retry.simps [of env fullPrompt attempt])
  next
    case True
    show ?thesis
    proof (cases "gemini env (gemini_calls w) fullPrompt")
      case (Inr r')
      with True "1.prems" have "r' = r"
        by (simp add: generate_with_retry.simps [of env fullPrompt attempt] call_gemini_def)
      with Inr show ?thesis by blast
    next
      case (Inl e)
      show ?thesis
      proof (cases "is503Error e \<and> attempt < maxRetries - 1")
        case False
        with Inl True "1.prems" show ?thesis
          by (auto simp add: generate_with_retry.simps [of env fullPrompt attempt] call_gemini_def)
      next
        case c: True
        let ?w' = "sleep (baseDelay * 2 ^ attempt) (w\<lparr>gemini_calls := gemini_calls w + 1\<rparr>)"
        have eq: "generate_with_retry env fullPrompt attempt lastError w
                    = generate_with_retry env fullPrompt (attempt + 1) (Some e) ?w'"
          using Inl c True by (simp add: generate_with_retry.simps [of env fullPrompt attempt] call_gemini_def)
        show ?thesis
          using "1.IH"[of "Inl e" "w\<lparr>gemini_calls := gemini_calls w + 1\<rparr>" e] True Inl c "1.prems"
          by (simp add: call_gemini_def eq)
      qed
    qed
  qed
qed

lemma single_model_analysis_fails:
  assumes "\<And>n p text. gemini env n p \<noteq> Inr (Inr text)"
  shows "\<exists>e. fst (single_model_analysis env p d w) = Inl e"
proof -
  obtain r w' where g: "generate_with_retry env (analysis_prompt d p) 0 None w = (r, w')"
    by (cases "generate_with_retry env (analysis_prompt d p) 0 None w") auto
  have "\<And>text. r \<noteq> Inr (Inr text)"
    using generate_with_retry_result[of env "analysis_prompt d p" 0 None w] g assms by auto
  then show ?thesis
    by (cases r) (auto simp: single_model_analysis_def Let_def g split: sum.splits)
qed

lemma analyzeWithGemini_fails:
  assumes "\<And>n p text. gemini env n p \<noteq> Inr (Inr text)"
  shows "\<exists>e. fst (analyzeWithGemini env p d w) = Inl e"
  using assms[of "gemini_calls w" "analysis_prompt d p"]
  by (auto simp: analyzeWithGemini_def call_gemini_def split: sum.splits)

lemma openrouter_models_fails:
  assumes "\<And>n m s u. \<exists>e. openrouter env n m s u = Inl e"
  shows "\<exists>e. fst (openrouter_models env sys usr ms w) = Inl e"
proof (induction ms arbitrary: w)
  case Nil
  then show ?case by simp
next
  case (Cons m ms)
  from assms obtain e where "openrouter env (openrouter_calls w) m sys usr = Inl e" by blast
  with Cons show ?case by (simp add: call_openrouter_def)
qed

lemma analyzeWithOpenRouter_fails:
  assumes "\<not> OPENROUTER_API_KEY env \<or> (\<forall>n m s u. \<exists>e. openrouter env n m s u = Inl e)"
  shows "fst (analyzeWithOpenRouter env p d pm w) = Inr JNull
         \<or> (\<exists>e. fst (analyzeWithOpenRouter env p d pm w) = Inl e)"
proof (cases "OPENROUTER_API_KEY env")
  case False
  then show ?thesis by (simp add: analyzeWithOpenRouter_def)
next
  case True
  with assms have a: "\<And>n m s u. \<exists>e. openrouter env n m s u = Inl e" by blast
  obtain r w' where om: "openrouter_models env (openrouter_system d)
                   (''Question about '' @ d @ '': '' @ p) (openrouter_candidates pm) w = (r, w')"
    by (cases "openrouter_models env (openrouter_system d)
                   (''Question about '' @ d @ '': '' @ p) (openrouter_candidates pm) w") auto
  with openrouter_models_fails[OF a, of "openrouter_system d"
         "''Question about '' @ d @ '': '' @ p" "openrouter_candidates pm" w]
  obtain e where "r = Inl e" by auto
  with om True show ?thesis by (simp add: analyzeWithOpenRouter_def)
qed

lemma settle_fails: "r = Inr JNull \<or> (\<exists>e. r = Inl e) \<Longrightarrow> fst (settle prov r errs) = JNull"
  by (auto simp: settle_def)

lemma analyzeWithMultipleLLMs_fails:
  assumes "\<And>n p text. gemini env n p \<noteq> Inr (Inr text)"
    and "\<not> OPENROUTER_API_KEY env \<or> (\<forall>n m s u. \<exists>e. openrouter env n m s u = Inl e)"
  shows "gemini_result (fst (analyzeWithMultipleLLMs env p d w)) = JNull
       \<and> openrouter1 (fst (analyzeWithMultipleLLMs env p d w)) = JNull
       \<and> openrouter2 (fst (analyzeWithMultipleLLMs env p d w)) = JNull"
proof -
  obtain r1 w1 where a1: "analyzeWithGemini env p d w = (r1, w1)" by (cases "analyzeWithGemini env p d w") auto
  obtain r2 w2 where a2: "analyzeWithOpenRouter env p d (Some ''openrouter/sherlock-dash-alpha'') w1 = (r2, w2)"
    by (cases "analyzeWithOpenRouter env p d (Some ''openrouter/sherlock-dash-alpha'') w1") auto
  obtain r3 w3 where a3: "analyzeWithOpenRouter env p d (Some ''mistralai/mistral-7b-instruct:free'') w2 = (r3, w3)"
    by (cases "analyzeWithOpenRouter env p d (Some ''mistralai/mistral-7b-instruct:free'') w2") auto
  from analyzeWithGemini_fails[OF assms(1), of p d w] a1 have f1: "\<exists>e. r1 = Inl e" by simp
  from analyzeWithOpenRouter_fails[OF assms(2), of p d "Some ''openrouter/sherlock-dash-alpha''" w1] a2 have f2: "r2 = Inr JNull \<or> (\<exists>e. r2 = Inl e)" by simp
  from analyzeWithOpenRouter_fails[OF assms(2), of p d "Some ''mistralai/mistral-7b-instruct:free''" w2] a3 have f3: "r3 = Inr JNull \<or> (\<exists>e. r3 = Inl e)" by simp
  from f1 have s1: "fst (settle ''gemini'' r1 []) = JNull" by (auto simp: settle_def)
  have s2: "\<And>errs. fst (settle ''openrouter1'' r2 errs) = JNull" using f2 by (rule settle_fails)
  have s3: "\<And>errs. fst (settle ''openrouter2'' r3 errs) = JNull" using f3 by (rule settle_fails)
  obtain g1 e1 where t1: "settle ''gemini'' r1 [] = (g1, e1)" by (cases "settle ''gemini'' r1 []") auto
  obtain g2 e2 where t2: "settle ''openrouter1'' r2 e1 = (g2, e2)" by (cases "settle ''openrouter1'' r2 e1") auto
  obtain g3 e3 where t3: "settle ''openrouter2'' r3 e2 = (g3, e3)" by (cases "settle ''openrouter2'' r3 e2") auto
  from s1 t1 have "g1 = JNull" by simp
  moreover from s2[of e1] t2 have "g2 = JNull" by simp
  moreover from s3[of e2] t3 have "g3 = JNull" by simp
  ultimately show ?thesis
    by (simp add: analyzeWithMultipleLLMs_def a1 a2 a3 t1 t2 t3 Let_def)
qed

lemma multi_model_analysis_fails:
  assumes "\<And>n p text. gemini env n p \<noteq> Inr (Inr text)"
    and "\<not> OPENROUTER_API_KEY env \<or> (\<forall>n m s u. \<exists>e. openrouter env n m s u = Inl e)"
  shows "\<exists>tk. fst (multi_model_analysis env p d w) =
           Some \<lparr>ar_response = JSON_stringify env (JObj []), ar_parsedResponse = JObj [],
                 ar_citations = [], ar_mentioned = False, ar_llmResults = Some [], ar_tokensUsed = tk\<rparr>"
proof -
  obtain m w' where a: "analyzeWithMultipleLLMs env p d w = (m, w')"
    by (cases "analyzeWithMultipleLLMs env p d w") auto
  from analyzeWithMultipleLLMs_fails[OF assms, of p d w] a
  have n: "gemini_result m = JNull" "openrouter1 m = JNull" "openrouter2 m = JNull" by simp_all
  show ?thesis
    by (simp add: multi_model_analysis_def a n Let_def spread_citations_def tagged_def)
qed

lemma getRecommendations_fails:
  assumes "\<And>n p text. gemini env n p \<noteq> Inr (Inr text)"
  shows "fst (getRecommendations env d b w) = JArr []"
  using assms[of "gemini_calls w" "recommendation_prompt b d"]
  by (auto simp: getRecommendations_def call_gemini_def split: sum.splits)

lemma analyzeResponse_empty_object:
  "analyzeResponse r d (JObj []) = Inr \<lparr>mentioned = False, score = 0, citations = [], confidence = Low\<rparr>"
  by (simp add: analyzeResponse_def find_mentions_def scoring_def js_round_values Let_def)

lemma prompt_body_not_string:
  "\<not> (\<exists>s. template pt = JStr s) \<Longrightarrow> \<exists>e. prompt_body env d b t prem pt w = (Inl e, 0, w)"
  by (cases "template pt") (simp_all add: prompt_body_def)


lemma prompt_body_single_fail:
  assumes "template pt = JStr s" and "\<not> prem"
    and "single_model_analysis env
             (replace_first ''{topic}'' t (replace_first ''{brand}'' b (replace_first ''{domain}'' d s))) d w
          = (Inl e, w')"
  shows "prompt_body env d b t prem pt w = (Inl e, 0, w')"
  using assms by (simp add: prompt_body_def Let_def)

lemma prompt_body_all_fail:
  assumes g: "\<And>n p text. gemini env n p \<noteq> Inr (Inr text)"
    and o: "\<not> OPENROUTER_API_KEY env \<or> (\<forall>n m s u. \<exists>e. openrouter env n m s u = Inl e)"
    and pb: "prompt_body env d b t prem pt w = (r, tk, w')"
  shows "d_score (entry_of pt r) = 0
       \<and> (\<not> prem \<longrightarrow> error (entry_of pt r) \<noteq> None)
       \<and> (prem \<and> (\<exists>s. template pt = JStr s) \<longrightarrow> error (entry_of pt r) = None)"
proof (cases "\<exists>s. template pt = JStr s")
  case False
  with pb prompt_body_not_string[OF False, of env d b t prem w] have "\<exists>e. r = Inl e" by auto
  with False show ?thesis by (auto simp: entry_of_def error_entry_fields)
next
  case True
  then obtain s where s: "template pt = JStr s" by blast
  let ?p = "replace_first ''{topic}'' t (replace_first ''{brand}'' b (replace_first ''{domain}'' d s))"
  show ?thesis
  proof (cases prem)
    case False
    obtain r1 w1 where sm: "single_model_analysis env ?p d w = (r1, w1)"
      by (cases "single_model_analysis env ?p d w") auto
    with single_model_analysis_fails[OF g, of ?p d w] obtain e where "r1 = Inl e" by auto
    with pb prompt_body_single_fail[OF s False, of env t b d w e w1] sm have "r = Inl e" by simp
    with False show ?thesis by (simp add: entry_of_def error_entry_fields)
  next
    case prem: True
    obtain m w1 where mm: "multi_model_analysis env ?p d w = (m, w1)"
      by (cases "multi_model_analysis env ?p d w") auto
    with multi_model_analysis_fails[OF g o, of ?p d w] obtain tk' where m: "m =
           Some \<lparr>ar_response = JSON_stringify env (JObj []), ar_parsedResponse = JObj [],
                 ar_citations = [], ar_mentioned = False, ar_llmResults = Some [], ar_tokensUsed = tk'\<rparr>"
      by auto
    obtain rc w2 where gr: "getRecommendations env d b w1 = (rc, w2)"
      by (cases "getRecommendations env d b w1") auto
    have "prompt_body env d b t prem pt w =
       (Inr \<lparr>promptId = prompt_id pt, prompt = JStr ?p,
              response = Some (JSON_stringify env (JObj [])), parsedResponse = Some (JObj []),
              domainMentioned = False, d_score = 0, d_citations = [], recommendations = Some rc,
              d_confidence = Low, tokensUsed = tk', multiLLMResults = Some [], error = None\<rparr>,
        tk', sleep 500 w2)"
      using s prem by (simp add: prompt_body_def Let_def mm m gr analyzeResponse_empty_object)
    with pb have "\<exists>dt. r = Inr dt \<and> d_score dt = 0 \<and> error dt = None" by auto
    with prem s show ?thesis by (auto simp: entry_of_def)
  qed
qed

lemma single_model_analysis_world:
  "snd (single_model_analysis env p d w) = snd (generate_with_retry env (analysis_prompt d p) 0 None w)"
  by (simp add: single_model_analysis_def Let_def split: prod.splits sum.splits)

lemma single_model_analysis_throws:
  "generate_with_retry env (analysis_prompt d p) 0 None w = (Inl e, w') \<Longrightarrow>
     single_model_analysis env p d w = (Inl e, w')"
  by (simp add: single_model_analysis_def Let_def)

lemma single_model_analysis_response:
  "generate_with_retry env (analysis_prompt d p) 0 None w = (Inr (Inr text), w') \<Longrightarrow>
     fst (single_model_analysis env p d w) = Inr ar \<Longrightarrow> ar_response ar = strip_fences text"
  by (auto simp add: single_model_analysis_def Let_def split: sum.splits)

lemma generate_with_retry_permanent:
  assumes "gemini env (gemini_calls w) q = Inl e" and "\<not> is503Error e"
  shows "generate_with_retry env q 0 None w = (Inl e, w\<lparr>gemini_calls := gemini_calls w + 1\<rparr>)"
  using assms
  by (simp add: generate_with_retry.simps [of env q 0] maxRetries_def call_gemini_def)

lemma generate_with_retry_exhausted:
  assumes "gemini env (gemini_calls w) q = Inl e1" and "is503Error e1"
    and "gemini env (gemini_calls w + 1) q = Inl e2" and "is503Error e2"
    and "gemini env (gemini_calls w + 2) q = Inl e3"
  shows "generate_with_retry env q 0 None w =
           (Inl e3, w\<lparr>gemini_calls := gemini_calls w + 3, slept := slept w @ [1000, 2000]\<rparr>)"
  using assms
  by (simp add: generate_with_retry.simps [of env q] maxRetries_def baseDelay_def call_gemini_def sleep_def)

lemma single_model_analysis_success:
  assumes "generate_with_retry env (analysis_prompt d p) 0 None w = (Inr (Inr answer), w')"
    and "analyzeResponse (strip_fences answer) d
           (case JSON_parse env (strip_fences answer) of Some v \<Rightarrow> v | None \<Rightarrow> JNull) = Inr a"
  shows "single_model_analysis env p d w =
           (Inr \<lparr>ar_response = strip_fences answer,
                 ar_parsedResponse =
                   (case JSON_parse env (strip_fences answer) of Some v \<Rightarrow> v | None \<Rightarrow> JNull),
                 ar_citations = map JStr (citations a),
                 ar_mentioned = mentioned a,
                 ar_llmResults = None,
                 ar_tokensUsed =
                   (length (analysis_prompt d p) + length (strip_fences answer) + 3) div 4\<rparr>, w')"
  using assms by (simp add: single_model_analysis_def Let_def)

lemma prompt_body_single_success:
  assumes "template pt = JStr s"
    and "single_model_analysis env
             (replace_first ''{topic}'' t (replace_first ''{brand}'' b (replace_first ''{domain}'' d s))) d w
          = (Inr ar, w2)"
    and "analyzeResponse (ar_response ar) d (ar_parsedResponse ar) = Inr a"
  shows "\<exists>dt tk w'. prompt_body env d b t False pt w = (Inr dt, tk, w')
           \<and> response dt = Some (ar_response ar) \<and> parsedResponse dt = Some (ar_parsedResponse ar)
           \<and> d_score dt = score a \<and> domainMentioned dt = mentioned a
           \<and> d_citations dt = citations a \<and> d_confidence dt = confidence a \<and> error dt = None
           \<and> (mentioned a \<or> citations a \<noteq> [] \<longrightarrow> w' = sleep 500 w2)"
proof (cases "length (citations a) = 0 \<and> \<not> mentioned a")
  case True
  obtain rc w3 where g: "getRecommendations env d b w2 = (rc, w3)"
    by (cases "getRecommendations env d b w2") auto
  from True show ?thesis
    using assms by (simp add: prompt_body_def Let_def g)
next
  case False
  then show ?thesis
    using assms by (auto simp add: prompt_body_def Let_def)
qed

lemma run_prompts_single_error:
  "prompt_body env d b t prem pt w = (Inl e, tk, w') \<Longrightarrow>
     run_prompts env d b t prem [pt] ([], 0, 0, w) = ([error_entry pt e], 0, tk, w')"
  by simp

text \<open>
  Claim C4. In single-provider mode the analysis of one prompt sends its request at
  least once and at most \<open>maxRetries = 3\<close> times. When the first two attempts fail
  with a 503 error (a message that contains \<^verbatim>\<open>503\<close>, \<^verbatim>\<open>Service Unavailable\<close> or
  \<^verbatim>\<open>overloaded\<close>) and the third gives an answer, exactly three requests are sent,
  with sleeps of 1000 ms and 2000 ms between them, and the analysis and the entry of
  the prompt are made of that answer; the entry carries no error, and when the answer
  mentions the domain no further request follows. An error that is not a 503 error is
  thrown after one request, and three 503 errors in a row end in the third being
  thrown after three requests; in both cases the prompt gets the error entry, with the
  score 0 and the message of that error in its \<^verbatim>\<open>error\<close> field.
\<close>

theorem single_provider_retry:
  assumes "template pt = JStr s"
    and "p = replace_first ''{topic}'' t (replace_first ''{brand}'' b (replace_first ''{domain}'' d s))"
    and "q = analysis_prompt d p"
  shows
   "(gemini_calls w < gemini_calls (snd (single_model_analysis env p d w))
     \<and> gemini_calls (snd (single_model_analysis env p d w)) \<le> gemini_calls w + maxRetries)
    \<and> (gemini env (gemini_calls w) q = Inl e1 \<and> is503Error e1
        \<and> gemini env (gemini_calls w + 1) q = Inl e2 \<and> is503Error e2
        \<and> gemini env (gemini_calls w + 2) q = Inr (Inr answer)
        \<and> analyzeResponse (strip_fences answer) d
             (case JSON_parse env (strip_fences answer) of Some v \<Rightarrow> v | None \<Rightarrow> JNull) = Inr a
       \<longrightarrow> single_model_analysis env p d w =
             (Inr \<lparr>ar_response = strip_fences answer,
                   ar_parsedResponse =
                     (case JSON_parse env (strip_fences answer) of Some v \<Rightarrow> v | None \<Rightarrow> JNull),
                   ar_citations = map JStr (citations a),
                   ar_mentioned = mentioned a,
                   ar_llmResults = None,
                   ar_tokensUsed = (length q + length (strip_fences answer) + 3) div 4\<rparr>,
              w\<lparr>gemini_calls := gemini_calls w + 3, slept := slept w @ [1000, 2000]\<rparr>)
           \<and> (\<exists>dt tk w'. prompt_body env d b t False pt w = (Inr dt, tk, w')
                 \<and> response dt = Some (strip_fences answer)
                 \<and> d_score dt = score a \<and> domainMentioned dt = mentioned a
                 \<and> d_citations dt = citations a \<and> error dt = None
                 \<and> (mentioned a \<or> citations a \<noteq> [] \<longrightarrow>
                      w' = sleep 500 (w\<lparr>gemini_calls := gemini_calls w + 3,
                                         slept := slept w @ [1000, 2000]\<rparr>))))
    \<and> (gemini env (gemini_calls w) q = Inl e \<and> \<not> is503Error e
       \<longrightarrow> single_model_analysis env p d w = (Inl e, w\<lparr>gemini_calls := gemini_calls w + 1\<rparr>)
           \<and> run_prompts env d b t False [pt] ([], 0, 0, w) =
               ([error_entry pt e], 0, 0, w\<lparr>gemini_calls := gemini_calls w + 1\<rparr>)
           \<and> d_score (error_entry pt e) = 0 \<and> error (error_entry pt e) = Some (message e))
    \<and> (gemini env (gemini_calls w) q = Inl e1 \<and> is503Error e1
        \<and> gemini env (gemini_calls w + 1) q = Inl e2 \<and> is503Error e2
        \<and> gemini env (gemini_calls w + 2) q = Inl e3
       \<longrightarrow> single_model_analysis env p d w =
             (Inl e3, w\<lparr>gemini_calls := gemini_calls w + 3, slept := slept w @ [1000, 2000]\<rparr>)
           \<and> run_prompts env d b t False [pt] ([], 0, 0, w) =
               ([error_entry pt e3], 0, 0,
                w\<lparr>gemini_calls := gemini_calls w + 3, slept := slept w @ [1000, 2000]\<rparr>)
           \<and> d_score (error_entry pt e3) = 0 \<and> error (error_entry pt e3) = Some (message e3))"
proof (intro conjI impI)
  show "gemini_calls w < gemini_calls (snd (single_model_analysis env p d w))"
    using generate_with_retry_calls [of 0 w env "analysis_prompt d p" None]
    by (simp add: single_model_analysis_world maxRetries_def)
next
  show "gemini_calls (snd (single_model_analysis env p d w)) \<le> gemini_calls w + maxRetries"
    using generate_with_retry_calls [of 0 w env "analysis_prompt d p" None]
    by (simp add: single_model_analysis_world maxRetries_def)
next
  assume h: "gemini env (gemini_calls w) q = Inl e1 \<and> is503Error e1
        \<and> gemini env (gemini_calls w + 1) q = Inl e2 \<and> is503Error e2
        \<and> gemini env (gemini_calls w + 2) q = Inr (Inr answer)
        \<and> analyzeResponse (strip_fences answer) d
             (case JSON_parse env (strip_fences answer) of Some v \<Rightarrow> v | None \<Rightarrow> JNull) = Inr a"
  let ?w3 = "w\<lparr>gemini_calls := gemini_calls w + 3, slept := slept w @ [1000, 2000]\<rparr>"
  let ?ar = "\<lparr>ar_response = strip_fences answer,
                   ar_parsedResponse =
                     (case JSON_parse env (strip_fences answer) of Some v \<Rightarrow> v | None \<Rightarrow> JNull),
                   ar_citations = map JStr (citations a),
                   ar_mentioned = mentioned a,
                   ar_llmResults = None,
                   ar_tokensUsed = (length q + length (strip_fences answer) + 3) div 4\<rparr>"
  have g: "generate_with_retry env (analysis_prompt d p) 0 None w = (Inr (Inr answer), ?w3)"
    using h generate_with_retry_success [of env w "analysis_prompt d p" e1 e2 "Inr answer"]
    by (simp add: assms(3))
  from h have ar: "analyzeResponse (strip_fences answer) d
             (case JSON_parse env (strip_fences answer) of Some v \<Rightarrow> v | None \<Rightarrow> JNull) = Inr a"
    by simp
  from single_model_analysis_success [OF g ar]
  show sm: "single_model_analysis env p d w = (Inr ?ar, ?w3)" by (simp add: assms(3))
  have sm': "single_model_analysis env
             (replace_first ''{topic}'' t (replace_first ''{brand}'' b (replace_first ''{domain}'' d s))) d w
          = (Inr ?ar, ?w3)"
    using sm by (simp add: assms(2))
  have ar': "analyzeResponse (ar_response ?ar) d (ar_parsedResponse ?ar) = Inr a"
    using ar by simp
  from prompt_body_single_success [OF assms(1) sm' ar']
  show "\<exists>dt tk w'. prompt_body env d b t False pt w = (Inr dt, tk, w')
                 \<and> response dt = Some (strip_fences answer)
                 \<and> d_score dt = score a \<and> domainMentioned dt = mentioned a
                 \<and> d_citations dt = citations a \<and> error dt = None
                 \<and> (mentioned a \<or> citations a \<noteq> [] \<longrightarrow> w' = sleep 500 ?w3)"
    by auto
next
  assume h: "gemini env (gemini_calls w) q = Inl e \<and> \<not> is503Error e"
  let ?w1 = "w\<lparr>gemini_calls := gemini_calls w + 1\<rparr>"
  have g: "generate_with_retry env (analysis_prompt d p) 0 None w = (Inl e, ?w1)"
    using h generate_with_retry_permanent [of env w "analysis_prompt d p" e]
    by (simp add: assms(3))
  then show sm: "single_model_analysis env p d w = (Inl e, ?w1)"
    by (rule single_model_analysis_throws)
  have pb: "prompt_body env d b t False pt w = (Inl e, 0, ?w1)"
    using prompt_body_single_fail [OF assms(1), of False env t b d w e ?w1] sm
    by (simp add: assms(2))
  then show "run_prompts env d b t False [pt] ([], 0, 0, w) = ([error_entry pt e], 0, 0, ?w1)"
    by (rule run_prompts_single_error)
  show "d_score (error_entry pt e) = 0" by (simp add: error_entry_fields)
  show "error (error_entry pt e) = Some (message e)" by (simp add: error_entry_fields)
next
  assume h: "gemini env (gemini_calls w) q = Inl e1 \<and> is503Error e1
        \<and> gemini env (gemini_calls w + 1) q = Inl e2 \<and> is503Error e2
        \<and> gemini env (gemini_calls w + 2) q = Inl e3"
  let ?w3 = "w\<lparr>gemini_calls := gemini_calls w + 3, slept := slept w @ [1000, 2000]\<rparr>"
  have g: "generate_with_retry env (analysis_prompt d p) 0 None w = (Inl e3, ?w3)"
    using h generate_with_retry_exhausted [of env w "analysis_prompt d p" e1 e2 e3]
    by (simp add: assms(3))
  then show sm: "single_model_analysis env p d w = (Inl e3, ?w3)"
    by (rule single_model_analysis_throws)
  have pb: "prompt_body env d b t False pt w = (Inl e3, 0, ?w3)"
    using prompt_body_single_fail [OF assms(1), of False env t b d w e3 ?w3] sm
    by (simp add: assms(2))
  then show "run_prompts env d b t False [pt] ([], 0, 0, w) = ([error_entry pt e3], 0, 0, ?w3)"
    by (rule run_prompts_single_error)
  show "d_score (error_entry pt e3) = 0" by (simp add: error_entry_fields)
  show "error (error_entry pt e3) = Some (message e3)" by (simp add: error_entry_fields)
qed

theorem single_provider_retry_witness:
  "single_model_analysis flaky_env ''Describe Example'' ''example.com'' w0 =
     (Inr \<lparr>ar_response = ''Example.com is a reference domain.'',
           ar_parsedResponse = JNull,
           ar_citations = [],
           ar_mentioned = True,
           ar_llmResults = None,
           ar_tokensUsed =
             (length (analysis_prompt ''example.com'' ''Describe Example'') + 34 + 3) div 4\<rparr>,
      \<lparr>gemini_calls = 3, openrouter_calls = 0, slept = [1000, 2000]\<rparr>)
   \<and> run_prompts failing_env ''example.com'' ''Example'' ''Example and similar services'' False
         [describe_prompt] ([], 0, 0, w0) =
       ([error_entry describe_prompt quota_error], 0, 0,
        \<lparr>gemini_calls = 1, openrouter_calls = 0, slept = []\<rparr>)
   \<and> error (error_entry describe_prompt quota_error) = Some (message quota_error)"
proof -
  let ?answer = "''Example.com is a reference domain.''"
  let ?a = "\<lparr>mentioned = True, score = 2, citations = [], confidence = Medium\<rparr>"
  have tp: "template describe_prompt = JStr ''Describe {brand}''"
    by (simp add: describe_prompt_def)
  have p: "''Describe Example'' =
             replace_first ''{topic}'' ''Example and similar services''
               (replace_first ''{brand}'' ''Example''
                  (replace_first ''{domain}'' ''example.com'' ''Describe {brand}''))"
    by code_simp
  have t: "is503Error overloaded_error" by code_simp
  have n: "\<not> is503Error quota_error" by code_simp
  have sf: "strip_fences ?answer = ?answer" by code_simp
  have jp: "JSON_parse flaky_env ?answer = None"
    by (simp add: flaky_env_def failing_env_def)
  have an: "analyzeResponse ?answer ''example.com'' JNull = Inr ?a" by code_simp
  have f: "gemini flaky_env (gemini_calls w0) (analysis_prompt ''example.com'' ''Describe Example'')
             = Inl overloaded_error \<and> is503Error overloaded_error
           \<and> gemini flaky_env (gemini_calls w0 + 1) (analysis_prompt ''example.com'' ''Describe Example'')
             = Inl overloaded_error \<and> is503Error overloaded_error
           \<and> gemini flaky_env (gemini_calls w0 + 2) (analysis_prompt ''example.com'' ''Describe Example'')
               = Inr (Inr ?answer)
           \<and> analyzeResponse (strip_fences ?answer) ''example.com''
               (case JSON_parse flaky_env (strip_fences ?answer) of Some v \<Rightarrow> v | None \<Rightarrow> JNull)
               = Inr ?a"
    using t an by (simp add: sf jp) (simp add: flaky_env_def failing_env_def w0_def)
  have q: "gemini failing_env (gemini_calls w0) (analysis_prompt ''example.com'' ''Describe Example'')
             = Inl quota_error \<and> \<not> is503Error quota_error"
    using n by (simp add: failing_env_def)
  note flaky = single_provider_retry
         [OF tp p refl, where env = flaky_env and w = w0 and ?e1.0 = overloaded_error
            and ?e2.0 = overloaded_error and answer = ?answer and a = ?a]
  from flaky f
  have a: "single_model_analysis flaky_env ''Describe Example'' ''example.com'' w0 =
     (Inr \<lparr>ar_response = strip_fences ?answer,
           ar_parsedResponse =
             (case JSON_parse flaky_env (strip_fences ?answer) of Some v \<Rightarrow> v | None \<Rightarrow> JNull),
           ar_citations = map JStr (citations ?a),
           ar_mentioned = mentioned ?a,
           ar_llmResults = None,
           ar_tokensUsed =
             (length (analysis_prompt ''example.com'' ''Describe Example'')
                + length (strip_fences ?answer) + 3) div 4\<rparr>,
      w0\<lparr>gemini_calls := gemini_calls w0 + 3, slept := slept w0 @ [1000, 2000]\<rparr>)"
    by blast
  note failing = single_provider_retry
         [OF tp p refl, where env = failing_env and w = w0 and e = quota_error]
  from failing q
  have b: "run_prompts failing_env ''example.com'' ''Example'' ''Example and similar services'' False
         [describe_prompt] ([], 0, 0, w0) =
       ([error_entry describe_prompt quota_error], 0, 0, w0\<lparr>gemini_calls := gemini_calls w0 + 1\<rparr>)
     \<and> error (error_entry describe_prompt quota_error) = Some (message quota_error)"
    by blast
  from a b show ?thesis by (simp add: sf jp w0_def)
qed

lemma sum_list_zero: "\<forall>x \<in> set xs. d_score x = 0 \<Longrightarrow> sum_list (map d_score xs) = 0"
  by (induction xs) auto

lemma list_all2_right: "list_all2 (\<lambda>a b. P b) xs ys \<Longrightarrow> \<forall>y \<in> set ys. P y"
  by (induction xs ys rule: list_all2_induct) auto

lemma analyzeLLMVisibility_report:
  assumes "select_prompts env u (extractBrand (extractDomain env u))
             (guessTopic (extractBrand (extractDomain env u))) prem info w = (pts, w1)"
    and "run_prompts env (extractDomain env u) (extractBrand (extractDomain env u))
             (guessTopic (extractBrand (extractDomain env u))) prem pts ([], 0, 0, w1) = (res, tot, tok, w2)"
  shows "fst (analyzeLLMVisibility env u prem info w) =
      \<lparr>totalScore = tot, maxScore = int (length pts) * 3,
       percentage = percentage_of tot (int (length pts) * 3), details = res, isPremium = prem,
       meta_totalTokens = tok, meta_estimatedCost = of_nat tok / 1000 * (5 / 10000),
       meta_promptsUsed = length pts, meta_multiLLMEnabled = prem\<rparr>"
  using assms by (simp add: analyzeLLMVisibility_def Let_def)

lemma PROMPT_TEMPLATES_strings: "\<forall>pt \<in> set PROMPT_TEMPLATES. \<exists>s. template pt = JStr s"
  by (simp add: PROMPT_TEMPLATES_def)

lemma select_prompts_strings:
  assumes "\<And>n p answer. gemini env n p \<noteq> Inr (Inr answer)"
  shows "\<forall>pt \<in> set (fst (select_prompts env u b t prem info w)). \<exists>s. template pt = JStr s"
proof (cases "prem \<and> info \<noteq> None")
  case False
  then have "fst (select_prompts env u b t prem info w) = PROMPT_TEMPLATES"
    by (auto simp: select_prompts_def split: option.splits)
  with PROMPT_TEMPLATES_strings show ?thesis by simp
next
  case True
  then obtain bi where bi: "info = Some bi" and p: prem by auto
  let ?info = "\<lparr>brandName = or_else (brandName bi) b, industry = or_else (industry bi) t,
                brandSummary = or_else (brandSummary bi) [], url = u\<rparr>"
  have "fst (generateBusinessPrompts env ?info w)
          = map JStr (getDefaultPrompts (brandName ?info) (industry ?info))"
    using assms by (intro generateBusinessPrompts_error) simp
  with select_prompts_custom [of env u b t bi w] bi p show ?thesis
    by (auto simp: enumerate_eq_zip dest!: set_zip_rightD)
qed

lemma all_fail_run:
  assumes g: "\<And>n p answer. gemini env n p \<noteq> Inr (Inr answer)"
    and o: "\<not> OPENROUTER_API_KEY env \<or> (\<forall>n m s u. \<exists>e. openrouter env n m s u = Inl e)"
    and sp: "select_prompts env u b t prem info w = (ps, w1)"
    and rp: "run_prompts env d b' t' prem ps ([], 0, 0, w1) = (rs, ts, tk, w2)"
  shows "ts = 0 \<and> length rs = length ps
       \<and> (\<forall>x \<in> set rs. d_score x = 0 \<and> (if prem then error x = None else error x \<noteq> None))"
proof -
  let ?Q = "\<lambda>pt x. d_score x = 0 \<and> (\<not> prem \<longrightarrow> error x \<noteq> None)
                    \<and> (prem \<and> (\<exists>s. template pt = JStr s) \<longrightarrow> error x = None)"
  have "\<exists>new. fst (run_prompts env d b' t' prem ps ([], 0, 0, w1)) = [] @ new
       \<and> fst (snd (run_prompts env d b' t' prem ps ([], 0, 0, w1))) = 0 + sum_list (map d_score new)
       \<and> list_all2 ?Q ps new"
    by (rule run_prompts_entries) (use prompt_body_all_fail [OF g o] in blast)
  with rp have tot: "ts = sum_list (map d_score rs)" and all: "list_all2 ?Q ps rs" by auto
  from all have lr: "length rs = length ps" by (rule list_all2_lengthD [symmetric])
  from select_prompts_strings [OF g, of u b t prem info w] sp
  have strs: "\<forall>pt \<in> set ps. \<exists>s. template pt = JStr s" by simp
  have z: "\<forall>x \<in> set rs. d_score x = 0 \<and> (if prem then error x = None else error x \<noteq> None)"
  proof
    fix x assume "x \<in> set rs"
    then obtain i where i: "i < length rs" "rs ! i = x" by (auto simp: in_set_conv_nth)
    with all have q: "?Q (ps ! i) x" by (auto simp: list_all2_conv_all_nth)
    from i lr strs have "\<exists>s. template (ps ! i) = JStr s" by simp
    with q show "d_score x = 0 \<and> (if prem then error x = None else error x \<noteq> None)" by simp
  qed
  with tot have "ts = 0" by (simp add: sum_list_zero)
  with lr z show ?thesis by simp
qed

lemma failing_env_single:
  assumes "template pt = JStr s"
  shows "prompt_body failing_env d b t False pt w =
           (Inl quota_error, 0, w\<lparr>gemini_calls := gemini_calls w + 1\<rparr>)"
proof -
  let ?p = "replace_first ''{topic}'' t (replace_first ''{brand}'' b (replace_first ''{domain}'' d s))"
  have n: "\<not> is503Error quota_error" by code_simp
  have "gemini failing_env (gemini_calls w) (analysis_prompt d ?p) = Inl quota_error"
    by (simp add: failing_env_def)
  from generate_with_retry_permanent [OF this n]
  have "single_model_analysis failing_env ?p d w = (Inl quota_error, w\<lparr>gemini_calls := gemini_calls w + 1\<rparr>)"
    by (rule single_model_analysis_throws)
  with assms show ?thesis by (simp add: prompt_body_single_fail)
qed

lemma failing_env_branches:
  "analyzeWithGemini failing_env p d w =
     (Inl (Error (''Gemini analysis failed: '' @ message quota_error)),
      w\<lparr>gemini_calls := gemini_calls w + 1\<rparr>)"
  "m \<noteq> [] \<Longrightarrow> analyzeWithOpenRouter failing_env p d (Some m) w =
     (Inl (Error ''OpenRouter analysis failed: Request failed with status code 429''),
      w\<lparr>openrouter_calls := openrouter_calls w + 1\<rparr>)"
  by (simp_all add: analyzeWithGemini_def analyzeWithOpenRouter_def openrouter_candidates_def
                    call_gemini_def call_openrouter_def failing_env_def)

lemma map_replicate:
  "length xs = n \<Longrightarrow> \<forall>x \<in> set xs. f x = v \<Longrightarrow> map f xs = replicate n v"
  by (induction xs arbitrary: n) auto

text \<open>
  Claim C3, at an input where the code departs from it: a premium run in which every
  request to every provider fails. \<^verbatim>\<open>analyzeWithMultipleLLMs\<close> catches the error
  of each of its three branches and lists it in \<^verbatim>\<open>results.errors\<close>, which the
  orchestrator never reads; the three results are \<^verbatim>\<open>null\<close>, the empty object stands
  in for the primary response, and the branch that falls back to the single model
  analysis is not taken. Each of the ten prompts is recorded with the score 0 and
  without an \<^verbatim>\<open>error\<close> field. The same failures in single-provider mode are
  recorded with the provider's message in the \<^verbatim>\<open>error\<close> field of every entry.
\<close>

theorem premium_failures_unrecorded:
  "errors (fst (analyzeWithMultipleLLMs failing_env ''Describe Example'' ''example.com'' w0)) =
     [(''gemini'', ''Gemini analysis failed: '' @ message quota_error),
      (''openrouter1'', ''OpenRouter analysis failed: Request failed with status code 429''),
      (''openrouter2'', ''OpenRouter analysis failed: Request failed with status code 429'')]
   \<and> map_option ar_parsedResponse
        (fst (multi_model_analysis failing_env ''Describe Example'' ''example.com'' w0)) = Some (JObj [])
   \<and> map error (details (fst (analyzeLLMVisibility failing_env ''https://www.example.com/'' True
                                (Some no_info) w0)))
       = replicate 10 None
   \<and> map d_score (details (fst (analyzeLLMVisibility failing_env ''https://www.example.com/'' True
                                  (Some no_info) w0)))
       = replicate 10 0
   \<and> map error (details (fst (analyzeLLMVisibility failing_env ''https://www.example.com/'' False
                                None w0)))
       = replicate 3 (Some (message quota_error))"
proof -
  let ?u = "''https://www.example.com/''"
  let ?d = "extractDomain failing_env ?u"
  let ?b = "extractBrand ?d"
  let ?t = "guessTopic ?b"
  have g: "\<And>n p answer. gemini failing_env n p \<noteq> Inr (Inr answer)"
    by (simp add: failing_env_def)
  have o: "\<not> OPENROUTER_API_KEY failing_env
           \<or> (\<forall>n m s u. \<exists>e. openrouter failing_env n m s u = Inl e)"
    by (simp add: failing_env_def)
  have A: "errors (fst (analyzeWithMultipleLLMs failing_env ''Describe Example'' ''example.com'' w0)) =
     [(''gemini'', ''Gemini analysis failed: '' @ message quota_error),
      (''openrouter1'', ''OpenRouter analysis failed: Request failed with status code 429''),
      (''openrouter2'', ''OpenRouter analysis failed: Request failed with status code 429'')]"
    by (simp add: analyzeWithMultipleLLMs_def failing_env_branches settle_def)
  from multi_model_analysis_fails [OF g o, of "''Describe Example''" "''example.com''" w0]
  have B: "map_option ar_parsedResponse
        (fst (multi_model_analysis failing_env ''Describe Example'' ''example.com'' w0)) = Some (JObj [])"
    by auto
  \<comment> \<open>the premium run\<close>
  obtain ps w1 where sp: "select_prompts failing_env ?u ?b ?t True (Some no_info) w0 = (ps, w1)"
    by (cases "select_prompts failing_env ?u ?b ?t True (Some no_info) w0") auto
  obtain rs ts tk w2 where rp: "run_prompts failing_env ?d ?b ?t True ps ([], 0, 0, w1) = (rs, ts, tk, w2)"
    by (cases "run_prompts failing_env ?d ?b ?t True ps ([], 0, 0, w1)") auto
  from select_prompts_length [of failing_env ?u ?b ?t True "Some no_info" w0] sp
  have len: "length ps = 10" by simp
  from all_fail_run [OF g o sp rp] len
  have l: "length rs = 10" and e: "\<forall>x \<in> set rs. error x = None" and z: "\<forall>x \<in> set rs. d_score x = 0"
    by simp_all
  have C: "map error (details (fst (analyzeLLMVisibility failing_env ?u True (Some no_info) w0)))
             = replicate 10 None"
    using map_replicate [OF l e] by (simp add: analyzeLLMVisibility_report [OF sp rp])
  have D: "map d_score (details (fst (analyzeLLMVisibility failing_env ?u True (Some no_info) w0)))
             = replicate 10 0"
    using map_replicate [OF l z] by (simp add: analyzeLLMVisibility_report [OF sp rp])
  \<comment> \<open>the same failures in single-provider mode\<close>
  have sp': "select_prompts failing_env ?u ?b ?t False None w0 = (PROMPT_TEMPLATES, w0)"
    by (simp add: select_prompts_def)
  obtain rs' ts' tk' w2' where
    rp': "run_prompts failing_env ?d ?b ?t False PROMPT_TEMPLATES ([], 0, 0, w0) = (rs', ts', tk', w2')"
    by (cases "run_prompts failing_env ?d ?b ?t False PROMPT_TEMPLATES ([], 0, 0, w0)") auto
  let ?Q = "\<lambda>(pt :: promptTemplate) x. error x = Some (message quota_error)"
  have "\<exists>new. fst (run_prompts failing_env ?d ?b ?t False PROMPT_TEMPLATES ([], 0, 0, w0)) = [] @ new
       \<and> fst (snd (run_prompts failing_env ?d ?b ?t False PROMPT_TEMPLATES ([], 0, 0, w0)))
           = 0 + sum_list (map d_score new)
       \<and> list_all2 ?Q PROMPT_TEMPLATES new"
  proof (rule run_prompts_entries)
    fix pt w r tk w'
    assume pt: "pt \<in> set PROMPT_TEMPLATES"
      and pb: "prompt_body failing_env ?d ?b ?t False pt w = (r, tk, w')"
    from pt PROMPT_TEMPLATES_strings obtain s where "template pt = JStr s" by blast
    from failing_env_single [OF this, of ?d ?b ?t w] pb have "r = Inl quota_error" by simp
    then show "error (entry_of pt r) = Some (message quota_error)"
      by (simp add: entry_of_def error_entry_fields)
  qed
  with rp' have all: "list_all2 ?Q PROMPT_TEMPLATES rs'" by auto
  then have l': "length rs' = 3"
    by (auto dest: list_all2_lengthD simp: PROMPT_TEMPLATES_def)
  from all have e': "\<forall>x \<in> set rs'. error x = Some (message quota_error)"
    by (rule list_all2_right)
  have E: "map error (details (fst (analyzeLLMVisibility failing_env ?u False None w0)))
             = replicate 3 (Some (message quota_error))"
    using map_replicate [OF l' e'] by (simp add: analyzeLLMVisibility_report [OF sp' rp'])
  from A B C D E show ?thesis by simp
qed

text \<open>
  \<^verbatim>\<open>generateBusinessPrompts\<close> sends one request and never throws. Its ten prompts
  are the first ten entries of the JSON array in the answer when there is one with at
  least ten entries; else the first ten list-like lines of the answer, cleaned; and
  the default prompts, built from the brand name and the industry by string
  templating alone, when the answer holds neither or the request fails. For a premium
  caller with business information the ten prompts become the templates
  \<^verbatim>\<open>custom-1\<close> to \<^verbatim>\<open>custom-10\<close> of the category \<^verbatim>\<open>custom\<close>, and the prompt set
  of a run is never empty.
\<close>

lemma generateBusinessPrompts_request:
  "snd (generateBusinessPrompts env info w) = w\<lparr>gemini_calls := gemini_calls w + 1\<rparr>"
  by (simp add: generateBusinessPrompts_def try_generate_def call_gemini_def split: sum.splits)

lemma generateBusinessPrompts_array:
  assumes "gemini env (gemini_calls w) (generation_prompt info) = Inr (Inr answer)"
    and "bracket_match (strip_fences answer) = Some m" and "JSON_parse env m = Some (JArr ps)"
    and "length ps \<ge> 10"
  shows "fst (generateBusinessPrompts env info w) = take 10 ps"
  using assms
  by (simp add: generateBusinessPrompts_def try_generate_def call_gemini_def prompts_from_text_def Let_def)

lemma generateBusinessPrompts_lines:
  assumes "gemini env (gemini_calls w) (generation_prompt info) = Inr (Inr answer)"
    and "\<forall>m ps. bracket_match (strip_fences answer) = Some m \<and> JSON_parse env m = Some (JArr ps)
               \<longrightarrow> length ps < 10"
    and "length (filter prompt_line (split_on (CHR 0x0A) (strip_fences answer))) \<ge> 10"
  shows "fst (generateBusinessPrompts env info w) =
           map (\<lambda>line. JStr (clean_prompt_line line))
             (take 10 (filter prompt_line (split_on (CHR 0x0A) (strip_fences answer))))"
  using assms
  by (auto simp: generateBusinessPrompts_def try_generate_def call_gemini_def prompts_from_text_def
                 Let_def split: option.splits json.splits)

lemma generateBusinessPrompts_defaults:
  assumes "gemini env (gemini_calls w) (generation_prompt info) = Inr (Inr answer)"
    and "\<forall>m ps. bracket_match (strip_fences answer) = Some m \<and> JSON_parse env m = Some (JArr ps)
               \<longrightarrow> length ps < 10"
    and "length (filter prompt_line (split_on (CHR 0x0A) (strip_fences answer))) < 10"
  shows "fst (generateBusinessPrompts env info w)
           = map JStr (getDefaultPrompts (brandName info) (industry info))"
  using assms
  by (auto simp: generateBusinessPrompts_def try_generate_def call_gemini_def prompts_from_text_def
                 Let_def split: option.splits json.splits)

lemma select_prompts_tags:
  "length (fst (select_prompts env u b t True (Some bi) w)) = 10"
  "map category (fst (select_prompts env u b t True (Some bi) w)) = replicate 10 ''custom''"
  "map prompt_id (fst (select_prompts env u b t True (Some bi) w))
     = map (\<lambda>i. ''custom-'' @ show_nat (i + 1)) [0..<10]"
  "map template (fst (select_prompts env u b t True (Some bi) w))
     = fst (generateBusinessPrompts env
          \<lparr>brandName = or_else (brandName bi) b, industry = or_else (industry bi) t,
           brandSummary = or_else (brandSummary bi) [], url = u\<rparr> w)"
proof -
  let ?g = "fst (generateBusinessPrompts env
          \<lparr>brandName = or_else (brandName bi) b, industry = or_else (industry bi) t,
           brandSummary = or_else (brandSummary bi) [], url = u\<rparr> w)"
  have l: "length ?g = 10" by (rule generateBusinessPrompts_length)
  show "length (fst (select_prompts env u b t True (Some bi) w)) = 10"
    using select_prompts_length [of env u b t True "Some bi" w] by simp
  show "map category (fst (select_prompts env u b t True (Some bi) w)) = replicate 10 ''custom''"
    unfolding select_prompts_custom
    by (rule nth_equalityI) (simp_all add: l nth_enumerate_eq)
  show "map prompt_id (fst (select_prompts env u b t True (Some bi) w))
             = map (\<lambda>i. ''custom-'' @ show_nat (i + 1)) [0..<10]"
    unfolding select_prompts_custom
    by (rule nth_equalityI) (simp_all add: l nth_enumerate_eq)
  show "map template (fst (select_prompts env u b t True (Some bi) w)) = ?g"
    unfolding select_prompts_custom
    by (rule nth_equalityI) (simp_all add: l nth_enumerate_eq)
qed

lemma select_prompts_nonempty: "fst (select_prompts env u b t prem info w) \<noteq> []"
  using select_prompts_length [of env u b t prem info w] by (auto split: if_splits)

lemma prompt_body_number:
  "template pt = JNum x \<Longrightarrow>
     prompt_body env d b t prem pt w =
       (Inl (Error ''promptTemplate.template.replace is not a function''), 0, w)"
  by (simp add: prompt_body_def)

lemma numbers_prompts:
  "generateBusinessPrompts numbers_env info w0 =
     ([JNum 1, JNum 2, JNum 3, JNum 4, JNum 5, JNum 6, JNum 7, JNum 8, JNum 9, JNum 10],
      \<lparr>gemini_calls = 1, openrouter_calls = 0, slept = []\<rparr>)"
proof -
  have s: "strip_fences numbers_answer = numbers_answer" by code_simp
  have b: "bracket_match numbers_answer = Some numbers_answer" by code_simp
  have g: "gemini numbers_env (gemini_calls w0) (generation_prompt info) = Inr (Inr numbers_answer)"
    by (simp add: numbers_env_def)
  have j: "JSON_parse numbers_env numbers_answer
             = Some (JArr [JNum 1, JNum 2, JNum 3, JNum 4, JNum 5, JNum 6, JNum 7, JNum 8, JNum 9, JNum 10])"
    by (simp add: numbers_env_def)
  have "fst (generateBusinessPrompts numbers_env info w0)
          = take 10 [JNum 1, JNum 2, JNum 3, JNum 4, JNum 5, JNum 6, JNum 7, JNum 8, JNum 9, JNum 10]"
    by (rule generateBusinessPrompts_array [OF g, where m = numbers_answer]) (simp_all add: s b j)
  moreover have "snd (generateBusinessPrompts numbers_env info w0)
                   = \<lparr>gemini_calls = 1, openrouter_calls = 0, slept = []\<rparr>"
    by (simp add: generateBusinessPrompts_request w0_def)
  ultimately show ?thesis by (simp add: prod_eq_iff)
qed

text \<open>
  Claim C9, at an input where the code departs from it: a premium run in which the
  provider answers the generation request with the JSON array
  \<^verbatim>\<open>[1,2,3,4,5,6,7,8,9,10]\<close>. The answer is no list of prompts, yet it passes the
  test \<^verbatim>\<open>Array.isArray(prompts) && prompts.length >= 10\<close>: the ten numbers are
  returned in place of the default prompts and become the templates \<^verbatim>\<open>custom-1\<close>
  to \<^verbatim>\<open>custom-10\<close>. A number has no \<^verbatim>\<open>replace\<close>, so each of the ten prompts of the
  run throws and is recorded with the score 0 and that error.
\<close>

theorem unchecked_prompt_entries:
  "generateBusinessPrompts numbers_env no_info w0 =
     ([JNum 1, JNum 2, JNum 3, JNum 4, JNum 5, JNum 6, JNum 7, JNum 8, JNum 9, JNum 10],
      \<lparr>gemini_calls = 1, openrouter_calls = 0, slept = []\<rparr>)
   \<and> map template (fst (select_prompts numbers_env ''https://www.example.com/'' ''Example''
                          ''Example and similar services'' True (Some no_info) w0))
       = [JNum 1, JNum 2, JNum 3, JNum 4, JNum 5, JNum 6, JNum 7, JNum 8, JNum 9, JNum 10]
   \<and> map error (details (fst (analyzeLLMVisibility numbers_env ''https://www.example.com/'' True
                                (Some no_info) w0)))
       = replicate 10 (Some ''promptTemplate.template.replace is not a function'')
   \<and> totalScore (fst (analyzeLLMVisibility numbers_env ''https://www.example.com/'' True
                        (Some no_info) w0)) = 0"
proof -
  let ?u = "''https://www.example.com/''"
  let ?d = "extractDomain numbers_env ?u"
  let ?b = "extractBrand ?d"
  let ?t = "guessTopic ?b"
  let ?nums = "[JNum 1, JNum 2, JNum 3, JNum 4, JNum 5, JNum 6, JNum 7, JNum 8, JNum 9, JNum 10]"
  let ?msg = "''promptTemplate.template.replace is not a function''"
  have tm: "\<And>b t. map template (fst (select_prompts numbers_env ?u b t True (Some no_info) w0)) = ?nums"
    by (simp add: select_prompts_tags(4) numbers_prompts)
  obtain ps w1 where sp: "select_prompts numbers_env ?u ?b ?t True (Some no_info) w0 = (ps, w1)"
    by (cases "select_prompts numbers_env ?u ?b ?t True (Some no_info) w0") auto
  with tm [of ?b ?t] have tp: "map template ps = ?nums" by simp
  from arg_cong [OF tp, of length] have len: "length ps = 10" by simp
  have nums: "\<forall>pt \<in> set ps. \<exists>x. template pt = JNum x"
  proof
    fix pt assume "pt \<in> set ps"
    then have "template pt \<in> set (map template ps)" by simp
    then show "\<exists>x. template pt = JNum x" unfolding tp by auto
  qed
  obtain rs ts tk w2 where rp: "run_prompts numbers_env ?d ?b ?t True ps ([], 0, 0, w1) = (rs, ts, tk, w2)"
    by (cases "run_prompts numbers_env ?d ?b ?t True ps ([], 0, 0, w1)") auto
  let ?Q = "\<lambda>(pt :: promptTemplate) x. error x = Some ?msg \<and> d_score x = 0"
  have "\<exists>new. fst (run_prompts numbers_env ?d ?b ?t True ps ([], 0, 0, w1)) = [] @ new
       \<and> fst (snd (run_prompts numbers_env ?d ?b ?t True ps ([], 0, 0, w1)))
           = 0 + sum_list (map d_score new)
       \<and> list_all2 ?Q ps new"
  proof (rule run_prompts_entries)
    fix pt w r tk w'
    assume pt: "pt \<in> set ps"
      and pb: "prompt_body numbers_env ?d ?b ?t True pt w = (r, tk, w')"
    from pt nums obtain x where "template pt = JNum x" by blast
    from prompt_body_number [OF this, of numbers_env ?d ?b ?t True w] pb
    have "r = Inl (Error ?msg)" by simp
    then show "error (entry_of pt r) = Some ?msg \<and> d_score (entry_of pt r) = 0"
      by (simp add: entry_of_def error_entry_fields)
  qed
  with rp have tot: "ts = sum_list (map d_score rs)" and all: "list_all2 ?Q ps rs" by auto
  from all len have l: "length rs = 10" by (auto dest: list_all2_lengthD)
  from all have q: "\<forall>x \<in> set rs. error x = Some ?msg \<and> d_score x = 0" by (rule list_all2_right)
  then have e: "\<forall>x \<in> set rs. error x = Some ?msg" and z: "\<forall>x \<in> set rs. d_score x = 0" by simp_all
  from tot z have t0: "ts = 0" by (simp add: sum_list_zero)
  have C: "map error (details (fst (analyzeLLMVisibility numbers_env ?u True (Some no_info) w0)))
             = replicate 10 (Some ?msg)"
    using map_replicate [OF l e] by (simp add: analyzeLLMVisibility_report [OF sp rp])
  have D: "totalScore (fst (analyzeLLMVisibility numbers_env ?u True (Some no_info) w0)) = 0"
    using t0 by (simp add: analyzeLLMVisibility_report [OF sp rp])
  from numbers_prompts [of no_info] tm [of "''Example''" "''Example and similar services''"] C D
  show ?thesis by simp
qed

section \<open>Properties of the multi-provider analysis\<close>

lemma gemini_answer_clean: "strip_fences gemini_answer = gemini_answer" by code_simp
lemma openrouter_answer_content: "or_else openrouter_answer ''{}'' = openrouter_answer" by code_simp
lemma answers_differ: "gemini_answer \<noteq> openrouter_answer" by code_simp

lemma citing_multi_model_analysis: "fst (multi_model_analysis citing_env q ''example.com'' w0) =
   Some \<lparr>ar_response = gemini_answer, ar_parsedResponse = gemini_answer_json,
         ar_citations = [JStr ''https://example.com/about''], ar_mentioned = True,
         ar_llmResults = Some [(''gemini'', gemini_answer_json), (''openrouter1'', openrouter_answer_json)],
         ar_tokensUsed = (length q + length gemini_answer + 3) div 4\<rparr>"
proof -
  have a: "analyzeWithGemini citing_env q ''example.com'' w0 = (Inr gemini_answer_json, w0\<lparr>gemini_calls := 1\<rparr>)"
    by (simp add: analyzeWithGemini_def call_gemini_def citing_env_def gemini_answer_clean w0_def)
  have b: "\<And>w. analyzeWithOpenRouter citing_env q ''example.com'' (Some ''openrouter/sherlock-dash-alpha'') w
      = (Inr openrouter_answer_json, w\<lparr>openrouter_calls := openrouter_calls w + 1\<rparr>)"
    by (simp add: analyzeWithOpenRouter_def openrouter_candidates_def call_openrouter_def citing_env_def openrouter_answer_content answers_differ[symmetric])
  have c: "\<And>w. analyzeWithOpenRouter citing_env q ''example.com'' (Some ''mistralai/mistral-7b-instruct:free'') w
      = (Inl (Error ''OpenRouter analysis failed: Request failed with status code 429''),
         w\<lparr>openrouter_calls := openrouter_calls w + 1\<rparr>)"
    by (simp add: analyzeWithOpenRouter_def openrouter_candidates_def call_openrouter_def citing_env_def)
  have m: "fst (analyzeWithMultipleLLMs citing_env q ''example.com'' w0) =
     \<lparr>gemini_result = gemini_answer_json, openrouter1 = openrouter_answer_json, openrouter2 = JNull,
      openrouter_first = openrouter_answer_json,
      errors = [(''openrouter2'', ''OpenRouter analysis failed: Request failed with status code 429'')]\<rparr>"
    by (simp add: analyzeWithMultipleLLMs_def a b c settle_def openrouter_answer_json_def)
  show ?thesis
  proof -
    obtain mr w' where e: "analyzeWithMultipleLLMs citing_env q ''example.com'' w0 = (mr, w')"
      by (cases "analyzeWithMultipleLLMs citing_env q ''example.com'' w0") auto
    have st: "JSON_stringify citing_env gemini_answer_json = gemini_answer"
      by (simp add: citing_env_def)
    have sp: "spread_citations gemini_answer_json = Inr []"
       "spread_citations openrouter_answer_json = Inr [JStr ''https://example.com/about'']"
       "spread_citations JNull = Inr []"
      by (simp_all add: spread_citations_def gemini_answer_json_def openrouter_answer_json_def)
    have tr: "truthy gemini_answer_json" "truthy openrouter_answer_json"
      by (simp_all add: gemini_answer_json_def openrouter_answer_json_def)
    from m e have mr: "mr = \<lparr>gemini_result = gemini_answer_json, openrouter1 = openrouter_answer_json, openrouter2 = JNull,
      openrouter_first = openrouter_answer_json,
      errors = [(''openrouter2'', ''OpenRouter analysis failed: Request failed with status code 429'')]\<rparr>" by simp
    show ?thesis
      by (simp add: multi_model_analysis_def e mr Let_def sp tr st tagged_def)
  qed
qed

text \<open>
  Claim C2, at an input where the code departs from it. Gemini answers with no
  citation, the first OpenRouter model cites \<^verbatim>\<open>https://example.com/about\<close>, the
  second fails. The union of the citations is computed and stored in
  \<^verbatim>\<open>analysisResult.citations\<close>, but the entry of \<^verbatim>\<open>details\<close> is built from
  \<^verbatim>\<open>analyzeResponse\<close> on the primary response alone: its citations are empty and
  its score is 0.
\<close>

theorem multi_provider_union_dropped:
  "map_option ar_citations (fst (multi_model_analysis citing_env ''Describe Example'' ''example.com'' w0))
     = Some [JStr ''https://example.com/about'']
   \<and> map_sum message d_citations
         (fst (prompt_body citing_env ''example.com'' ''Example'' ''Example and similar services'' True
                 describe_prompt w0)) = Inr []
   \<and> map_sum message d_score
         (fst (prompt_body citing_env ''example.com'' ''Example'' ''Example and similar services'' True
                 describe_prompt w0)) = Inr 0"
proof -
  let ?ar = "\<lparr>ar_response = gemini_answer, ar_parsedResponse = gemini_answer_json,
         ar_citations = [JStr ''https://example.com/about''], ar_mentioned = True,
         ar_llmResults = Some [(''gemini'', gemini_answer_json), (''openrouter1'', openrouter_answer_json)],
         ar_tokensUsed = (length ''Describe Example'' + length gemini_answer + 3) div 4\<rparr>"
  have p: "replace_first ''{topic}'' ''Example and similar services''
             (replace_first ''{brand}'' ''Example'' (replace_first ''{domain}'' ''example.com'' ''Describe {brand}''))
           = ''Describe Example''"
    by code_simp
  obtain w1 where m: "multi_model_analysis citing_env ''Describe Example'' ''example.com'' w0 = (Some ?ar, w1)"
    using citing_multi_model_analysis [of "''Describe Example''"]
    by (cases "multi_model_analysis citing_env ''Describe Example'' ''example.com'' w0") auto
  have a: "analyzeResponse gemini_answer ''example.com'' gemini_answer_json
             = Inr \<lparr>mentioned = False, score = 0, citations = [], confidence = Low\<rparr>"
    by code_simp
  have r: "fst (getRecommendations citing_env ''example.com'' ''Example'' w1) = JArr []"
    by (simp add: getRecommendations_def call_gemini_def citing_env_def gemini_answer_clean gemini_answer_json_def)
  obtain rc w2 where g: "getRecommendations citing_env ''example.com'' ''Example'' w1 = (rc, w2)"
    by (cases "getRecommendations citing_env ''example.com'' ''Example'' w1") auto
  with r have rc: "rc = JArr []" by simp
  have "\<exists>dt x. prompt_body citing_env ''example.com'' ''Example'' ''Example and similar services'' True
          describe_prompt w0 = (Inr dt, x) \<and> d_citations dt = [] \<and> d_score dt = 0"
    by (simp add: prompt_body_def describe_prompt_def p m a g Let_def)
  then show ?thesis using m by auto
qed

section \<open>Properties of the model health monitor\<close>

lemma hf_attempts_requests:
  "\<exists>new. requests (snd (hf_attempts env m ep isLast a le w)) = requests w @ new
         \<and> (\<forall>r \<in> set new. req_model r = m)"
proof (induction env m ep isLast a le w rule: hf_attempts.induct)
  case (1 env modelName ep isLast attempt lastError w)
  let ?w' = "send (Request ''huggingface'' modelName ep) w"
  let ?post = "huggingface_post env (length (requests w)) ep (or_else (test_prompt ''huggingfaceBGE'') okPrompt)"
  show ?case
  proof (cases "attempt \<le> hf_maxRetries")
    case False
    then show ?thesis by (simp add: hf_attempts.simps [of env modelName ep isLast attempt])
  next
    case True
    show ?thesis
    proof (cases ?post)
      case (Inr a)
      with True show ?thesis
        by (simp add: hf_attempts.simps [of env modelName ep isLast attempt] Let_def send_def)
    next
      case (Inl e)
      show ?thesis
      proof (cases "status e = Some 503 \<and> attempt < hf_maxRetries")
        case False
        with True Inl show ?thesis
          by (auto simp add: hf_attempts.simps [of env modelName ep isLast attempt] Let_def send_def)
      next
        case c: True
        let ?w2 = "?w'\<lparr>waits := waits ?w' @ [(attempt + 1) * 5000]\<rparr>"
        have eq: "hf_attempts env modelName ep isLast attempt lastError w
                    = hf_attempts env modelName ep isLast (attempt + 1) (Some e) ?w2"
          using True Inl c by (simp add: hf_attempts.simps [of env modelName ep isLast attempt] Let_def)
        from "1.IH"[OF True refl Inl] c
        obtain new where "requests (snd (hf_attempts env modelName ep isLast (attempt + 1) (Some e) ?w2))
                            = requests ?w2 @ new" "\<forall>r \<in> set new. req_model r = modelName"
          by auto
        then show ?thesis
          by (intro exI[of _ "Request ''huggingface'' modelName ep # new"]) (simp add: eq send_def)
      qed
    qed
  qed
qed

lemma hf_endpoints_loop_requests:
  "\<exists>new. requests (snd (hf_endpoints_loop env m eps le w)) = requests w @ new
         \<and> (\<forall>r \<in> set new. req_model r = m)"
proof (induction eps arbitrary: le w)
  case Nil
  then show ?case by simp
next
  case (Cons ep eps)
  obtain out w1 where a: "hf_attempts env m ep (eps = []) 0 le w = (out, w1)"
    by (cases "hf_attempts env m ep (eps = []) 0 le w") auto
  from hf_attempts_requests[of env m ep "eps = []" 0 le w] a
  obtain n1 where n1: "requests w1 = requests w @ n1" "\<forall>r \<in> set n1. req_model r = m" by auto
  show ?case
  proof (cases out)
    case (Continue le')
    from Cons.IH[of le' w1] obtain n2 where
      "requests (snd (hf_endpoints_loop env m eps le' w1)) = requests w1 @ n2" "\<forall>r \<in> set n2. req_model r = m"
      by auto
    with n1 a Continue show ?thesis by (intro exI[of _ "n1 @ n2"]) auto
  qed (use n1 a in auto)
qed

lemma testHuggingFaceModel_requests:
  "\<exists>new. requests (snd (testHuggingFaceModel env m w)) = requests w @ new
         \<and> (\<forall>r \<in> set new. req_model r = m)"
proof (cases "HUGGINGFACE_API_KEY env")
  case False
  then show ?thesis by (simp add: testHuggingFaceModel_def)
next
  case True
  obtain r w1 where a: "hf_endpoints_loop env m (hf_endpoints m) None w = (r, w1)"
    by (cases "hf_endpoints_loop env m (hf_endpoints m) None w") auto
  with hf_endpoints_loop_requests[of env m "hf_endpoints m" None w] True
  show ?thesis by (cases r) (auto simp: testHuggingFaceModel_def Let_def)
qed

lemma testOpenRouterModel_requests:
  "\<exists>new. requests (snd (testOpenRouterModel env m w)) = requests w @ new
         \<and> (\<forall>r \<in> set new. req_model r = m)"
  by (auto simp: testOpenRouterModel_def Let_def send_def split: sum.splits)

lemma testGeminiModel_requests:
  "\<exists>new. requests (snd (testGeminiModel env m w)) = requests w @ new
         \<and> (\<forall>r \<in> set new. req_model r = m)"
  by (auto simp: testGeminiModel_def Let_def send_def split: sum.splits)

lemma probe_one_requests:
  assumes "\<And>m w. \<exists>new. requests (snd (test m w)) = requests w @ new \<and> (\<forall>r \<in> set new. req_model r = m)"
  shows "\<exists>new. requests (snd (probe_one test k g w)) = requests w @ new
           \<and> (\<forall>r \<in> set new. \<not> (g \<and> is_deprecated k) \<and> req_model r = model_name k)"
proof (cases "g \<and> is_deprecated k")
  case True
  then show ?thesis by (simp add: probe_one_def)
next
  case False
  with assms[of "model_name k" w] show ?thesis by (auto simp: probe_one_def)
qed

lemma probe_all_Cons:
  "probe_one test k g w = (r, w1) \<Longrightarrow> probe_all test ks w1 = (rs, w2) \<Longrightarrow>
     probe_all test ((k, g) # ks) w = ((k, r) # rs, w2)"
  by simp

lemma probe_all_requests:
  assumes "\<And>m w. \<exists>new. requests (snd (test m w)) = requests w @ new \<and> (\<forall>r \<in> set new. req_model r = m)"
  shows "\<exists>new. requests (snd (probe_all test ks w)) = requests w @ new
           \<and> (\<forall>r \<in> set new. \<exists>k g. (k, g) \<in> set ks \<and> \<not> (g \<and> is_deprecated k)
                    \<and> req_model r = model_name k)"
proof (induction ks arbitrary: w)
  case Nil
  then show ?case by simp
next
  case (Cons kg ks)
  obtain k g where kg: "kg = (k, g)" by (cases kg)
  obtain r w1 where s: "probe_one test k g w = (r, w1)" by (cases "probe_one test k g w")
  obtain rs w2 where p: "probe_all test ks w1 = (rs, w2)" by (cases "probe_all test ks w1")
  from probe_one_requests[OF assms, of k g w] s
  obtain n1 where n1: "requests w1 = requests w @ n1"
     "\<forall>r \<in> set n1. \<not> (g \<and> is_deprecated k) \<and> req_model r = model_name k" by auto
  from Cons.IH[of w1] p obtain n2 where n2: "requests w2 = requests w1 @ n2"
     "\<forall>r \<in> set n2. \<exists>k g. (k, g) \<in> set ks \<and> \<not> (g \<and> is_deprecated k) \<and> req_model r = model_name k"
    by auto
  have "requests (snd (probe_all test (kg # ks) w)) = requests w @ (n1 @ n2)"
    using n1 n2 by (simp del: probe_all.simps add: kg probe_all_Cons[OF s p])
  moreover have "\<forall>r \<in> set (n1 @ n2). \<exists>k' g'. (k', g') \<in> set (kg # ks) \<and> \<not> (g' \<and> is_deprecated k')
                    \<and> req_model r = model_name k'"
  proof
    fix x assume "x \<in> set (n1 @ n2)"
    then consider "x \<in> set n1" | "x \<in> set n2" by auto
    then show "\<exists>k' g'. (k', g') \<in> set (kg # ks) \<and> \<not> (g' \<and> is_deprecated k') \<and> req_model x = model_name k'"
    proof cases
      case 1
      with n1(2) kg show ?thesis by (intro exI[of _ k] exI[of _ g]) auto
    next
      case 2
      with n2(2) obtain k' g' where "(k', g') \<in> set ks" "\<not> (g' \<and> is_deprecated k')" "req_model x = model_name k'"
        by blast
      then show ?thesis by (intro exI[of _ k'] exI[of _ g']) auto
    qed
  qed
  ultimately show ?case by blast
qed

lemma probe_all_keys: "map fst (fst (probe_all test ks w)) = map fst ks"
proof (induction ks arbitrary: w)
  case Nil
  then show ?case by simp
next
  case (Cons kg ks)
  obtain k g where kg: "kg = (k, g)" by (cases kg)
  obtain r w1 where s: "probe_one test k g w = (r, w1)" by (cases "probe_one test k g w")
  obtain rs w2 where p: "probe_all test ks w1 = (rs, w2)" by (cases "probe_all test ks w1")
  from Cons.IH[of w1] p have "map fst rs = map fst ks" by simp
  then show ?case by (simp del: probe_all.simps add: kg probe_all_Cons[OF s p])
qed

lemma probe_all_deprecated:
  "(k, True) \<in> set ks \<Longrightarrow> is_deprecated k \<Longrightarrow> distinct (map fst ks) \<Longrightarrow>
     map_of (fst (probe_all test ks w)) k = Some deprecated_entry"
proof (induction ks arbitrary: w)
  case Nil
  then show ?case by simp
next
  case (Cons kg ks)
  obtain k' g' where kg: "kg = (k', g')" by (cases kg)
  obtain r w1 where s: "probe_one test k' g' w = (r, w1)" by (cases "probe_one test k' g' w")
  obtain rs w2 where p: "probe_all test ks w1 = (rs, w2)" by (cases "probe_all test ks w1")
  have eq: "fst (probe_all test (kg # ks) w) = (k', r) # rs"
    by (simp del: probe_all.simps add: kg probe_all_Cons[OF s p])
  show ?case
  proof (cases "k' = k")
    case True
    with Cons.prems kg have "g' = True" by (auto simp: image_iff)
    with True Cons.prems(2) s have "r = deprecated_entry" by (simp add: probe_one_def)
    with True show ?thesis by (simp add: eq)
  next
    case False
    with Cons.prems kg have "(k, True) \<in> set ks" "distinct (map fst ks)" by auto
    from Cons.IH[OF this(1) Cons.prems(2) this(2), of w1] p have "map_of rs k = Some deprecated_entry"
      by simp
    with False show ?thesis by (simp add: eq)
  qed
qed



lemma models_distinct: "distinct (map fst MODELS)"
  by code_simp

lemma lower_names_distinct: "distinct (map (\<lambda>(key, c). toLowerCase (name c)) MODELS)"
  by code_simp

lemma names_nonempty: "list_all (\<lambda>(key, c). name c \<noteq> []) MODELS"
  by code_simp

lemma deprecated_guarded:
  "list_all (\<lambda>(key, c). deprecated c \<longrightarrow>
       (key, True) \<in> set huggingface_probes
       \<or> ((key, True) \<in> set openrouter_probes \<and> key \<notin> set (map fst huggingface_probes)
           \<and> key \<in> set openrouter_unconfigured)) MODELS"
  by code_simp

lemma gemini_key_apart: "''gemini'' \<notin> set (map fst huggingface_probes) \<union> set (map fst openrouter_probes)
   \<union> set openrouter_unconfigured"
  by code_simp

lemma probes_distinct: "distinct (map fst huggingface_probes)" "distinct (map fst openrouter_probes)"
  by code_simp+

lemma deprecated_not_probed: "list_all (\<lambda>n. n \<notin> set probed_names) deprecated_names"
  by code_simp

lemma deprecated_names_no_keys:
  "list_all (\<lambda>n. n \<notin> set (''gemini'' # map fst huggingface_probes @ map fst openrouter_probes
                              @ openrouter_unconfigured)
                \<and> map_of modelNameMap n = None \<and> n \<notin> set object_prototype) deprecated_names"
  by code_simp

lemma deprecated_model_facts:
  assumes "(key, cfg) \<in> set MODELS" and "deprecated cfg"
  shows "is_deprecated key" and "model_name key = name cfg" and "name cfg \<in> set deprecated_names"
    and "key \<noteq> ''gemini''"
    and "(key, True) \<in> set huggingface_probes
         \<or> ((key, True) \<in> set openrouter_probes \<and> key \<notin> set (map fst huggingface_probes)
             \<and> key \<in> set openrouter_unconfigured)"
proof -
  from assms(1) models_distinct have m: "map_of MODELS key = Some cfg" by simp
  with assms(2) show "is_deprecated key" "model_name key = name cfg"
    by (simp_all add: is_deprecated_def model_name_def)
  from assms show "name cfg \<in> set deprecated_names"
    by (force simp: deprecated_names_def)
  from deprecated_guarded assms
  show g: "(key, True) \<in> set huggingface_probes
         \<or> ((key, True) \<in> set openrouter_probes \<and> key \<notin> set (map fst huggingface_probes)
             \<and> key \<in> set openrouter_unconfigured)"
    by (auto simp: list_all_iff)
  with gemini_key_apart show "key \<noteq> ''gemini''" by (auto simp: image_iff)
qed

lemma unconfigured_lookup:
  "k \<in> set ks \<Longrightarrow> map_of (map (\<lambda>key. (key, unhealthy msg)) ks) k = Some (unhealthy msg)"
  by (induction ks) auto

lemma unconfigured_lookup2:
  "(k, g) \<in> set ks \<Longrightarrow>
     map_of (map (\<lambda>(key, guarded). (key, unhealthy msg)) ks) k = Some (unhealthy msg)"
  by (induction ks) auto

lemma not_healthy_entries: "\<not> healthy deprecated_entry" "\<not> healthy (unhealthy msg)"
  by (simp_all add: deprecated_entry_def unhealthy_def)

lemma checkAllModels_parts:
  "\<exists>g w1 hf w2 orr w3.
     (g, w1) = (if GEMINI_API_KEY env then testGeminiModel env (model_name ''gemini'') w
                else (unhealthy ''API key not configured'', w))
   \<and> (hf, w2) = (if HUGGINGFACE_API_KEY env
                 then probe_all (testHuggingFaceModel env) huggingface_probes w1
                 else (map (\<lambda>(key, guarded). (key, unhealthy ''API key not configured''))
                         huggingface_probes, w1))
   \<and> (orr, w3) = (if OPENROUTER_KEY env
                  then probe_all (testOpenRouterModel env) openrouter_probes w2
                  else (map (\<lambda>key. (key, unhealthy ''API key not configured''))
                          openrouter_unconfigured, w2))
   \<and> checkAllModels env w =
       ((''gemini'', g) # hf @ orr,
        \<lparr>lastChecked = Some (Date_now env (length (requests w3))), models = (''gemini'', g) # hf @ orr\<rparr>,
        w3)"
  by (simp add: checkAllModels_def Let_def split: prod.splits)


lemma checkAllModels_deprecated:
  assumes "(key, cfg) \<in> set MODELS" and "deprecated cfg"
    and "checkAllModels env w = (results, hs, w')"
  shows "models hs = results
       \<and> (\<exists>r. map_of results key = Some r \<and> \<not> healthy r)
       \<and> isModelHealthy hs key = Some False
       \<and> (\<exists>new. requests w' = requests w @ new \<and> (\<forall>r \<in> set new. req_model r \<noteq> name cfg))"
proof -
  note f = deprecated_model_facts [OF assms(1,2)]
  from checkAllModels_parts [of env w] obtain g w1 hf w2 orr w3 where
    g: "(g, w1) = (if GEMINI_API_KEY env then testGeminiModel env (model_name ''gemini'') w
                else (unhealthy ''API key not configured'', w))"
    and hf: "(hf, w2) = (if HUGGINGFACE_API_KEY env
                 then probe_all (testHuggingFaceModel env) huggingface_probes w1
                 else (map (\<lambda>(key, guarded). (key, unhealthy ''API key not configured''))
                         huggingface_probes, w1))"
    and orr: "(orr, w3) = (if OPENROUTER_KEY env
                  then probe_all (testOpenRouterModel env) openrouter_probes w2
                  else (map (\<lambda>key. (key, unhealthy ''API key not configured''))
                          openrouter_unconfigured, w2))"
    and c: "checkAllModels env w =
       ((''gemini'', g) # hf @ orr,
        \<lparr>lastChecked = Some (Date_now env (length (requests w3))), models = (''gemini'', g) # hf @ orr\<rparr>,
        w3)"
    by blast
  from c assms(3) have res: "results = (''gemini'', g) # hf @ orr" and hs: "models hs = results"
    and w': "w' = w3" by auto
  \<comment> \<open>the entry of the model\<close>
  have hfkeys: "map fst hf = map fst huggingface_probes"
  proof (cases "HUGGINGFACE_API_KEY env")
    case True
    with hf have "hf = fst (probe_all (testHuggingFaceModel env) huggingface_probes w1)"
      by (metis fst_conv)
    then show ?thesis by (simp add: probe_all_keys)
  next
    case False
    with hf show ?thesis by (auto simp: case_prod_unfold)
  qed
  have entry: "\<exists>r. map_of (hf @ orr) key = Some r \<and> \<not> healthy r"
  proof (cases "(key, True) \<in> set huggingface_probes")
    case True
    have "\<exists>r. map_of hf key = Some r \<and> \<not> healthy r"
    proof (cases "HUGGINGFACE_API_KEY env")
      case k: True
      with hf have "hf = fst (probe_all (testHuggingFaceModel env) huggingface_probes w1)"
        by (metis fst_conv)
      with probe_all_deprecated [OF True f(1) probes_distinct(1)] show ?thesis
        by (simp add: not_healthy_entries)
    next
      case False
      with hf have "hf = map (\<lambda>(key, guarded). (key, unhealthy ''API key not configured''))
                         huggingface_probes" by simp
      with unconfigured_lookup2 [OF True] show ?thesis by (simp add: not_healthy_entries)
    qed
    then show ?thesis by auto
  next
    case False
    with f(5) have o: "(key, True) \<in> set openrouter_probes" "key \<notin> set (map fst huggingface_probes)"
      "key \<in> set openrouter_unconfigured" by auto
    from o(2) hfkeys have "key \<notin> fst ` set hf" by (metis set_map)
    then have "map_of hf key = None" by (simp add: map_of_eq_None_iff)
    moreover have "\<exists>r. map_of orr key = Some r \<and> \<not> healthy r"
    proof (cases "OPENROUTER_KEY env")
      case True
      with orr have "orr = fst (probe_all (testOpenRouterModel env) openrouter_probes w2)"
        by (metis fst_conv)
      with probe_all_deprecated [OF o(1) f(1) probes_distinct(2)] show ?thesis
        by (simp add: not_healthy_entries)
    next
      case False
      with orr have "orr = map (\<lambda>key. (key, unhealthy ''API key not configured''))
                          openrouter_unconfigured" by simp
      with unconfigured_lookup [OF o(3)] show ?thesis by (simp add: not_healthy_entries)
    qed
    ultimately show ?thesis by (auto simp: map_add_def)
  qed
  with f(4) res have e: "\<exists>r. map_of results key = Some r \<and> \<not> healthy r" by simp
  then have h: "isModelHealthy hs key = Some False"
    by (auto simp: isModelHealthy_def exact_match_def get_property_def hs)
  \<comment> \<open>the requests\<close>
  from g testGeminiModel_requests [of env "model_name ''gemini''" w]
  obtain n1 where n1: "requests w1 = requests w @ n1"
    "\<forall>r \<in> set n1. req_model r = model_name ''gemini''"
    by (cases "GEMINI_API_KEY env") (auto dest: sym [of "(g, w1)"])
  from hf probe_all_requests [of "testHuggingFaceModel env" huggingface_probes w1,
                              OF testHuggingFaceModel_requests]
  obtain n2 where n2: "requests w2 = requests w1 @ n2"
    "\<forall>r \<in> set n2. \<exists>k g. (k, g) \<in> set huggingface_probes \<and> \<not> (g \<and> is_deprecated k)
                       \<and> req_model r = model_name k"
    by (cases "HUGGINGFACE_API_KEY env") (auto dest: sym [of "(hf, w2)"])
  from orr probe_all_requests [of "testOpenRouterModel env" openrouter_probes w2,
                               OF testOpenRouterModel_requests]
  obtain n3 where n3: "requests w3 = requests w2 @ n3"
    "\<forall>r \<in> set n3. \<exists>k g. (k, g) \<in> set openrouter_probes \<and> \<not> (g \<and> is_deprecated k)
                       \<and> req_model r = model_name k"
    by (cases "OPENROUTER_KEY env") (auto dest: sym [of "(orr, w3)"])
  have probed: "\<forall>r \<in> set (n1 @ n2 @ n3). req_model r \<in> set probed_names"
    using n1(2) n2(2) n3(2) by (fastforce simp: probed_names_def)
  from deprecated_not_probed f(3) have "name cfg \<notin> set probed_names"
    by (auto simp: list_all_iff)
  with probed have "\<forall>r \<in> set (n1 @ n2 @ n3). req_model r \<noteq> name cfg" by metis
  moreover have "requests w' = requests w @ (n1 @ n2 @ n3)" using n1 n2 n3 w' by simp
  ultimately have "\<exists>new. requests w' = requests w @ new \<and> (\<forall>r \<in> set new. req_model r \<noteq> name cfg)"
    by blast
  with hs e h show ?thesis by blast
qed

lemma startsWith_refl: "startsWith s s"
  by (induction s) auto

lemma includesStr_refl: "includesStr s s"
  by (cases s) (auto simp: startsWith_refl)

lemma find_unique:
  "distinct (map f xs) \<Longrightarrow> x \<in> set xs \<Longrightarrow> P x \<Longrightarrow> (\<And>y. y \<in> set xs \<Longrightarrow> P y \<Longrightarrow> f y = f x)
     \<Longrightarrow> find P xs = Some x"
proof (induction xs)
  case Nil
  then show ?case by simp
next
  case (Cons a xs)
  show ?case
  proof (cases "P a")
    case True
    have fa: "f a = f x" by (rule Cons.prems(4)) (simp_all add: True)
    have "a = x"
    proof (rule ccontr)
      assume "a \<noteq> x"
      with Cons.prems(2) have "x \<in> set xs" by simp
      then have "f x \<in> f ` set xs" by (rule imageI)
      moreover from Cons.prems(1) have "f a \<notin> f ` set xs" by simp
      ultimately show False using fa by simp
    qed
    with True show ?thesis by simp
  next
    case False
    with Cons.prems(2,3) have xs: "x \<in> set xs" by auto
    have "find P xs = Some x"
    proof (rule Cons.IH)
      show "distinct (map f xs)" using Cons.prems(1) by simp
      show "x \<in> set xs" by (rule xs)
      show "P x" by (rule Cons.prems(3))
      show "\<And>y. y \<in> set xs \<Longrightarrow> P y \<Longrightarrow> f y = f x" by (rule Cons.prems(4)) simp_all
    qed
    with False show ?thesis by simp
  qed
qed

lemma get_property_Own: "map_of obj k = Some v \<Longrightarrow> get_property obj k = Own v"
  by (simp add: get_property_def)

lemma get_property_Missing_iff:
  "get_property obj k = Missing \<longleftrightarrow> map_of obj k = None \<and> k \<notin> set object_prototype"
  by (simp add: get_property_def split: option.splits)

lemma get_property_Inherited_iff:
  "get_property obj k = Inherited \<longleftrightarrow> map_of obj k = None \<and> k \<in> set object_prototype"
  by (simp add: get_property_def split: option.splits)

lemma modelNameMap_entries:
  "list_all (\<lambda>(n, k). k \<noteq> [] \<and> k \<notin> set object_prototype \<and> n \<notin> set object_prototype) modelNameMap"
  by code_simp

lemma MODELS_keys_own: "list_all (\<lambda>(k, c). k \<notin> set object_prototype) MODELS"
  by code_simp

lemma config_name_own:
  assumes "(k, c) \<in> set MODELS"
  shows "config_name k = Some (name c)"
proof -
  from assms models_distinct have "map_of MODELS k = Some c" by simp
  moreover from names_nonempty assms have "name c \<noteq> []" by (auto simp: list_all_iff)
  ultimately show ?thesis by (simp add: config_name_def get_property_def)
qed

lemma mapped_match_cases:
  "mapped_match cache m =
     (case map_of modelNameMap m of Some k \<Rightarrow> get_property cache k | None \<Rightarrow> Missing)"
proof (cases "map_of modelNameMap m")
  case None
  then show ?thesis by (simp add: mapped_match_def get_property_def)
next
  case (Some k)
  then have "(m, k) \<in> set modelNameMap" by (rule map_of_SomeD)
  with modelNameMap_entries have "k \<noteq> []" by (auto simp: list_all_iff)
  with Some show ?thesis by (simp add: mapped_match_def get_property_def)
qed

lemma name_match_found:
  assumes "(k, c) \<in> set MODELS" and "toLowerCase (name c) = toLowerCase m"
    and "map_of cache k = Some r"
  shows "name_match cache m = Own r"
proof -
  let ?P = "\<lambda>(key, c). name c \<noteq> [] \<and> toLowerCase (name c) = toLowerCase m
                       \<and> get_property cache key \<noteq> Missing"
  from names_nonempty assms(1) have ne: "name c \<noteq> []" by (auto simp: list_all_iff)
  have "find ?P MODELS = Some (k, c)"
  proof (rule find_unique [where f = "\<lambda>(key, c). toLowerCase (name c)"])
    show "distinct (map (\<lambda>(key, c). toLowerCase (name c)) MODELS)" by (rule lower_names_distinct)
    show "(k, c) \<in> set MODELS" by (rule assms(1))
    show "?P (k, c)" using ne assms by (simp add: get_property_Own)
    show "\<And>y. y \<in> set MODELS \<Longrightarrow> ?P y \<Longrightarrow>
            (case y of (key, c) \<Rightarrow> toLowerCase (name c)) = (case (k, c) of (key, c) \<Rightarrow> toLowerCase (name c))"
      using assms(2) by auto
  qed
  with assms(3) show ?thesis by (simp add: name_match_def get_property_Own)
qed

lemma find_first:
  "\<forall>x \<in> set pre. \<not> P x \<Longrightarrow> P x \<Longrightarrow> find P (pre @ x # post) = Some x"
  by (induction pre) auto

lemma no_entry_lookups:
  assumes "m \<notin> set object_prototype"
    and "\<forall>(k, r) \<in> set cache. k \<noteq> m \<and> map_of modelNameMap m \<noteq> Some k
             \<and> (\<forall>n. config_name k = Some n \<longrightarrow>
                    \<not> includesStr (toLowerCase n) (toLowerCase m)
                    \<and> \<not> includesStr (toLowerCase m) (toLowerCase n))"
  shows "exact_match cache m = Missing" and "mapped_match cache m = Missing"
    and "name_match cache m = Missing" and "partial_match cache m = None"
proof -
  show "exact_match cache m = Missing"
    using assms by (auto simp: exact_match_def get_property_Missing_iff map_of_eq_None_iff)
  show "mapped_match cache m = Missing"
  proof (cases "map_of modelNameMap m")
    case None
    then show ?thesis by (simp add: mapped_match_cases)
  next
    case (Some k)
    then have "(m, k) \<in> set modelNameMap" by (rule map_of_SomeD)
    with modelNameMap_entries have "k \<notin> set object_prototype" by (auto simp: list_all_iff)
    moreover from Some assms(2) have "map_of cache k = None"
      by (auto simp: map_of_eq_None_iff)
    ultimately show ?thesis using Some by (simp add: mapped_match_cases get_property_Missing_iff)
  qed
  have "\<And>k c. (k, c) \<in> set MODELS \<Longrightarrow> toLowerCase (name c) = toLowerCase m
           \<Longrightarrow> get_property cache k = Missing"
  proof -
    fix k c assume kc: "(k, c) \<in> set MODELS" and eq: "toLowerCase (name c) = toLowerCase m"
    from MODELS_keys_own kc have own: "k \<notin> set object_prototype" by (auto simp: list_all_iff)
    have "map_of cache k = None"
    proof (rule ccontr)
      assume "map_of cache k \<noteq> None"
      then obtain r where "(k, r) \<in> set cache" by (auto dest: map_of_SomeD)
      with assms(2) config_name_own [OF kc]
      have "\<not> includesStr (toLowerCase (name c)) (toLowerCase m)" by auto
      with eq includesStr_refl show False by simp
    qed
    with own show "get_property cache k = Missing" by (simp add: get_property_Missing_iff)
  qed
  then have "find (\<lambda>(key, c). name c \<noteq> [] \<and> toLowerCase (name c) = toLowerCase m
                     \<and> get_property cache key \<noteq> Missing) MODELS = None"
    by (auto simp: find_None_iff)
  then show "name_match cache m = Missing" by (simp add: name_match_def)
  show "partial_match cache m = None"
    using assms(2) by (auto simp: partial_match_def find_None_iff split: option.splits)
qed

text \<open>
  The resolution of \<^verbatim>\<open>isModelHealthy\<close>, lookup by lookup: an entry under the model
  name decides; else an inherited property name gives \<^verbatim>\<open>undefined\<close>; else the entry
  under the mapped key decides; else the entry of the configuration with this name,
  letter case apart; else the first entry of the cache whose configuration's name
  contains the model name or is contained in it; and \<^verbatim>\<open>true\<close> is the answer when
  none of these finds anything.
\<close>

lemma isModelHealthy_exact:
  "map_of (models hs) m = Some r \<Longrightarrow> isModelHealthy hs m = Some (healthy r)"
  by (simp add: isModelHealthy_def exact_match_def get_property_def)

lemma isModelHealthy_inherited:
  "map_of (models hs) m = None \<Longrightarrow> m \<in> set object_prototype \<Longrightarrow> isModelHealthy hs m = None"
  by (simp add: isModelHealthy_def exact_match_def get_property_def)

lemma isModelHealthy_mapped:
  "exact_match (models hs) m = Missing \<Longrightarrow> map_of modelNameMap m = Some k
     \<Longrightarrow> map_of (models hs) k = Some r \<Longrightarrow> isModelHealthy hs m = Some (healthy r)"
  by (simp add: isModelHealthy_def mapped_match_cases get_property_Own)

lemma isModelHealthy_by_name:
  assumes "exact_match (models hs) m = Missing" and "mapped_match (models hs) m = Missing"
    and "(k, c) \<in> set MODELS" and "toLowerCase (name c) = toLowerCase m"
    and "map_of (models hs) k = Some r"
  shows "isModelHealthy hs m = Some (healthy r)"
proof -
  from assms(3-5) have "name_match (models hs) m = Own r" by (rule name_match_found)
  with assms(1,2) show ?thesis by (simp add: isModelHealthy_def)
qed

lemma isModelHealthy_partial:
  assumes "exact_match (models hs) m = Missing" and "mapped_match (models hs) m = Missing"
    and "name_match (models hs) m = Missing"
    and "models hs = pre @ (k, r) # post"
    and "\<forall>(k', r') \<in> set pre. \<forall>n. config_name k' = Some n \<longrightarrow>
            \<not> includesStr (toLowerCase n) (toLowerCase m) \<and> \<not> includesStr (toLowerCase m) (toLowerCase n)"
    and "config_name k = Some n"
    and "includesStr (toLowerCase n) (toLowerCase m) \<or> includesStr (toLowerCase m) (toLowerCase n)"
  shows "isModelHealthy hs m = Some (healthy r)"
proof -
  let ?P = "\<lambda>(key, result). case config_name key of
                  Some n \<Rightarrow> includesStr (toLowerCase n) (toLowerCase m)
                            \<or> includesStr (toLowerCase m) (toLowerCase n)
                | None \<Rightarrow> False"
  have "find ?P (pre @ (k, r) # post) = Some (k, r)"
  proof (rule find_first)
    show "\<forall>x \<in> set pre. \<not> ?P x" using assms(5) by (auto split: option.splits)
    show "?P (k, r)" using assms(6,7) by simp
  qed
  then have "partial_match (models hs) m = Some r" by (simp add: partial_match_def assms(4))
  with assms(1-3) show ?thesis by (simp add: isModelHealthy_def)
qed

lemma isModelHealthy_default:
  assumes "m \<notin> set object_prototype"
    and "\<forall>(k, r) \<in> set (models hs). k \<noteq> m \<and> map_of modelNameMap m \<noteq> Some k
             \<and> (\<forall>n. config_name k = Some n \<longrightarrow>
                    \<not> includesStr (toLowerCase n) (toLowerCase m)
                    \<and> \<not> includesStr (toLowerCase m) (toLowerCase n))"
  shows "isModelHealthy hs m = Some True"
  using no_entry_lookups [OF assms] by (simp add: isModelHealthy_def)

lemma isModelHealthy_empty_cache:
  assumes "models hs = []"
  shows "isModelHealthy hs m = (if m \<in> set object_prototype then None else Some True)"
proof (cases "m \<in> set object_prototype")
  case True
  with assms show ?thesis by (simp add: isModelHealthy_inherited)
next
  case False
  then have "isModelHealthy hs m = Some True"
    by (rule isModelHealthy_default) (simp add: assms)
  with False show ?thesis by simp
qed

text \<open>
  The lookups on a cache with two entries, both unhealthy: by key, by mapped name, by
  name with other letter case, by a part of a name, and a name that nothing matches.
\<close>

lemma isModelHealthy_stale_cache:
  "isModelHealthy stale_cache ''openrouterMistral'' = Some False"
  "isModelHealthy stale_cache ''mistralai/mistral-7b-instruct:free'' = Some False"
  "isModelHealthy stale_cache ''Google/Gemma-2-9B-IT'' = Some False"
  "isModelHealthy stale_cache ''gemma'' = Some False"
  "isModelHealthy stale_cache ''free'' = Some False"
  "isModelHealthy stale_cache ''anthropic/some-model'' = Some True"
  by code_simp+


lemma deprecated_by_name:
  assumes "(key, cfg) \<in> set MODELS" and "deprecated cfg"
    and "checkAllModels env w = (results, hs, w')"
  shows "isModelHealthy hs (name cfg) = Some False"
proof -
  note f = deprecated_model_facts [OF assms(1,2)]
  from checkAllModels_parts [of env w] obtain g w1 hf w2 orr w3 where
    hf: "(hf, w2) = (if HUGGINGFACE_API_KEY env
                 then probe_all (testHuggingFaceModel env) huggingface_probes w1
                 else (map (\<lambda>(key, guarded). (key, unhealthy ''API key not configured''))
                         huggingface_probes, w1))"
    and orr: "(orr, w3) = (if OPENROUTER_KEY env
                  then probe_all (testOpenRouterModel env) openrouter_probes w2
                  else (map (\<lambda>key. (key, unhealthy ''API key not configured''))
                          openrouter_unconfigured, w2))"
    and c: "checkAllModels env w =
       ((''gemini'', g) # hf @ orr,
        \<lparr>lastChecked = Some (Date_now env (length (requests w3))), models = (''gemini'', g) # hf @ orr\<rparr>,
        w3)"
    by blast
  from c assms(3) have res: "results = (''gemini'', g) # hf @ orr" and hs: "models hs = results" by auto
  have hfkeys: "map fst hf = map fst huggingface_probes"
  proof (cases "HUGGINGFACE_API_KEY env")
    case True
    with hf have "hf = fst (probe_all (testHuggingFaceModel env) huggingface_probes w1)"
      by (metis fst_conv)
    then show ?thesis by (simp add: probe_all_keys)
  next
    case False
    with hf show ?thesis by (auto simp: case_prod_unfold)
  qed
  have orkeys: "set (map fst orr) \<subseteq> set (map fst openrouter_probes) \<union> set openrouter_unconfigured"
  proof (cases "OPENROUTER_KEY env")
    case True
    with orr have "orr = fst (probe_all (testOpenRouterModel env) openrouter_probes w2)"
      by (metis fst_conv)
    then show ?thesis by (simp add: probe_all_keys)
  next
    case False
    with orr show ?thesis by (auto simp: comp_def)
  qed
  from deprecated_names_no_keys f(3)
  have nk: "name cfg \<notin> set (''gemini'' # map fst huggingface_probes @ map fst openrouter_probes
                              @ openrouter_unconfigured)"
    and nm: "map_of modelNameMap (name cfg) = None"
    and np: "name cfg \<notin> set object_prototype"
    by (auto simp: list_all_iff)
  have "name cfg \<notin> set (map fst results)"
    using nk hfkeys orkeys unfolding res by auto
  then have "map_of results (name cfg) = None" by (simp add: map_of_eq_None_iff)
  with np hs have ex: "exact_match (models hs) (name cfg) = Missing"
    by (simp add: exact_match_def get_property_Missing_iff)
  from nm have mp: "mapped_match (models hs) (name cfg) = Missing"
    by (simp add: mapped_match_cases)
  from checkAllModels_deprecated [OF assms] obtain r where r: "map_of results key = Some r" "\<not> healthy r"
    by blast
  have "isModelHealthy hs (name cfg) = Some (healthy r)"
    by (rule isModelHealthy_by_name [where k = key and c = cfg]) (use ex mp r assms(1) hs in simp_all)
  with r show ?thesis by simp
qed

text \<open>
  Claim C7. For every model of \<^verbatim>\<open>MODELS\<close> whose configuration carries the
  deprecated flag, and every run of \<^verbatim>\<open>checkAllModels\<close>: the cache is replaced by
  the results, the results hold an entry for the model with \<^verbatim>\<open>healthy: false\<close>,
  \<^verbatim>\<open>isModelHealthy\<close> is \<^verbatim>\<open>false\<close> for the model's key and for its full name, and
  none of the requests sent during the run is for the model.
\<close>

theorem deprecated_models_not_probed:
  assumes "(key, cfg) \<in> set MODELS" and "deprecated cfg"
    and "checkAllModels env w = (results, hs, w')"
  shows "models hs = results
       \<and> (\<exists>r. map_of results key = Some r \<and> \<not> healthy r)
       \<and> isModelHealthy hs key = Some False
       \<and> isModelHealthy hs (name cfg) = Some False
       \<and> (\<exists>new. requests w' = requests w @ new \<and> (\<forall>r \<in> set new. req_model r \<noteq> name cfg))"
  using checkAllModels_deprecated [OF assms] deprecated_by_name [OF assms] by blast

theorem deprecated_models_not_probed_witness:
  "isModelHealthy (fst (snd (checkAllModels reachable_env idle))) ''huggingfaceQwen'' = Some False
   \<and> isModelHealthy (fst (snd (checkAllModels reachable_env idle))) ''Qwen/Qwen2.5-7B-Instruct''
       = Some False"
proof -
  let ?cfg = "config ''Qwen/Qwen2.5-7B-Instruct'' ''huggingface'' True"
  have m: "(''huggingfaceQwen'', ?cfg) \<in> set MODELS" by (simp add: MODELS_def)
  have d: "deprecated ?cfg" by (simp add: config_def)
  have c: "checkAllModels reachable_env idle
             = (fst (checkAllModels reachable_env idle), fst (snd (checkAllModels reachable_env idle)),
                snd (snd (checkAllModels reachable_env idle)))"
    by simp
  from deprecated_models_not_probed [OF m d c] show ?thesis by (simp add: config_def)
qed

end
